(* ===== verification/Prelude.thy ===== *)
theory Prelude
  imports Main "HOL-Library.Word" "HOL-Library.Char_ord" "HOL-Library.List_Lexorder"
begin

text \<open>
  The vocabulary the components share: the part of the Rust standard library and of
  \<^verbatim>\<open>anyhow\<close> that the crates \<^verbatim>\<open>shared\<close>, \<^verbatim>\<open>ingress\<close> and \<^verbatim>\<open>client\<close> use, and the lemmas about it.

  \<^item> A Rust \<^verbatim>\<open>String\<close>, \<^verbatim>\<open>&str\<close> or \<^verbatim>\<open>[u8]\<close> is its sequence of bytes, a list of \<^typ>\<open>char\<close>
    (a \<^typ>\<open>char\<close> of HOL is a byte). Lengths are byte lengths, as in Rust.
  \<^item> \<^verbatim>\<open>u16\<close>, \<^verbatim>\<open>u64\<close> and \<^verbatim>\<open>usize\<close> are words of their width.
  \<^item> \<^verbatim>\<open>anyhow::Result<T>\<close> is a sum whose left side is the error's chain of causes, outermost
    first: \<open>context\<close> pushes a message in front of the chain, \<open>ensure\<close> starts one, and
    \<open>and_then\<close> is the \<^verbatim>\<open>?\<close> operator.
  \<^item> The string functions (\<open>strip_prefix\<close>, \<open>trim\<close>, \<open>split_on\<close>, \<open>str_lines\<close>, ...) follow the
    documentation of \<^verbatim>\<open>str\<close>, including the Unicode white space that \<^verbatim>\<open>trim\<close> removes.

  The collection \<open>res_simps\<close> holds the rules that turn "this chain of fallible steps
  succeeded" into the facts each step established.
\<close>

named_theorems res_simps "inversion rules for chains of fallible steps"

unbundle bit_operations_syntax

type_synonym byte = char
type_synonym bytes = "byte list"
type_synonym u16 = "16 word"
type_synonym u64 = "64 word"
type_synonym usize = "64 word"

section \<open>Errors and results\<close>

text \<open>The kinds of \<^verbatim>\<open>std::io::Error\<close> the code tells apart.\<close>

datatype io_kind = BrokenPipe | ConnectionReset | ConnectionAborted | Other_io

text \<open>One link of an \<^verbatim>\<open>anyhow\<close> chain: a message of this code base, an I/O error, or an error
  of a third-party library, which the code never looks into.\<close>

datatype cause = Msg string | Io_cause io_kind | Ext_cause string

type_synonym anyhow = "cause list"
type_synonym 'a res = "anyhow + 'a"

definition and_then :: "('e + 'a) \<Rightarrow> ('a \<Rightarrow> 'e + 'b) \<Rightarrow> 'e + 'b" where
  "and_then r f = (case r of Inl e \<Rightarrow> Inl e | Inr x \<Rightarrow> f x)"

definition ensure :: "bool \<Rightarrow> string \<Rightarrow> unit res" where
  "ensure c m = (if c then Inr () else Inl [Msg m])"

definition bail :: "string \<Rightarrow> 'a res" where
  "bail m = Inl [Msg m]"

definition add_context :: "string \<Rightarrow> 'a res \<Rightarrow> 'a res" where
  "add_context m r = (case r of Inl e \<Rightarrow> Inl (Msg m # e) | Inr x \<Rightarrow> Inr x)"

definition opt_context :: "string \<Rightarrow> 'a option \<Rightarrow> 'a res" where
  "opt_context m x = (case x of None \<Rightarrow> Inl [Msg m] | Some v \<Rightarrow> Inr v)"

text \<open>\<^verbatim>\<open>iter.map(f).collect::<Result<Vec<_>, _>>()\<close>: stops at the first error.\<close>

fun collect_res :: "('a \<Rightarrow> 'e + 'b) \<Rightarrow> 'a list \<Rightarrow> 'e + 'b list" where
  "collect_res f [] = Inr []"
| "collect_res f (x # xs) =
     and_then (f x) (\<lambda>y. and_then (collect_res f xs) (\<lambda>ys. Inr (y # ys)))"

text \<open>A \<^verbatim>\<open>for\<close> loop whose body can only fail.\<close>

fun for_each_res :: "('a \<Rightarrow> 'e + unit) \<Rightarrow> 'a list \<Rightarrow> 'e + unit" where
  "for_each_res f [] = Inr ()"
| "for_each_res f (x # xs) = and_then (f x) (\<lambda>_. for_each_res f xs)"

lemma and_then_simps [simp]:
  "and_then (Inl e) f = Inl e" "and_then (Inr x) f = f x"
  by (simp_all add: and_then_def)

lemma and_then_eq_Inr [res_simps]:
  "and_then r f = Inr y \<longleftrightarrow> (\<exists>x. r = Inr x \<and> f x = Inr y)"
  by (cases r) auto

lemma and_then_eq_Inl [res_simps]:
  "and_then r f = Inl e \<longleftrightarrow> r = Inl e \<or> (\<exists>x. r = Inr x \<and> f x = Inl e)"
  by (cases r) auto

lemma and_then_assoc: "and_then (and_then r f) g = and_then r (\<lambda>x. and_then (f x) g)"
  by (cases r) auto

lemma ensure_eq_Inr [res_simps]: "ensure c m = Inr u \<longleftrightarrow> c"
  by (simp add: ensure_def)

lemma ensure_eq_Inl [res_simps]: "ensure c m = Inl e \<longleftrightarrow> \<not> c \<and> e = [Msg m]"
  by (auto simp: ensure_def)

lemma ensure_True [simp]: "ensure True m = Inr ()"
  by (simp add: ensure_def)

lemma ensure_False [simp]: "ensure False m = Inl [Msg m]"
  by (simp add: ensure_def)

lemma bail_neq_Inr [res_simps]: "bail m = Inr x \<longleftrightarrow> False"
  by (simp add: bail_def)

lemma add_context_eq_Inr [res_simps]: "add_context m r = Inr x \<longleftrightarrow> r = Inr x"
  by (cases r) (auto simp: add_context_def)

lemma add_context_simps [simp]:
  "add_context m (Inl e) = Inl (Msg m # e)" "add_context m (Inr x) = Inr x"
  by (simp_all add: add_context_def)

lemma opt_context_eq_Inr [res_simps]: "opt_context m x = Inr v \<longleftrightarrow> x = Some v"
  by (cases x) (auto simp: opt_context_def)

lemma opt_context_simps [simp]:
  "opt_context m None = Inl [Msg m]" "opt_context m (Some v) = Inr v"
  by (simp_all add: opt_context_def)

lemma collect_res_Inr_iff:
  "collect_res f xs = Inr ys \<longleftrightarrow> list_all2 (\<lambda>x y. f x = Inr y) xs ys"
proof (induction xs arbitrary: ys)
  case Nil
  then show ?case by auto
next
  case (Cons x xs)
  then show ?case
    by (cases ys) (auto simp: and_then_eq_Inr)
qed

lemma for_each_res_Inr_iff [res_simps]:
  "for_each_res f xs = Inr u \<longleftrightarrow> (\<forall>x\<in>set xs. f x = Inr ())"
  by (induction xs) (auto simp: and_then_eq_Inr)

section \<open>Options and lists\<close>

definition or_else :: "'a option \<Rightarrow> 'a option \<Rightarrow> 'a option" where
  "or_else a b = (case a of None \<Rightarrow> b | Some x \<Rightarrow> Some x)"

definition unwrap_or :: "'a \<Rightarrow> 'a option \<Rightarrow> 'a" where
  "unwrap_or d a = (case a of None \<Rightarrow> d | Some x \<Rightarrow> x)"

definition opt_filter :: "('a \<Rightarrow> bool) \<Rightarrow> 'a option \<Rightarrow> 'a option" where
  "opt_filter P a = (case a of None \<Rightarrow> None | Some x \<Rightarrow> if P x then Some x else None)"

definition is_some_and :: "('a \<Rightarrow> bool) \<Rightarrow> 'a option \<Rightarrow> bool" where
  "is_some_and P a = (case a of None \<Rightarrow> False | Some x \<Rightarrow> P x)"

fun find_map :: "('a \<Rightarrow> 'b option) \<Rightarrow> 'a list \<Rightarrow> 'b option" where
  "find_map f [] = None"
| "find_map f (x # xs) = (case f x of None \<Rightarrow> find_map f xs | Some y \<Rightarrow> Some y)"

fun filter_map :: "('a \<Rightarrow> 'b option) \<Rightarrow> 'a list \<Rightarrow> 'b list" where
  "filter_map f [] = []"
| "filter_map f (x # xs) = (case f x of None \<Rightarrow> filter_map f xs | Some y \<Rightarrow> y # filter_map f xs)"

text \<open>\<^verbatim>\<open>Iterator::max_by_key\<close>: the last of the elements with the greatest key.\<close>

fun max_by_key :: "('a \<Rightarrow> 'k::linorder) \<Rightarrow> 'a list \<Rightarrow> 'a option" where
  "max_by_key k [] = None"
| "max_by_key k (x # xs) =
     (case max_by_key k xs of None \<Rightarrow> Some x | Some y \<Rightarrow> if k y < k x then Some x else Some y)"

lemma or_else_simps [simp]: "or_else None b = b" "or_else (Some x) b = Some x"
  by (simp_all add: or_else_def)

lemma or_else_None [simp]: "or_else a None = a"
  by (cases a) simp_all

lemma or_else_assoc: "or_else (or_else a b) c = or_else a (or_else b c)"
  by (cases a) simp_all

lemma or_else_eq_None [simp]: "or_else a b = None \<longleftrightarrow> a = None \<and> b = None"
  by (cases a) simp_all

lemma unwrap_or_simps [simp]: "unwrap_or d None = d" "unwrap_or d (Some x) = x"
  by (simp_all add: unwrap_or_def)

lemma opt_filter_simps [simp]:
  "opt_filter P None = None" "opt_filter P (Some x) = (if P x then Some x else None)"
  by (simp_all add: opt_filter_def)

lemma opt_filter_eq_Some: "opt_filter P a = Some x \<longleftrightarrow> a = Some x \<and> P x"
  by (cases a) auto

lemma is_some_and_simps [simp]: "is_some_and P None = False" "is_some_and P (Some x) = P x"
  by (simp_all add: is_some_and_def)

lemma is_some_and_iff: "is_some_and P a \<longleftrightarrow> (\<exists>x. a = Some x \<and> P x)"
  by (cases a) auto

lemma find_map_None: "find_map f xs = None \<longleftrightarrow> (\<forall>x\<in>set xs. f x = None)"
  by (induction xs) (auto split: option.splits)

lemma find_map_append:
  "find_map f (xs @ ys) = or_else (find_map f xs) (find_map f ys)"
  by (induction xs) (auto split: option.splits)

lemma find_map_Some:
  "find_map f xs = Some y \<longleftrightarrow>
     (\<exists>as x bs. xs = as @ x # bs \<and> (\<forall>a\<in>set as. f a = None) \<and> f x = Some y)"
proof
  assume "find_map f xs = Some y"
  then show "\<exists>as x bs. xs = as @ x # bs \<and> (\<forall>a\<in>set as. f a = None) \<and> f x = Some y"
  proof (induction xs)
    case Nil
    then show ?case by simp
  next
    case (Cons z zs)
    show ?case
    proof (cases "f z")
      case None
      with Cons obtain as x bs where "zs = as @ x # bs" "\<forall>a\<in>set as. f a = None" "f x = Some y"
        by auto
      with None show ?thesis by (intro exI [of _ "z # as"]) auto
    next
      case (Some w)
      with Cons.prems show ?thesis by (intro exI [of _ "[]"]) auto
    qed
  qed
next
  assume "\<exists>as x bs. xs = as @ x # bs \<and> (\<forall>a\<in>set as. f a = None) \<and> f x = Some y"
  then show "find_map f xs = Some y"
    by (auto simp: find_map_append find_map_None [THEN iffD2])
qed

lemma find_map_in: "find_map f xs = Some y \<Longrightarrow> \<exists>x\<in>set xs. f x = Some y"
  by (induction xs) (auto split: option.splits)

lemma max_by_key_None [simp]: "max_by_key k xs = None \<longleftrightarrow> xs = []"
  by (cases xs) (auto split: option.splits)

lemma max_by_key_Some:
  "max_by_key k xs = Some x \<Longrightarrow> x \<in> set xs \<and> (\<forall>y\<in>set xs. k y \<le> k x)"
proof (induction xs arbitrary: x)
  case Nil
  then show ?case by simp
next
  case (Cons z zs)
  then show ?case
    by (cases "max_by_key k zs") (force split: if_splits)+
qed

lemma max_by_key_cong:
  "(\<And>x. x \<in> set xs \<Longrightarrow> k x = k' x) \<Longrightarrow> max_by_key k xs = max_by_key k' xs"
proof (induction xs)
  case Nil
  then show ?case by simp
next
  case (Cons z zs)
  then have "max_by_key k zs = max_by_key k' zs" by simp
  moreover have "max_by_key k' zs = Some y \<Longrightarrow> y \<in> set zs" for y
    using max_by_key_Some [of k' zs y] by simp
  ultimately show ?case using Cons.prems by (auto split: option.splits)
qed

lemma max_by_key_map:
  "max_by_key k (map f xs) = map_option f (max_by_key (\<lambda>x. k (f x)) xs)"
  by (induction xs) (auto split: option.splits)

lemma find_Some_in: "find P xs = Some x \<Longrightarrow> x \<in> set xs \<and> P x"
  by (auto simp: find_Some_iff)

lemma max_by_key_last:
  "max_by_key k xs = Some x \<Longrightarrow> \<exists>us vs. xs = us @ x # vs \<and> (\<forall>y\<in>set us. k y \<le> k x) \<and> (\<forall>y\<in>set vs. k y < k x)"
proof (induction xs arbitrary: x)
  case Nil
  then show ?case by simp
next
  case (Cons z zs)
  show ?case
  proof (cases "max_by_key k zs")
    case None
    with Cons.prems show ?thesis by (intro exI [of _ "[]"] exI [of _ "[]"]) auto
  next
    case (Some y)
    show ?thesis
    proof (cases "k y < k z")
      case True
      with Cons.prems Some max_by_key_Some [OF Some] show ?thesis by (intro exI [of _ "[]"] exI [of _ zs]) auto
    next
      case False
      with Cons.prems Some have "x = y" by simp
      with Cons.IH [OF Some] obtain us vs where "zs = us @ x # vs" "\<forall>y\<in>set us. k y \<le> k x" "\<forall>y\<in>set vs. k y < k x"
        by blast
      with False \<open>x = y\<close> show ?thesis by (intro exI [of _ "z # us"] exI [of _ vs]) auto
    qed
  qed
qed

lemma filter_split:
  "filter P xs = us @ x # vs \<Longrightarrow> \<exists>us' vs'. xs = us' @ x # vs' \<and> filter P us' = us \<and> filter P vs' = vs"
proof (induction xs arbitrary: us)
  case Nil
  then show ?case by simp
next
  case (Cons z zs)
  show ?case
  proof (cases "P z \<and> us = []")
    case True
    with Cons.prems show ?thesis by (intro exI [of _ "[]"] exI [of _ zs]) simp
  next
    case False
    then obtain us0 where "filter P zs = us0 @ x # vs" "us = (if P z then [z] else []) @ us0"
      using Cons.prems by (cases us) (auto split: if_splits)
    moreover from Cons.IH [OF this(1)] obtain us' vs' where "zs = us' @ x # vs'" "filter P us' = us0" "filter P vs' = vs"
      by blast
    ultimately show ?thesis by (intro exI [of _ "z # us'"] exI [of _ vs']) simp
  qed
qed

end
