(* ===== verification/Rust_Str.thy ===== *)
theory Rust_Str
  imports Prelude
begin

text \<open>
  The functions of Rust's \<^verbatim>\<open>str\<close> and \<^verbatim>\<open>[u8]\<close> that the crates call, on byte sequences, with the
  lemmas that carry the component proofs: prefixes and suffixes, ASCII case, splitting and
  joining, lines, searching, UTF-8 validity, white space and decimal numbers. They model
  the language's standard library, so no source line of the repository is mapped here.
\<close>

section \<open>Bytes and ASCII\<close>

definition byte_val :: "byte \<Rightarrow> nat" where
  "byte_val c = of_char c"

definition is_ascii_digit :: "byte \<Rightarrow> bool" where
  "is_ascii_digit c \<longleftrightarrow> 48 \<le> byte_val c \<and> byte_val c \<le> 57"

definition is_ascii_alphanumeric :: "byte \<Rightarrow> bool" where
  "is_ascii_alphanumeric c \<longleftrightarrow>
     is_ascii_digit c \<or> (65 \<le> byte_val c \<and> byte_val c \<le> 90) \<or>
     (97 \<le> byte_val c \<and> byte_val c \<le> 122)"

definition to_lower_byte :: "byte \<Rightarrow> byte" where
  "to_lower_byte c =
     (if 65 \<le> byte_val c \<and> byte_val c \<le> 90 then char_of (byte_val c + 32) else c)"

definition to_ascii_lowercase :: "bytes \<Rightarrow> bytes" where
  "to_ascii_lowercase s = map to_lower_byte s"

definition eq_ignore_ascii_case :: "bytes \<Rightarrow> bytes \<Rightarrow> bool" where
  "eq_ignore_ascii_case a b \<longleftrightarrow> to_ascii_lowercase a = to_ascii_lowercase b"

lemma byte_val_less [simp]: "byte_val c < 256"
  by (simp add: byte_val_def)

lemma byte_val_inject [simp]: "byte_val a = byte_val b \<longleftrightarrow> a = b"
  by (simp add: byte_val_def)

lemma byte_val_char_of: "n < 256 \<Longrightarrow> byte_val (char_of n) = n"
  by (simp add: byte_val_def)

lemma to_lower_byte_val:
  "byte_val (to_lower_byte c) =
     (if 65 \<le> byte_val c \<and> byte_val c \<le> 90 then byte_val c + 32 else byte_val c)"
  by (simp add: to_lower_byte_def byte_val_char_of)

lemma to_lower_byte_idem [simp]: "to_lower_byte (to_lower_byte c) = to_lower_byte c"
  unfolding byte_val_inject [symmetric] by (simp add: to_lower_byte_val)

lemma to_ascii_lowercase_idem [simp]:
  "to_ascii_lowercase (to_ascii_lowercase s) = to_ascii_lowercase s"
  by (simp add: to_ascii_lowercase_def)

lemma length_to_ascii_lowercase [simp]: "length (to_ascii_lowercase s) = length s"
  by (simp add: to_ascii_lowercase_def)

lemma to_ascii_lowercase_simps [simp]:
  "to_ascii_lowercase [] = []"
  "to_ascii_lowercase (c # s) = to_lower_byte c # to_ascii_lowercase s"
  "to_ascii_lowercase (s @ t) = to_ascii_lowercase s @ to_ascii_lowercase t"
  by (simp_all add: to_ascii_lowercase_def)

lemma eq_ignore_ascii_case_refl [simp]: "eq_ignore_ascii_case a a"
  by (simp add: eq_ignore_ascii_case_def)

lemma eq_ignore_ascii_case_sym: "eq_ignore_ascii_case a b \<Longrightarrow> eq_ignore_ascii_case b a"
  by (simp add: eq_ignore_ascii_case_def)

lemma eq_ignore_ascii_case_trans:
  "eq_ignore_ascii_case a b \<Longrightarrow> eq_ignore_ascii_case b c \<Longrightarrow> eq_ignore_ascii_case a c"
  by (simp add: eq_ignore_ascii_case_def)

lemma eq_ignore_ascii_case_length: "eq_ignore_ascii_case a b \<Longrightarrow> length a = length b"
  unfolding eq_ignore_ascii_case_def by (metis length_to_ascii_lowercase)

section \<open>Prefixes and suffixes\<close>

fun strip_prefix :: "'a list \<Rightarrow> 'a list \<Rightarrow> 'a list option" where
  "strip_prefix [] s = Some s"
| "strip_prefix (p # ps) [] = None"
| "strip_prefix (p # ps) (c # s) = (if p = c then strip_prefix ps s else None)"

definition strip_suffix :: "'a list \<Rightarrow> 'a list \<Rightarrow> 'a list option" where
  "strip_suffix p s = map_option rev (strip_prefix (rev p) (rev s))"

definition starts_with :: "'a list \<Rightarrow> 'a list \<Rightarrow> bool" where
  "starts_with p s \<longleftrightarrow> strip_prefix p s \<noteq> None"

definition ends_with :: "'a list \<Rightarrow> 'a list \<Rightarrow> bool" where
  "ends_with p s \<longleftrightarrow> strip_suffix p s \<noteq> None"

lemma strip_prefix_Some [simp]: "strip_prefix p s = Some r \<longleftrightarrow> s = p @ r"
  by (induction p s rule: strip_prefix.induct) auto

lemma strip_prefix_append [simp]: "strip_prefix p (p @ r) = Some r"
  by simp

lemma strip_suffix_Some [simp]: "strip_suffix p s = Some r \<longleftrightarrow> s = r @ p"
  by (auto simp: strip_suffix_def) (metis rev_append rev_rev_ident)

lemma starts_with_iff: "starts_with p s \<longleftrightarrow> (\<exists>r. s = p @ r)"
  by (simp add: starts_with_def)

lemma ends_with_iff: "ends_with p s \<longleftrightarrow> (\<exists>r. s = r @ p)"
  by (simp add: ends_with_def)

lemma starts_with_Nil [simp]: "starts_with [] s"
  by (simp add: starts_with_iff)

lemma starts_with_single [simp]: "starts_with [c] s \<longleftrightarrow> (\<exists>r. s = c # r)"
  by (simp add: starts_with_iff)

lemma starts_with_append [simp]: "starts_with p (p @ s)"
  by (simp add: starts_with_iff)

lemma starts_with_trans: "starts_with p q \<Longrightarrow> starts_with q s \<Longrightarrow> starts_with p s"
  by (auto simp: starts_with_iff)

lemma starts_with_length: "starts_with p s \<Longrightarrow> length p \<le> length s"
  by (auto simp: starts_with_iff)

section \<open>Trimming by a byte\<close>

definition trim_end_while :: "('a \<Rightarrow> bool) \<Rightarrow> 'a list \<Rightarrow> 'a list" where
  "trim_end_while P s = rev (dropWhile P (rev s))"

definition trim_end_matches :: "byte \<Rightarrow> bytes \<Rightarrow> bytes" where
  "trim_end_matches c s = trim_end_while (\<lambda>x. x = c) s"

lemma trim_end_while_Nil [simp]: "trim_end_while P [] = []"
  by (simp add: trim_end_while_def)

lemma trim_end_while_snoc [simp]:
  "trim_end_while P (s @ [c]) = (if P c then trim_end_while P s else s @ [c])"
  by (simp add: trim_end_while_def)

lemma trim_end_while_id: "s = [] \<or> \<not> P (last s) \<Longrightarrow> trim_end_while P s = s"
  by (cases s rule: rev_cases) auto

lemma trim_end_while_last: "trim_end_while P s = [] \<or> \<not> P (last (trim_end_while P s))"
  by (induction s rule: rev_induct) auto

lemma trim_end_while_decomp:
  "\<exists>t. s = trim_end_while P s @ t \<and> (\<forall>c\<in>set t. P c)"
proof (induction s rule: rev_induct)
  case Nil
  then show ?case by simp
next
  case (snoc c s)
  show ?case
  proof (cases "P c")
    case True
    from snoc obtain t where "s = trim_end_while P s @ t" "\<forall>c\<in>set t. P c" by blast
    then have "s @ [c] = trim_end_while P s @ (t @ [c])" "\<forall>x\<in>set (t @ [c]). P x"
      using True by (metis append.assoc) (use True \<open>\<forall>c\<in>set t. P c\<close> in auto)
    with True show ?thesis by (intro exI [of _ "t @ [c]"]) simp
  next
    case False
    then show ?thesis by simp
  qed
qed

lemma length_trim_end_while: "length (trim_end_while P s) \<le> length s"
  using trim_end_while_decomp [of s P] by (metis length_append le_add1)

section \<open>Splitting and joining\<close>

text \<open>\<^verbatim>\<open>str::split(char)\<close>: never empty; the pieces contain no separator.\<close>

fun split_on :: "'a \<Rightarrow> 'a list \<Rightarrow> 'a list list" where
  "split_on c [] = [[]]"
| "split_on c (x # xs) =
     (if x = c then [] # split_on c xs
      else (case split_on c xs of [] \<Rightarrow> [[x]] | p # ps \<Rightarrow> (x # p) # ps))"

fun join_with :: "'a list \<Rightarrow> 'a list list \<Rightarrow> 'a list" where
  "join_with sep [] = []"
| "join_with sep [x] = x"
| "join_with sep (x # y # ys) = x @ sep @ join_with sep (y # ys)"

fun split_once :: "'a \<Rightarrow> 'a list \<Rightarrow> ('a list \<times> 'a list) option" where
  "split_once c [] = None"
| "split_once c (x # xs) =
     (if x = c then Some ([], xs) else map_option (\<lambda>(a, b). (x # a, b)) (split_once c xs))"

lemma split_on_neq_Nil [simp]: "split_on c s \<noteq> []"
  by (induction s) (auto split: list.splits)

lemma split_on_pieces: "p \<in> set (split_on c s) \<Longrightarrow> c \<notin> set p"
proof (induction s arbitrary: p)
  case Nil
  then show ?case by simp
next
  case (Cons x xs)
  then show ?case by (cases "split_on c xs") (auto split: if_splits)
qed

lemma join_with_Cons: "ys \<noteq> [] \<Longrightarrow> join_with sep (x # ys) = x @ sep @ join_with sep ys"
  by (cases ys) auto

lemma join_split: "join_with [c] (split_on c s) = s"
proof (induction s)
  case Nil
  then show ?case by simp
next
  case (Cons x xs)
  obtain p ps where s: "split_on c xs = p # ps" by (meson neq_Nil_conv split_on_neq_Nil)
  with Cons show ?case by (cases ps) (auto simp: join_with_Cons)
qed

lemma split_on_no_sep: "c \<notin> set s \<Longrightarrow> split_on c s = [s]"
  by (induction s) auto

lemma split_on_append_sep:
  "c \<notin> set s \<Longrightarrow> split_on c (s @ c # t) = s # split_on c t"
  by (induction s) auto

lemma split_join:
  "xs \<noteq> [] \<Longrightarrow> (\<And>x. x \<in> set xs \<Longrightarrow> c \<notin> set x) \<Longrightarrow> split_on c (join_with [c] xs) = xs"
proof (induction xs)
  case Nil
  then show ?case by simp
next
  case (Cons x xs)
  show ?case
  proof (cases xs)
    case Nil
    with Cons.prems show ?thesis by (simp add: split_on_no_sep)
  next
    case (Cons y ys)
    then have "split_on c (join_with [c] xs) = xs" using Cons.IH Cons.prems by auto
    with Cons Cons.prems show ?thesis
      by (simp add: join_with_Cons split_on_append_sep)
  qed
qed

lemma split_on_map_sep:
  "(\<And>x. f x = c \<longleftrightarrow> x = c) \<Longrightarrow> split_on c (map f s) = map (map f) (split_on c s)"
  by (induction s) (auto split: list.splits)

lemma split_once_Some [simp]:
  "split_once c s = Some (a, b) \<longleftrightarrow> s = a @ c # b \<and> c \<notin> set a"
proof (induction s arbitrary: a)
  case Nil
  then show ?case by simp
next
  case (Cons x xs)
  then show ?case by (cases a) auto
qed

lemma split_once_None [simp]: "split_once c s = None \<longleftrightarrow> c \<notin> set s"
  by (induction s) auto

text \<open>\<^verbatim>\<open>str::lines\<close>: lines end at \<open>\n\<close> or \<open>\r\n\<close>; the final line ending is optional.\<close>

definition strip_cr :: "bytes \<Rightarrow> bytes" where
  "strip_cr s = unwrap_or s (strip_suffix [CHR 0x0D] s)"

fun lines_of :: "bytes list \<Rightarrow> bytes list" where
  "lines_of [] = []"
| "lines_of [l] = (if l = [] then [] else [l])"
| "lines_of (l # m # ls) = strip_cr l # lines_of (m # ls)"

definition str_lines :: "bytes \<Rightarrow> bytes list" where
  "str_lines s = lines_of (split_on (CHR 0x0A) s)"

section \<open>Searching\<close>

text \<open>\<^verbatim>\<open>s.windows(p.len()).position(|w| w == p)\<close> for a non-empty \<open>p\<close>.\<close>

fun find_window :: "'a list \<Rightarrow> 'a list \<Rightarrow> nat option" where
  "find_window p [] = (if p = [] then Some 0 else None)"
| "find_window p (x # xs) =
     (if starts_with p (x # xs) then Some 0 else map_option Suc (find_window p xs))"

lemma find_window_Some:
  "find_window p s = Some i \<Longrightarrow> \<exists>u v. s = u @ p @ v \<and> length u = i"
proof (induction s arbitrary: i)
  case Nil
  then show ?case by (auto split: if_splits)
next
  case (Cons x xs)
  show ?case
  proof (cases "starts_with p (x # xs)")
    case True
    with Cons.prems show ?thesis by (auto simp: starts_with_iff)
  next
    case False
    with Cons.prems obtain j where j: "find_window p xs = Some j" "i = Suc j" by auto
    with Cons.IH obtain u v where "xs = u @ p @ v" "length u = j" by blast
    with j show ?thesis by (intro exI [of _ "x # u"] exI [of _ v]) simp
  qed
qed

lemma find_window_exists: "\<exists>i. find_window p (u @ p @ v) = Some i \<and> i \<le> length u"
proof (induction u)
  case Nil
  have "starts_with p (p @ v)" by simp
  then show ?case by (cases "p @ v") auto
next
  case (Cons x u)
  then obtain i where "find_window p (u @ p @ v) = Some i" "i \<le> length u" by blast
  then show ?case by auto
qed

lemma find_window_None: "find_window p s = None \<longleftrightarrow> (\<nexists>u v. s = u @ p @ v)"
  using find_window_Some find_window_exists by (metis not_Some_eq option.distinct(1))

section \<open>UTF-8\<close>

text \<open>\<^verbatim>\<open>std::str::from_utf8\<close>: the well-formed sequences of the Unicode standard (no overlong
  forms, no surrogates, nothing above U+10FFFF).\<close>

definition in_range :: "nat \<Rightarrow> nat \<Rightarrow> byte \<Rightarrow> bool" where
  "in_range lo hi c \<longleftrightarrow> lo \<le> byte_val c \<and> byte_val c \<le> hi"

abbreviation utf8_cont :: "byte \<Rightarrow> bool" where
  "utf8_cont \<equiv> in_range 0x80 0xBF"

text \<open>The number of bytes of the first character, or \<open>None\<close> when the bytes start no
  well-formed character.\<close>

definition utf8_head :: "bytes \<Rightarrow> nat option" where
  "utf8_head s = (case s of
      a # r \<Rightarrow>
        if in_range 0x00 0x7F a then Some 1 else (case r of
          b # r2 \<Rightarrow>
            if in_range 0xC2 0xDF a \<and> utf8_cont b then Some 2 else (case r2 of
              c # r3 \<Rightarrow>
                if (in_range 0xE0 0xE0 a \<and> in_range 0xA0 0xBF b \<or>
                    in_range 0xE1 0xEC a \<and> utf8_cont b \<or>
                    in_range 0xED 0xED a \<and> in_range 0x80 0x9F b \<or>
                    in_range 0xEE 0xEF a \<and> utf8_cont b) \<and> utf8_cont c
                then Some 3 else (case r3 of
                  d # _ \<Rightarrow>
                    if (in_range 0xF0 0xF0 a \<and> in_range 0x90 0xBF b \<or>
                        in_range 0xF1 0xF3 a \<and> utf8_cont b \<or>
                        in_range 0xF4 0xF4 a \<and> in_range 0x80 0x8F b) \<and>
                       utf8_cont c \<and> utf8_cont d
                    then Some 4 else None
                | [] \<Rightarrow> None)
            | [] \<Rightarrow> None)
        | [] \<Rightarrow> None)
    | [] \<Rightarrow> None)"

lemma utf8_head_pos: "utf8_head s = Some n \<Longrightarrow> 0 < n \<and> s \<noteq> []"
  by (auto simp: utf8_head_def split: list.splits if_splits)

function valid_utf8 :: "bytes \<Rightarrow> bool" where
  "valid_utf8 s =
     (s = [] \<or> (case utf8_head s of None \<Rightarrow> False | Some n \<Rightarrow> valid_utf8 (drop n s)))"
  by pat_completeness auto
termination
  by (relation "measure length") (auto dest!: utf8_head_pos)

declare valid_utf8.simps [simp del]

abbreviation is_ascii :: "bytes \<Rightarrow> bool" where
  "is_ascii s \<equiv> (\<forall>c\<in>set s. byte_val c < 128)"

lemma valid_utf8_ascii: "is_ascii s \<Longrightarrow> valid_utf8 s"
proof (induction s)
  case Nil
  show ?case by (simp add: valid_utf8.simps)
next
  case (Cons c s)
  then have "utf8_head (c # s) = Some 1"
    by (auto simp: utf8_head_def in_range_def)
  with Cons show ?case by (simp add: valid_utf8.simps [of "c # s"])
qed

section \<open>White space\<close>

text \<open>The UTF-8 encodings of the characters with the Unicode property \<^verbatim>\<open>White_Space\<close>.\<close>

definition whitespace_chars :: "bytes list" where
  "whitespace_chars =
     [[CHR 0x20], [CHR 0x09], [CHR 0x0A], [CHR 0x0B], [CHR 0x0C], [CHR 0x0D],
      [CHR 0xC2, CHR 0x85], [CHR 0xC2, CHR 0xA0], [CHR 0xE1, CHR 0x9A, CHR 0x80],
      [CHR 0xE2, CHR 0x80, CHR 0x80], [CHR 0xE2, CHR 0x80, CHR 0x81],
      [CHR 0xE2, CHR 0x80, CHR 0x82], [CHR 0xE2, CHR 0x80, CHR 0x83],
      [CHR 0xE2, CHR 0x80, CHR 0x84], [CHR 0xE2, CHR 0x80, CHR 0x85],
      [CHR 0xE2, CHR 0x80, CHR 0x86], [CHR 0xE2, CHR 0x80, CHR 0x87],
      [CHR 0xE2, CHR 0x80, CHR 0x88], [CHR 0xE2, CHR 0x80, CHR 0x89],
      [CHR 0xE2, CHR 0x80, CHR 0x8A], [CHR 0xE2, CHR 0x80, CHR 0xA8],
      [CHR 0xE2, CHR 0x80, CHR 0xA9], [CHR 0xE2, CHR 0x80, CHR 0xAF],
      [CHR 0xE2, CHR 0x81, CHR 0x9F], [CHR 0xE3, CHR 0x80, CHR 0x80]]"

lemma whitespace_nonempty: "w \<in> set whitespace_chars \<Longrightarrow> w \<noteq> []"
  by (auto simp: whitespace_chars_def)

function trim_start :: "bytes \<Rightarrow> bytes" where
  "trim_start s =
     (case find_map (\<lambda>w. strip_prefix w s) whitespace_chars of
        None \<Rightarrow> s | Some r \<Rightarrow> trim_start r)"
  by pat_completeness auto
termination
proof (relation "measure length", goal_cases)
  case 1
  show ?case by simp
next
  case (2 s r)
  then obtain w where "w \<in> set whitespace_chars" "s = w @ r"
    by (auto dest: find_map_in)
  then show ?case by (auto dest: whitespace_nonempty)
qed

function trim_end :: "bytes \<Rightarrow> bytes" where
  "trim_end s =
     (case find_map (\<lambda>w. strip_suffix w s) whitespace_chars of
        None \<Rightarrow> s | Some r \<Rightarrow> trim_end r)"
  by pat_completeness auto
termination
proof (relation "measure length", goal_cases)
  case 1
  show ?case by simp
next
  case (2 s r)
  then obtain w where "w \<in> set whitespace_chars" "s = r @ w"
    by (auto dest: find_map_in)
  then show ?case by (auto dest: whitespace_nonempty)
qed

declare trim_start.simps [simp del] trim_end.simps [simp del]

definition trim :: "bytes \<Rightarrow> bytes" where
  "trim s = trim_end (trim_start s)"

abbreviation blank :: "bytes \<Rightarrow> bool" where
  "blank s \<equiv> trim s = []"

lemma trim_start_suffix: "\<exists>w. s = w @ trim_start s"
proof (induction s rule: trim_start.induct)
  case (1 s)
  show ?case
  proof (cases "find_map (\<lambda>w. strip_prefix w s) whitespace_chars")
    case None
    then show ?thesis by (simp add: trim_start.simps [of s])
  next
    case (Some r)
    then obtain w where w: "s = w @ r" by (auto dest: find_map_in)
    from 1 Some obtain w' where "r = w' @ trim_start r" by blast
    moreover from Some have "trim_start s = trim_start r"
      by (subst trim_start.simps) simp
    ultimately show ?thesis using w by (metis append.assoc)
  qed
qed

lemma trim_end_prefix: "\<exists>w. s = trim_end s @ w"
proof (induction s rule: trim_end.induct)
  case (1 s)
  show ?case
  proof (cases "find_map (\<lambda>w. strip_suffix w s) whitespace_chars")
    case None
    then show ?thesis by (simp add: trim_end.simps [of s])
  next
    case (Some r)
    then obtain w where w: "s = r @ w" by (auto dest: find_map_in)
    from 1 Some obtain w' where "r = trim_end r @ w'" by blast
    then have "s = trim_end r @ (w' @ w)" using w by (metis append.assoc)
    moreover from Some have "trim_end s = trim_end r"
      by (subst trim_end.simps) simp
    ultimately show ?thesis by metis
  qed
qed

lemma trim_factor: "\<exists>u v. s = u @ trim s @ v"
  unfolding trim_def by (metis append.assoc trim_end_prefix trim_start_suffix)

lemma set_trim: "set (trim s) \<subseteq> set s"
  using trim_factor [of s] by (metis Un_iff set_append subsetI)

lemma length_trim: "length (trim s) \<le> length s"
  using trim_factor [of s] by (metis length_append le_add1 le_add2 le_trans)

lemma trim_Nil [simp]: "trim [] = []"
  using length_trim [of "[]"] by simp

text \<open>A string whose first and last bytes are printable ASCII is left alone.\<close>

lemma whitespace_head: "w \<in> set whitespace_chars \<Longrightarrow> \<not> in_range 0x21 0x7E (hd w)"
  by (auto simp: whitespace_chars_def in_range_def byte_val_def)

lemma whitespace_last: "w \<in> set whitespace_chars \<Longrightarrow> \<not> in_range 0x21 0x7E (last w)"
  by (auto simp: whitespace_chars_def in_range_def byte_val_def)

lemma trim_start_id: "in_range 0x21 0x7E c \<Longrightarrow> trim_start (c # s) = c # s"
proof -
  assume c: "in_range 0x21 0x7E c"
  have "strip_prefix w (c # s) = None" if "w \<in> set whitespace_chars" for w
    using whitespace_head [OF that] whitespace_nonempty [OF that] c by (cases w) auto
  then have "find_map (\<lambda>w. strip_prefix w (c # s)) whitespace_chars = None"
    by (simp add: find_map_None)
  then show ?thesis by (simp add: trim_start.simps)
qed

lemma trim_end_id: "in_range 0x21 0x7E c \<Longrightarrow> trim_end (s @ [c]) = s @ [c]"
proof -
  assume c: "in_range 0x21 0x7E c"
  have "strip_suffix w (s @ [c]) = None" if "w \<in> set whitespace_chars" for w
  proof (rule ccontr)
    assume "strip_suffix w (s @ [c]) \<noteq> None"
    then obtain r where "s @ [c] = r @ w" by auto
    then have "last w = c" using whitespace_nonempty [OF that]
      by (metis last_appendR last_snoc)
    with c whitespace_last [OF that] show False by simp
  qed
  then have "find_map (\<lambda>w. strip_suffix w (s @ [c])) whitespace_chars = None"
    by (simp add: find_map_None)
  then show ?thesis by (simp add: trim_end.simps)
qed

lemma trim_id:
  "s \<noteq> [] \<Longrightarrow> in_range 0x21 0x7E (hd s) \<Longrightarrow> in_range 0x21 0x7E (last s) \<Longrightarrow> trim s = s"
  unfolding trim_def
  by (metis append_butlast_last_id list.collapse trim_end_id trim_start_id)

section \<open>Decimal numbers\<close>

definition digit_char :: "nat \<Rightarrow> char" where
  "digit_char d = char_of (48 + d)"

fun show_nat :: "nat \<Rightarrow> string" where
  "show_nat n = (if n < 10 then [digit_char n] else show_nat (n div 10) @ [digit_char (n mod 10)])"

declare show_nat.simps [simp del]

end
