(* ===== verification/Serde.thy ===== *)
theory Serde
  imports Rust_Str "HOL-Library.Countable"
begin

text \<open>
  The data model of \<^verbatim>\<open>serde\<close>: what a JSON or TOML document is once its text has been read, and
  the rules by which \<^verbatim>\<open>#[derive(Serialize, Deserialize)]\<close> turns a struct into such a tree
  and back. The structs of the repository and their attributes (\<^verbatim>\<open>default\<close>, \<^verbatim>\<open>rename\<close>) are
  written with these combinators in the theories of their components. The text layer
  (\<^verbatim>\<open>serde_json\<close>, \<^verbatim>\<open>toml\<close>) is third-party code and stays a parameter where it is used.
\<close>

datatype sval =
    SNull
  | SBool bool
  | SInt int
  | SFloat string
  | SStr string
  | SSeq "sval list"
  | SMap "(string \<times> sval) list"

instance sval :: countable
  by countable_datatype

type_synonym 'a decoder = "sval \<Rightarrow> 'a res"

definition serde_error :: "string \<Rightarrow> 'a res" where
  "serde_error m = Inl [Ext_cause m]"

lemma serde_error_neq_Inr [res_simps]: "serde_error m = Inr x \<longleftrightarrow> False"
  by (simp add: serde_error_def)

section \<open>Scalars and containers\<close>

fun de_string :: "string decoder" where
  "de_string (SStr s) = Inr s"
| "de_string _ = serde_error ''invalid type: expected a string''"

fun de_bool :: "bool decoder" where
  "de_bool (SBool b) = Inr b"
| "de_bool _ = serde_error ''invalid type: expected a boolean''"

fun de_word :: "('a::len) word decoder" where
  "de_word (SInt i) =
     (if 0 \<le> i \<and> i < 2 ^ LENGTH('a) then Inr (word_of_int i)
      else serde_error ''invalid value: integer out of range'')"
| "de_word _ = serde_error ''invalid type: expected an unsigned integer''"

fun de_i64 :: "int decoder" where
  "de_i64 (SInt i) =
     (if - (2 ^ 63) \<le> i \<and> i < 2 ^ 63 then Inr i
      else serde_error ''invalid value: integer out of range'')"
| "de_i64 _ = serde_error ''invalid type: expected i64''"

definition de_option :: "'a decoder \<Rightarrow> 'a option decoder" where
  "de_option d v = (case v of SNull \<Rightarrow> Inr None | _ \<Rightarrow> and_then (d v) (\<lambda>x. Inr (Some x)))"

fun de_vec :: "'a decoder \<Rightarrow> 'a list decoder" where
  "de_vec d (SSeq vs) = collect_res d vs"
| "de_vec d _ = serde_error ''invalid type: expected a sequence''"

definition ser_option :: "('a \<Rightarrow> sval) \<Rightarrow> 'a option \<Rightarrow> sval" where
  "ser_option f x = (case x of None \<Rightarrow> SNull | Some v \<Rightarrow> f v)"

definition ser_word :: "('a::len) word \<Rightarrow> sval" where
  "ser_word w = SInt (uint w)"

section \<open>Structs\<close>

text \<open>
  A derived \<^verbatim>\<open>Deserialize\<close> reads a map by field name, in any order, ignoring unknown keys and
  refusing a repeated one, or a sequence by position, where every field without
  \<^verbatim>\<open>#[serde(default)]\<close> must be present. \<open>struct_fields\<close> brings both to a map; its first
  argument lists the fields in their order with whether they have a default.
\<close>

definition struct_fields ::
    "(string \<times> bool) list \<Rightarrow> sval \<Rightarrow> (string \<times> sval) list res" where
  "struct_fields fs v = (case v of
      SMap m \<Rightarrow>
        if (\<exists>f\<in>set fs. 1 < length (filter (\<lambda>e. fst e = fst f) m))
        then serde_error ''duplicate field'' else Inr m
    | SSeq xs \<Rightarrow>
        if length fs < length xs then serde_error ''trailing characters''
        else if (\<exists>f\<in>set (drop (length xs) fs). \<not> snd f) then serde_error ''invalid length''
        else Inr (zip (map fst fs) xs)
    | _ \<Rightarrow> serde_error ''invalid type: expected a struct'')"

definition req_field :: "string \<Rightarrow> 'a decoder \<Rightarrow> (string \<times> sval) list \<Rightarrow> 'a res" where
  "req_field n d m = (case map_of m n of
      None \<Rightarrow> serde_error (''missing field '' @ n) | Some v \<Rightarrow> d v)"

definition default_field :: "string \<Rightarrow> 'a \<Rightarrow> 'a decoder \<Rightarrow> (string \<times> sval) list \<Rightarrow> 'a res" where
  "default_field n x d m = (case map_of m n of None \<Rightarrow> Inr x | Some v \<Rightarrow> d v)"

definition opt_field :: "string \<Rightarrow> 'a decoder \<Rightarrow> (string \<times> sval) list \<Rightarrow> 'a option res" where
  "opt_field n d m = default_field n None (de_option d) m"

lemmas field_defs = req_field_def opt_field_def default_field_def de_option_def

section \<open>Round trips of the scalars\<close>

lemma de_word_ser [simp]: "de_word (ser_word w) = Inr (w :: 'a::len word)"
proof -
  have "0 \<le> uint w" "uint w < 2 ^ LENGTH('a)"
    using uint_lt2p [of w] by simp_all
  then show ?thesis by (simp add: ser_word_def)
qed

lemma de_option_ser [simp]:
  "(\<And>v. x = Some v \<Longrightarrow> d (f v) = Inr v \<and> f v \<noteq> SNull) \<Longrightarrow> de_option d (ser_option f x) = Inr x"
  by (cases x) (auto simp: de_option_def ser_option_def split: sval.splits)

lemma de_word_bound: "de_word (SInt i) = Inr (w :: 'a::len word) \<Longrightarrow> uint w = i"
  by (auto simp: serde_error_def uint_word_of_int take_bit_int_eq_self split: if_splits)

end
