(* ===== verification/Config_Types.thy ===== *)
theory Config_Types
  imports Serde
begin

text \<open>
  The data model of the configuration (\<^verbatim>\<open>shared/src/config.rs\<close>): the structs as records
  (each field is the source's name behind a prefix naming the struct), the typed defaults,
  and the derived \<^verbatim>\<open>Deserialize\<close> of each struct with the attributes of the source. An enum
  with \<^verbatim>\<open>rename_all = "lowercase"\<close> is read from its lower-case name.
\<close>

datatype relay_mode = Auto | Buffered | Splice

datatype role_match = Any | All

section \<open>Structs\<close>

record central_client_bootstrap =
  cb_control_plane_url :: string
  cb_control_plane_config :: bool
  cb_username :: "string option"
  cb_client_secret_file :: "string option"


record sni_passthrough_route =
  sp_hostname :: string
  sp_backend_addr :: string


record ingress_config =
  ic_public_listen :: string
  ic_data_listen :: string
  ic_advertised_data_addr :: "string option"
  ic_nats_url :: string
  ic_nats_token_file :: "string option"
  ic_relay_mode :: relay_mode
  ic_request_subject :: string
  ic_domain_subject_routing :: bool
  ic_claim_timeout_ms :: u64
  ic_pending_timeout_ms :: u64
  ic_ingress_handshake_timeout_ms :: u64
  ic_callback_handshake_timeout_ms :: u64
  ic_max_ingress_connections :: usize
  ic_max_callback_handshakes :: usize
  ic_sni_passthrough_routes :: "sni_passthrough_route list"


record ingress_overrides =
  io_public_listen :: "string option"
  io_data_listen :: "string option"
  io_advertised_data_addr :: "string option"
  io_nats_url :: "string option"
  io_nats_token_file :: "string option"
  io_relay_mode :: "relay_mode option"
  io_request_subject :: "string option"
  io_domain_subject_routing :: "bool option"
  io_claim_timeout_ms :: "u64 option"
  io_pending_timeout_ms :: "u64 option"
  io_ingress_handshake_timeout_ms :: "u64 option"
  io_callback_handshake_timeout_ms :: "u64 option"
  io_max_ingress_connections :: "usize option"
  io_max_callback_handshakes :: "usize option"


record client_authorization_config =
  az_bearer :: "bool option"
  az_oidc :: "bool option"
  az_issuer :: string
  az_audiences :: "string list"
  az_jwks_uri :: "string option"
  az_jwks_cache_file :: string
  az_roles_claim :: string
  az_required_roles :: "string list"
  az_forward_authorization :: bool
  az_role_match :: role_match
  az_algorithms :: "string list"
  az_leeway_seconds :: u64
  az_jwks_refresh_seconds :: u64
  az_jwks_max_stale_seconds :: u64
  az_header_timeout_ms :: u64
  az_max_header_bytes :: usize
  az_oidc_client_id :: "string option"
  az_oidc_client_secret_file :: "string option"
  az_oidc_scopes :: "string list"
  az_oidc_callback_path :: string
  az_oidc_logout_path :: string
  az_oidc_session_key_file :: string
  az_oidc_session_ttl_seconds :: u64


record client_oauth_config =
  oa_token_url :: string
  oa_provider_client_id :: string
  oa_username :: string
  oa_client_secret_file :: string
  oa_control_plane_url :: string
  oa_hostname :: string
  oa_scopes :: "string list"
  oa_renew_before_seconds :: u64


record client_acme_config =
  ac_domain :: string
  ac_contacts :: "string list"
  ac_cache_dir :: string
  ac_production :: bool
  ac_directory_url :: "string option"


record backend_rule =
  br_pattern :: string
  br_path_prefix :: "string option"
  br_strip_path_prefix :: bool
  br_proxy_headers :: bool
  br_backend_addr :: string
  br_backend_host :: "string option"
  br_http_backend_addr :: "string option"
  br_authorization :: "client_authorization_config option"


record client_config =
  cl_client_id :: string
  cl_nats_url :: string
  cl_nats_token_file :: "string option"
  cl_oauth :: "client_oauth_config option"
  cl_acme :: "client_acme_config option"
  cl_authorization :: "client_authorization_config option"
  cl_tcp_passthrough :: bool
  cl_relay_mode :: relay_mode
  cl_request_subject :: string
  cl_claim_ack_timeout_ms :: u64
  cl_backend_rules :: "backend_rule list"


record client_overrides =
  co_client_id :: "string option"
  co_nats_url :: "string option"
  co_nats_token_file :: "string option"
  co_relay_mode :: "relay_mode option"
  co_request_subject :: "string option"
  co_claim_ack_timeout_ms :: "u64 option"


record client_authorization_defaults =
  ad_enabled :: "bool option"
  ad_bearer :: "bool option"
  ad_oidc :: "bool option"
  ad_issuer :: "string option"
  ad_audiences :: "string list option"
  ad_jwks_uri :: "string option"
  ad_jwks_cache_file :: "string option"
  ad_roles_claim :: "string option"
  ad_required_roles :: "string list option"
  ad_forward_authorization :: "bool option"
  ad_role_match :: "role_match option"
  ad_algorithms :: "string list option"
  ad_leeway_seconds :: "u64 option"
  ad_jwks_refresh_seconds :: "u64 option"
  ad_jwks_max_stale_seconds :: "u64 option"
  ad_header_timeout_ms :: "u64 option"
  ad_max_header_bytes :: "usize option"
  ad_oidc_client_id :: "string option"
  ad_oidc_client_secret_file :: "string option"
  ad_oidc_scopes :: "string list option"
  ad_oidc_callback_path :: "string option"
  ad_oidc_logout_path :: "string option"
  ad_oidc_session_key_file :: "string option"
  ad_oidc_session_ttl_seconds :: "u64 option"


record client_oauth_defaults =
  od_token_url :: "string option"
  od_provider_client_id :: "string option"
  od_username :: "string option"
  od_client_secret_file :: "string option"
  od_control_plane_url :: "string option"
  od_scopes :: "string list option"
  od_renew_before_seconds :: "u64 option"


record client_acme_defaults =
  cd_enabled :: "bool option"
  cd_contacts :: "string list option"
  cd_cache_dir :: "string option"
  cd_production :: "bool option"
  cd_directory_url :: "string option"


record client_config_defaults =
  df_nats_url :: "string option"
  df_nats_token_file :: "string option"
  df_oauth :: "client_oauth_defaults option"
  df_acme :: "client_acme_defaults option"
  df_authorization :: "client_authorization_defaults option"
  df_tcp_passthrough :: "bool option"
  df_relay_mode :: "relay_mode option"
  df_request_subject :: "string option"
  df_claim_ack_timeout_ms :: "u64 option"
  df_backend_addr :: "string option"
  df_backend_host :: "string option"
  df_http_backend_addr :: "string option"
  df_proxy_headers :: "bool option"


record client_path_route_config =
  pr_path_prefix :: string
  pr_backend_addr :: string
  pr_backend_host :: "string option"
  pr_strip_path_prefix :: bool
  pr_proxy_headers :: "bool option"
  pr_authorization :: "client_authorization_defaults option"


record client_route_config =
  rt_client_id :: string
  rt_hostname :: string
  rt_pattern :: "string option"
  rt_nats_url :: "string option"
  rt_nats_token_file :: "string option"
  rt_oauth :: "client_oauth_defaults option"
  rt_acme :: "client_acme_defaults option"
  rt_authorization :: "client_authorization_defaults option"
  rt_tcp_passthrough :: "bool option"
  rt_relay_mode :: "relay_mode option"
  rt_request_subject :: "string option"
  rt_claim_ack_timeout_ms :: "u64 option"
  rt_backend_addr :: "string option"
  rt_backend_host :: "string option"
  rt_http_backend_addr :: "string option"
  rt_proxy_headers :: "bool option"
  rt_path_routes :: "client_path_route_config list"


record multi_route_client_config =
  mr_defaults :: client_config_defaults
  mr_routes :: "client_route_config list"


section \<open>Typed defaults\<close>

definition default_request_subject :: string where
  "default_request_subject = ''tunnel.connect.request''"

definition default_true :: bool where
  "default_true = True"

definition default_claim_timeout_ms :: u64 where
  "default_claim_timeout_ms = 3000"

definition default_pending_timeout_ms :: u64 where
  "default_pending_timeout_ms = 10000"

definition default_ingress_handshake_timeout_ms :: u64 where
  "default_ingress_handshake_timeout_ms = 15000"

definition default_callback_handshake_timeout_ms :: u64 where
  "default_callback_handshake_timeout_ms = 15000"

definition default_max_ingress_connections :: usize where
  "default_max_ingress_connections = 0"

definition default_max_callback_handshakes :: usize where
  "default_max_callback_handshakes = 0"

definition default_claim_ack_timeout_ms :: u64 where
  "default_claim_ack_timeout_ms = 1500"

definition default_oauth_scopes :: "string list" where
  "default_oauth_scopes = [''openid'', ''profile'', ''email'', ''entitlements'']"

definition default_oauth_renew_before_seconds :: u64 where
  "default_oauth_renew_before_seconds = 60"

definition default_roles_claim :: string where
  "default_roles_claim = ''groups''"

definition default_jwt_algorithms :: "string list" where
  "default_jwt_algorithms = [''RS256'']"

definition default_jwt_leeway_seconds :: u64 where
  "default_jwt_leeway_seconds = 30"

definition default_jwks_cache_file :: string where
  "default_jwks_cache_file = ''~/.cache/lfp-pipe/auth/jwks.json''"

definition default_acme_cache_dir :: string where
  "default_acme_cache_dir = ''~/.cache/lfp-pipe/acme''"

definition default_jwks_refresh_seconds :: u64 where
  "default_jwks_refresh_seconds = 3600"

definition default_jwks_max_stale_seconds :: u64 where
  "default_jwks_max_stale_seconds = 604800"

definition default_auth_header_timeout_ms :: u64 where
  "default_auth_header_timeout_ms = 5000"

definition default_auth_max_header_bytes :: usize where
  "default_auth_max_header_bytes = 32 * 1024"

definition default_browser_oidc_scopes :: "string list" where
  "default_browser_oidc_scopes = [''openid'', ''profile'', ''email'', ''groups'']"

definition default_oidc_callback_path :: string where
  "default_oidc_callback_path = ''/_lfp/auth/callback''"

definition default_oidc_logout_path :: string where
  "default_oidc_logout_path = ''/_lfp/auth/logout''"

definition default_oidc_session_key_file :: string where
  "default_oidc_session_key_file = ''~/.secrets/lfp-pipe/oidc-session-key''"

definition default_oidc_session_ttl_seconds :: u64 where
  "default_oidc_session_ttl_seconds = 8 * 60 * 60"

section \<open>Derived deserialisation\<close>

definition de_relay_mode :: "relay_mode decoder" where
  "de_relay_mode v = and_then (de_string v) (\<lambda>s.
     if s = ''auto'' then Inr Auto else if s = ''buffered'' then Inr Buffered
     else if s = ''splice'' then Inr Splice else serde_error ''unknown variant'')"

definition de_role_match :: "role_match decoder" where
  "de_role_match v = and_then (de_string v) (\<lambda>s.
     if s = ''any'' then Inr Any else if s = ''all'' then Inr All
     else serde_error ''unknown variant'')"

text \<open>\<^verbatim>\<open>ClientConfigDefaults::default()\<close>, for a document without a \<^verbatim>\<open>[defaults]\<close> table.\<close>

definition defaults_none :: client_config_defaults where
  "defaults_none =
     \<lparr>df_nats_url = None, df_nats_token_file = None, df_oauth = None, df_acme = None,
      df_authorization = None, df_tcp_passthrough = None, df_relay_mode = None,
      df_request_subject = None, df_claim_ack_timeout_ms = None, df_backend_addr = None,
      df_backend_host = None, df_http_backend_addr = None, df_proxy_headers = None\<rparr>"

definition de_central_client_bootstrap :: "central_client_bootstrap decoder" where
  "de_central_client_bootstrap v =
     and_then (struct_fields
        [(''control_plane_url'', False), (''control_plane_config'', True),
         (''username'', True), (''client_secret_file'', True)] v) (\<lambda>m.
     and_then (req_field ''control_plane_url'' de_string m) (\<lambda>control_plane_url.
     and_then (default_field ''control_plane_config'' False de_bool m) (\<lambda>control_plane_config.
     and_then (opt_field ''username'' de_string m) (\<lambda>username.
     and_then (opt_field ''client_secret_file'' de_string m) (\<lambda>client_secret_file.
       Inr \<lparr>cb_control_plane_url = control_plane_url,
            cb_control_plane_config = control_plane_config, cb_username = username,
            cb_client_secret_file = client_secret_file\<rparr>)))))"

definition de_sni_passthrough_route :: "sni_passthrough_route decoder" where
  "de_sni_passthrough_route v =
     and_then (struct_fields
        [(''hostname'', False), (''backend_addr'', False)] v) (\<lambda>m.
     and_then (req_field ''hostname'' de_string m) (\<lambda>hostname.
     and_then (req_field ''backend_addr'' de_string m) (\<lambda>backend_addr.
       Inr \<lparr>sp_hostname = hostname, sp_backend_addr = backend_addr\<rparr>)))"

definition de_ingress_config :: "ingress_config decoder" where
  "de_ingress_config v =
     and_then (struct_fields
        [(''public_listen'', False), (''data_listen'', False),
         (''advertised_data_addr'', False), (''nats_url'', False),
         (''nats_token_file'', True), (''relay_mode'', True), (''request_subject'', True),
         (''domain_subject_routing'', True), (''claim_timeout_ms'', True),
         (''pending_timeout_ms'', True), (''ingress_handshake_timeout_ms'', True),
         (''callback_handshake_timeout_ms'', True), (''max_ingress_connections'', True),
         (''max_callback_handshakes'', True), (''sni_passthrough_routes'', True)] v) (\<lambda>m.
     and_then (req_field ''public_listen'' de_string m) (\<lambda>public_listen.
     and_then (req_field ''data_listen'' de_string m) (\<lambda>data_listen.
     and_then (opt_field ''advertised_data_addr'' de_string m) (\<lambda>advertised_data_addr.
     and_then (req_field ''nats_url'' de_string m) (\<lambda>nats_url.
     and_then (opt_field ''nats_token_file'' de_string m) (\<lambda>nats_token_file.
     and_then (default_field ''relay_mode'' Auto de_relay_mode m) (\<lambda>relay_mode.
     and_then (default_field ''request_subject'' default_request_subject de_string m) (\<lambda>request_subject.
     and_then (default_field ''domain_subject_routing'' False de_bool m) (\<lambda>domain_subject_routing.
     and_then (default_field ''claim_timeout_ms'' default_claim_timeout_ms de_word m) (\<lambda>claim_timeout_ms.
     and_then (default_field ''pending_timeout_ms'' default_pending_timeout_ms de_word m) (\<lambda>pending_timeout_ms.
     and_then (default_field ''ingress_handshake_timeout_ms'' default_ingress_handshake_timeout_ms de_word m) (\<lambda>ingress_handshake_timeout_ms.
     and_then (default_field ''callback_handshake_timeout_ms'' default_callback_handshake_timeout_ms de_word m) (\<lambda>callback_handshake_timeout_ms.
     and_then (default_field ''max_ingress_connections'' default_max_ingress_connections de_word m) (\<lambda>max_ingress_connections.
     and_then (default_field ''max_callback_handshakes'' default_max_callback_handshakes de_word m) (\<lambda>max_callback_handshakes.
     and_then (default_field ''sni_passthrough_routes'' [] (de_vec de_sni_passthrough_route) m) (\<lambda>sni_passthrough_routes.
       Inr \<lparr>ic_public_listen = public_listen, ic_data_listen = data_listen,
            ic_advertised_data_addr = advertised_data_addr, ic_nats_url = nats_url,
            ic_nats_token_file = nats_token_file, ic_relay_mode = relay_mode,
            ic_request_subject = request_subject,
            ic_domain_subject_routing = domain_subject_routing,
            ic_claim_timeout_ms = claim_timeout_ms,
            ic_pending_timeout_ms = pending_timeout_ms,
            ic_ingress_handshake_timeout_ms = ingress_handshake_timeout_ms,
            ic_callback_handshake_timeout_ms = callback_handshake_timeout_ms,
            ic_max_ingress_connections = max_ingress_connections,
            ic_max_callback_handshakes = max_callback_handshakes,
            ic_sni_passthrough_routes = sni_passthrough_routes\<rparr>))))))))))))))))"

definition de_client_authorization_config :: "client_authorization_config decoder" where
  "de_client_authorization_config v =
     and_then (struct_fields
        [(''bearer'', True), (''oidc'', True), (''issuer'', False), (''audiences'', False),
         (''jwks_uri'', True), (''jwks_cache_file'', True), (''roles_claim'', True),
         (''required_roles'', True), (''forward_authorization'', True),
         (''role_match'', True), (''algorithms'', True), (''leeway_seconds'', True),
         (''jwks_refresh_seconds'', True), (''jwks_max_stale_seconds'', True),
         (''header_timeout_ms'', True), (''max_header_bytes'', True),
         (''oidc_client_id'', True), (''oidc_client_secret_file'', True),
         (''oidc_scopes'', True), (''oidc_callback_path'', True),
         (''oidc_logout_path'', True), (''oidc_session_key_file'', True),
         (''oidc_session_ttl_seconds'', True)] v) (\<lambda>m.
     and_then (opt_field ''bearer'' de_bool m) (\<lambda>bearer.
     and_then (opt_field ''oidc'' de_bool m) (\<lambda>oidc.
     and_then (req_field ''issuer'' de_string m) (\<lambda>issuer.
     and_then (req_field ''audiences'' (de_vec de_string) m) (\<lambda>audiences.
     and_then (opt_field ''jwks_uri'' de_string m) (\<lambda>jwks_uri.
     and_then (default_field ''jwks_cache_file'' default_jwks_cache_file de_string m) (\<lambda>jwks_cache_file.
     and_then (default_field ''roles_claim'' default_roles_claim de_string m) (\<lambda>roles_claim.
     and_then (default_field ''required_roles'' [] (de_vec de_string) m) (\<lambda>required_roles.
     and_then (default_field ''forward_authorization'' False de_bool m) (\<lambda>forward_authorization.
     and_then (default_field ''role_match'' Any de_role_match m) (\<lambda>role_match.
     and_then (default_field ''algorithms'' default_jwt_algorithms (de_vec de_string) m) (\<lambda>algorithms.
     and_then (default_field ''leeway_seconds'' default_jwt_leeway_seconds de_word m) (\<lambda>leeway_seconds.
     and_then (default_field ''jwks_refresh_seconds'' default_jwks_refresh_seconds de_word m) (\<lambda>jwks_refresh_seconds.
     and_then (default_field ''jwks_max_stale_seconds'' default_jwks_max_stale_seconds de_word m) (\<lambda>jwks_max_stale_seconds.
     and_then (default_field ''header_timeout_ms'' default_auth_header_timeout_ms de_word m) (\<lambda>header_timeout_ms.
     and_then (default_field ''max_header_bytes'' default_auth_max_header_bytes de_word m) (\<lambda>max_header_bytes.
     and_then (opt_field ''oidc_client_id'' de_string m) (\<lambda>oidc_client_id.
     and_then (opt_field ''oidc_client_secret_file'' de_string m) (\<lambda>oidc_client_secret_file.
     and_then (default_field ''oidc_scopes'' default_browser_oidc_scopes (de_vec de_string) m) (\<lambda>oidc_scopes.
     and_then (default_field ''oidc_callback_path'' default_oidc_callback_path de_string m) (\<lambda>oidc_callback_path.
     and_then (default_field ''oidc_logout_path'' default_oidc_logout_path de_string m) (\<lambda>oidc_logout_path.
     and_then (default_field ''oidc_session_key_file'' default_oidc_session_key_file de_string m) (\<lambda>oidc_session_key_file.
     and_then (default_field ''oidc_session_ttl_seconds'' default_oidc_session_ttl_seconds de_word m) (\<lambda>oidc_session_ttl_seconds.
       Inr \<lparr>az_bearer = bearer, az_oidc = oidc, az_issuer = issuer, az_audiences = audiences,
            az_jwks_uri = jwks_uri, az_jwks_cache_file = jwks_cache_file,
            az_roles_claim = roles_claim, az_required_roles = required_roles,
            az_forward_authorization = forward_authorization, az_role_match = role_match,
            az_algorithms = algorithms, az_leeway_seconds = leeway_seconds,
            az_jwks_refresh_seconds = jwks_refresh_seconds,
            az_jwks_max_stale_seconds = jwks_max_stale_seconds,
            az_header_timeout_ms = header_timeout_ms, az_max_header_bytes = max_header_bytes,
            az_oidc_client_id = oidc_client_id,
            az_oidc_client_secret_file = oidc_client_secret_file,
            az_oidc_scopes = oidc_scopes, az_oidc_callback_path = oidc_callback_path,
            az_oidc_logout_path = oidc_logout_path,
            az_oidc_session_key_file = oidc_session_key_file,
            az_oidc_session_ttl_seconds = oidc_session_ttl_seconds\<rparr>))))))))))))))))))))))))"

definition de_client_oauth_config :: "client_oauth_config decoder" where
  "de_client_oauth_config v =
     and_then (struct_fields
        [(''token_url'', False), (''provider_client_id'', False), (''username'', False),
         (''client_secret_file'', False), (''control_plane_url'', False),
         (''hostname'', False), (''scopes'', True), (''renew_before_seconds'', True)] v) (\<lambda>m.
     and_then (req_field ''token_url'' de_string m) (\<lambda>token_url.
     and_then (req_field ''provider_client_id'' de_string m) (\<lambda>provider_client_id.
     and_then (req_field ''username'' de_string m) (\<lambda>username.
     and_then (req_field ''client_secret_file'' de_string m) (\<lambda>client_secret_file.
     and_then (req_field ''control_plane_url'' de_string m) (\<lambda>control_plane_url.
     and_then (req_field ''hostname'' de_string m) (\<lambda>hostname.
     and_then (default_field ''scopes'' default_oauth_scopes (de_vec de_string) m) (\<lambda>scopes.
     and_then (default_field ''renew_before_seconds'' default_oauth_renew_before_seconds de_word m) (\<lambda>renew_before_seconds.
       Inr \<lparr>oa_token_url = token_url, oa_provider_client_id = provider_client_id,
            oa_username = username, oa_client_secret_file = client_secret_file,
            oa_control_plane_url = control_plane_url, oa_hostname = hostname,
            oa_scopes = scopes, oa_renew_before_seconds = renew_before_seconds\<rparr>)))))))))"

definition de_client_acme_config :: "client_acme_config decoder" where
  "de_client_acme_config v =
     and_then (struct_fields
        [(''domain'', False), (''contacts'', True), (''cache_dir'', True),
         (''production'', True), (''directory_url'', True)] v) (\<lambda>m.
     and_then (req_field ''domain'' de_string m) (\<lambda>domain.
     and_then (default_field ''contacts'' [] (de_vec de_string) m) (\<lambda>contacts.
     and_then (default_field ''cache_dir'' default_acme_cache_dir de_string m) (\<lambda>cache_dir.
     and_then (default_field ''production'' False de_bool m) (\<lambda>production.
     and_then (opt_field ''directory_url'' de_string m) (\<lambda>directory_url.
       Inr \<lparr>ac_domain = domain, ac_contacts = contacts, ac_cache_dir = cache_dir,
            ac_production = production, ac_directory_url = directory_url\<rparr>))))))"

definition de_backend_rule :: "backend_rule decoder" where
  "de_backend_rule v =
     and_then (struct_fields
        [(''pattern'', True), (''path_prefix'', True), (''strip_path_prefix'', True),
         (''proxy_headers'', True), (''backend_addr'', False), (''backend_host'', True),
         (''http_backend_addr'', True), (''authorization'', True)] v) (\<lambda>m.
     and_then (default_field ''pattern'' [] de_string m) (\<lambda>pattern.
     and_then (opt_field ''path_prefix'' de_string m) (\<lambda>path_prefix.
     and_then (default_field ''strip_path_prefix'' False de_bool m) (\<lambda>strip_path_prefix.
     and_then (default_field ''proxy_headers'' default_true de_bool m) (\<lambda>proxy_headers.
     and_then (req_field ''backend_addr'' de_string m) (\<lambda>backend_addr.
     and_then (opt_field ''backend_host'' de_string m) (\<lambda>backend_host.
     and_then (opt_field ''http_backend_addr'' de_string m) (\<lambda>http_backend_addr.
     and_then (opt_field ''authorization'' de_client_authorization_config m) (\<lambda>authorization.
       Inr \<lparr>br_pattern = pattern, br_path_prefix = path_prefix,
            br_strip_path_prefix = strip_path_prefix, br_proxy_headers = proxy_headers,
            br_backend_addr = backend_addr, br_backend_host = backend_host,
            br_http_backend_addr = http_backend_addr, br_authorization = authorization\<rparr>)))))))))"

definition de_client_config :: "client_config decoder" where
  "de_client_config v =
     and_then (struct_fields
        [(''client_id'', False), (''nats_url'', False), (''nats_token_file'', True),
         (''oauth'', True), (''acme'', True), (''authorization'', True),
         (''tcp_passthrough'', True), (''relay_mode'', True), (''request_subject'', True),
         (''claim_ack_timeout_ms'', True), (''backend_rules'', False)] v) (\<lambda>m.
     and_then (req_field ''client_id'' de_string m) (\<lambda>client_id.
     and_then (req_field ''nats_url'' de_string m) (\<lambda>nats_url.
     and_then (opt_field ''nats_token_file'' de_string m) (\<lambda>nats_token_file.
     and_then (opt_field ''oauth'' de_client_oauth_config m) (\<lambda>oauth.
     and_then (opt_field ''acme'' de_client_acme_config m) (\<lambda>acme.
     and_then (opt_field ''authorization'' de_client_authorization_config m) (\<lambda>authorization.
     and_then (default_field ''tcp_passthrough'' default_true de_bool m) (\<lambda>tcp_passthrough.
     and_then (default_field ''relay_mode'' Auto de_relay_mode m) (\<lambda>relay_mode.
     and_then (default_field ''request_subject'' default_request_subject de_string m) (\<lambda>request_subject.
     and_then (default_field ''claim_ack_timeout_ms'' default_claim_ack_timeout_ms de_word m) (\<lambda>claim_ack_timeout_ms.
     and_then (req_field ''backend_rules'' (de_vec de_backend_rule) m) (\<lambda>backend_rules.
       Inr \<lparr>cl_client_id = client_id, cl_nats_url = nats_url,
            cl_nats_token_file = nats_token_file, cl_oauth = oauth, cl_acme = acme,
            cl_authorization = authorization, cl_tcp_passthrough = tcp_passthrough,
            cl_relay_mode = relay_mode, cl_request_subject = request_subject,
            cl_claim_ack_timeout_ms = claim_ack_timeout_ms, cl_backend_rules = backend_rules\<rparr>))))))))))))"

definition de_client_authorization_defaults :: "client_authorization_defaults decoder" where
  "de_client_authorization_defaults v =
     and_then (struct_fields
        [(''enabled'', True), (''bearer'', True), (''oidc'', True), (''issuer'', True),
         (''audiences'', True), (''jwks_uri'', True), (''jwks_cache_file'', True),
         (''roles_claim'', True), (''required_roles'', True),
         (''forward_authorization'', True), (''role_match'', True), (''algorithms'', True),
         (''leeway_seconds'', True), (''jwks_refresh_seconds'', True),
         (''jwks_max_stale_seconds'', True), (''header_timeout_ms'', True),
         (''max_header_bytes'', True), (''oidc_client_id'', True),
         (''oidc_client_secret_file'', True), (''oidc_scopes'', True),
         (''oidc_callback_path'', True), (''oidc_logout_path'', True),
         (''oidc_session_key_file'', True), (''oidc_session_ttl_seconds'', True)] v) (\<lambda>m.
     and_then (opt_field ''enabled'' de_bool m) (\<lambda>enabled.
     and_then (opt_field ''bearer'' de_bool m) (\<lambda>bearer.
     and_then (opt_field ''oidc'' de_bool m) (\<lambda>oidc.
     and_then (opt_field ''issuer'' de_string m) (\<lambda>issuer.
     and_then (opt_field ''audiences'' (de_vec de_string) m) (\<lambda>audiences.
     and_then (opt_field ''jwks_uri'' de_string m) (\<lambda>jwks_uri.
     and_then (opt_field ''jwks_cache_file'' de_string m) (\<lambda>jwks_cache_file.
     and_then (opt_field ''roles_claim'' de_string m) (\<lambda>roles_claim.
     and_then (opt_field ''required_roles'' (de_vec de_string) m) (\<lambda>required_roles.
     and_then (opt_field ''forward_authorization'' de_bool m) (\<lambda>forward_authorization.
     and_then (opt_field ''role_match'' de_role_match m) (\<lambda>role_match.
     and_then (opt_field ''algorithms'' (de_vec de_string) m) (\<lambda>algorithms.
     and_then (opt_field ''leeway_seconds'' de_word m) (\<lambda>leeway_seconds.
     and_then (opt_field ''jwks_refresh_seconds'' de_word m) (\<lambda>jwks_refresh_seconds.
     and_then (opt_field ''jwks_max_stale_seconds'' de_word m) (\<lambda>jwks_max_stale_seconds.
     and_then (opt_field ''header_timeout_ms'' de_word m) (\<lambda>header_timeout_ms.
     and_then (opt_field ''max_header_bytes'' de_word m) (\<lambda>max_header_bytes.
     and_then (opt_field ''oidc_client_id'' de_string m) (\<lambda>oidc_client_id.
     and_then (opt_field ''oidc_client_secret_file'' de_string m) (\<lambda>oidc_client_secret_file.
     and_then (opt_field ''oidc_scopes'' (de_vec de_string) m) (\<lambda>oidc_scopes.
     and_then (opt_field ''oidc_callback_path'' de_string m) (\<lambda>oidc_callback_path.
     and_then (opt_field ''oidc_logout_path'' de_string m) (\<lambda>oidc_logout_path.
     and_then (opt_field ''oidc_session_key_file'' de_string m) (\<lambda>oidc_session_key_file.
     and_then (opt_field ''oidc_session_ttl_seconds'' de_word m) (\<lambda>oidc_session_ttl_seconds.
       Inr \<lparr>ad_enabled = enabled, ad_bearer = bearer, ad_oidc = oidc, ad_issuer = issuer,
            ad_audiences = audiences, ad_jwks_uri = jwks_uri,
            ad_jwks_cache_file = jwks_cache_file, ad_roles_claim = roles_claim,
            ad_required_roles = required_roles,
            ad_forward_authorization = forward_authorization, ad_role_match = role_match,
            ad_algorithms = algorithms, ad_leeway_seconds = leeway_seconds,
            ad_jwks_refresh_seconds = jwks_refresh_seconds,
            ad_jwks_max_stale_seconds = jwks_max_stale_seconds,
            ad_header_timeout_ms = header_timeout_ms, ad_max_header_bytes = max_header_bytes,
            ad_oidc_client_id = oidc_client_id,
            ad_oidc_client_secret_file = oidc_client_secret_file,
            ad_oidc_scopes = oidc_scopes, ad_oidc_callback_path = oidc_callback_path,
            ad_oidc_logout_path = oidc_logout_path,
            ad_oidc_session_key_file = oidc_session_key_file,
            ad_oidc_session_ttl_seconds = oidc_session_ttl_seconds\<rparr>)))))))))))))))))))))))))"

definition de_client_oauth_defaults :: "client_oauth_defaults decoder" where
  "de_client_oauth_defaults v =
     and_then (struct_fields
        [(''token_url'', True), (''provider_client_id'', True), (''username'', True),
         (''client_secret_file'', True), (''control_plane_url'', True), (''scopes'', True),
         (''renew_before_seconds'', True)] v) (\<lambda>m.
     and_then (opt_field ''token_url'' de_string m) (\<lambda>token_url.
     and_then (opt_field ''provider_client_id'' de_string m) (\<lambda>provider_client_id.
     and_then (opt_field ''username'' de_string m) (\<lambda>username.
     and_then (opt_field ''client_secret_file'' de_string m) (\<lambda>client_secret_file.
     and_then (opt_field ''control_plane_url'' de_string m) (\<lambda>control_plane_url.
     and_then (opt_field ''scopes'' (de_vec de_string) m) (\<lambda>scopes.
     and_then (opt_field ''renew_before_seconds'' de_word m) (\<lambda>renew_before_seconds.
       Inr \<lparr>od_token_url = token_url, od_provider_client_id = provider_client_id,
            od_username = username, od_client_secret_file = client_secret_file,
            od_control_plane_url = control_plane_url, od_scopes = scopes,
            od_renew_before_seconds = renew_before_seconds\<rparr>))))))))"

definition de_client_acme_defaults :: "client_acme_defaults decoder" where
  "de_client_acme_defaults v =
     and_then (struct_fields
        [(''enabled'', True), (''contacts'', True), (''cache_dir'', True),
         (''production'', True), (''directory_url'', True)] v) (\<lambda>m.
     and_then (opt_field ''enabled'' de_bool m) (\<lambda>enabled.
     and_then (opt_field ''contacts'' (de_vec de_string) m) (\<lambda>contacts.
     and_then (opt_field ''cache_dir'' de_string m) (\<lambda>cache_dir.
     and_then (opt_field ''production'' de_bool m) (\<lambda>production.
     and_then (opt_field ''directory_url'' de_string m) (\<lambda>directory_url.
       Inr \<lparr>cd_enabled = enabled, cd_contacts = contacts, cd_cache_dir = cache_dir,
            cd_production = production, cd_directory_url = directory_url\<rparr>))))))"

definition de_client_config_defaults :: "client_config_defaults decoder" where
  "de_client_config_defaults v =
     and_then (struct_fields
        [(''nats_url'', True), (''nats_token_file'', True), (''oauth'', True),
         (''acme'', True), (''authorization'', True), (''tcp_passthrough'', True),
         (''relay_mode'', True), (''request_subject'', True),
         (''claim_ack_timeout_ms'', True), (''backend_addr'', True), (''backend_host'', True),
         (''http_backend_addr'', True), (''proxy_headers'', True)] v) (\<lambda>m.
     and_then (opt_field ''nats_url'' de_string m) (\<lambda>nats_url.
     and_then (opt_field ''nats_token_file'' de_string m) (\<lambda>nats_token_file.
     and_then (opt_field ''oauth'' de_client_oauth_defaults m) (\<lambda>oauth.
     and_then (opt_field ''acme'' de_client_acme_defaults m) (\<lambda>acme.
     and_then (opt_field ''authorization'' de_client_authorization_defaults m) (\<lambda>authorization.
     and_then (opt_field ''tcp_passthrough'' de_bool m) (\<lambda>tcp_passthrough.
     and_then (opt_field ''relay_mode'' de_relay_mode m) (\<lambda>relay_mode.
     and_then (opt_field ''request_subject'' de_string m) (\<lambda>request_subject.
     and_then (opt_field ''claim_ack_timeout_ms'' de_word m) (\<lambda>claim_ack_timeout_ms.
     and_then (opt_field ''backend_addr'' de_string m) (\<lambda>backend_addr.
     and_then (opt_field ''backend_host'' de_string m) (\<lambda>backend_host.
     and_then (opt_field ''http_backend_addr'' de_string m) (\<lambda>http_backend_addr.
     and_then (opt_field ''proxy_headers'' de_bool m) (\<lambda>proxy_headers.
       Inr \<lparr>df_nats_url = nats_url, df_nats_token_file = nats_token_file, df_oauth = oauth,
            df_acme = acme, df_authorization = authorization,
            df_tcp_passthrough = tcp_passthrough, df_relay_mode = relay_mode,
            df_request_subject = request_subject,
            df_claim_ack_timeout_ms = claim_ack_timeout_ms, df_backend_addr = backend_addr,
            df_backend_host = backend_host, df_http_backend_addr = http_backend_addr,
            df_proxy_headers = proxy_headers\<rparr>))))))))))))))"

definition de_client_path_route_config :: "client_path_route_config decoder" where
  "de_client_path_route_config v =
     and_then (struct_fields
        [(''path_prefix'', False), (''backend_addr'', False), (''backend_host'', True),
         (''strip_path_prefix'', True), (''proxy_headers'', True), (''authorization'', True)] v) (\<lambda>m.
     and_then (req_field ''path_prefix'' de_string m) (\<lambda>path_prefix.
     and_then (req_field ''backend_addr'' de_string m) (\<lambda>backend_addr.
     and_then (opt_field ''backend_host'' de_string m) (\<lambda>backend_host.
     and_then (default_field ''strip_path_prefix'' False de_bool m) (\<lambda>strip_path_prefix.
     and_then (opt_field ''proxy_headers'' de_bool m) (\<lambda>proxy_headers.
     and_then (opt_field ''authorization'' de_client_authorization_defaults m) (\<lambda>authorization.
       Inr \<lparr>pr_path_prefix = path_prefix, pr_backend_addr = backend_addr,
            pr_backend_host = backend_host, pr_strip_path_prefix = strip_path_prefix,
            pr_proxy_headers = proxy_headers, pr_authorization = authorization\<rparr>)))))))"

definition de_client_route_config :: "client_route_config decoder" where
  "de_client_route_config v =
     and_then (struct_fields
        [(''client_id'', False), (''hostname'', False), (''pattern'', True),
         (''nats_url'', True), (''nats_token_file'', True), (''oauth'', True),
         (''acme'', True), (''authorization'', True), (''tcp_passthrough'', True),
         (''relay_mode'', True), (''request_subject'', True),
         (''claim_ack_timeout_ms'', True), (''backend_addr'', True), (''backend_host'', True),
         (''http_backend_addr'', True), (''proxy_headers'', True), (''path_routes'', True)] v) (\<lambda>m.
     and_then (req_field ''client_id'' de_string m) (\<lambda>client_id.
     and_then (req_field ''hostname'' de_string m) (\<lambda>hostname.
     and_then (opt_field ''pattern'' de_string m) (\<lambda>pattern.
     and_then (opt_field ''nats_url'' de_string m) (\<lambda>nats_url.
     and_then (opt_field ''nats_token_file'' de_string m) (\<lambda>nats_token_file.
     and_then (opt_field ''oauth'' de_client_oauth_defaults m) (\<lambda>oauth.
     and_then (opt_field ''acme'' de_client_acme_defaults m) (\<lambda>acme.
     and_then (opt_field ''authorization'' de_client_authorization_defaults m) (\<lambda>authorization.
     and_then (opt_field ''tcp_passthrough'' de_bool m) (\<lambda>tcp_passthrough.
     and_then (opt_field ''relay_mode'' de_relay_mode m) (\<lambda>relay_mode.
     and_then (opt_field ''request_subject'' de_string m) (\<lambda>request_subject.
     and_then (opt_field ''claim_ack_timeout_ms'' de_word m) (\<lambda>claim_ack_timeout_ms.
     and_then (opt_field ''backend_addr'' de_string m) (\<lambda>backend_addr.
     and_then (opt_field ''backend_host'' de_string m) (\<lambda>backend_host.
     and_then (opt_field ''http_backend_addr'' de_string m) (\<lambda>http_backend_addr.
     and_then (opt_field ''proxy_headers'' de_bool m) (\<lambda>proxy_headers.
     and_then (default_field ''path_routes'' [] (de_vec de_client_path_route_config) m) (\<lambda>path_routes.
       Inr \<lparr>rt_client_id = client_id, rt_hostname = hostname, rt_pattern = pattern,
            rt_nats_url = nats_url, rt_nats_token_file = nats_token_file, rt_oauth = oauth,
            rt_acme = acme, rt_authorization = authorization,
            rt_tcp_passthrough = tcp_passthrough, rt_relay_mode = relay_mode,
            rt_request_subject = request_subject,
            rt_claim_ack_timeout_ms = claim_ack_timeout_ms, rt_backend_addr = backend_addr,
            rt_backend_host = backend_host, rt_http_backend_addr = http_backend_addr,
            rt_proxy_headers = proxy_headers, rt_path_routes = path_routes\<rparr>))))))))))))))))))"

definition de_multi_route_client_config :: "multi_route_client_config decoder" where
  "de_multi_route_client_config v =
     and_then (struct_fields
        [(''defaults'', True), (''routes'', False)] v) (\<lambda>m.
     and_then (default_field ''defaults'' defaults_none de_client_config_defaults m) (\<lambda>defaults.
     and_then (req_field ''routes'' (de_vec de_client_route_config) m) (\<lambda>routes.
       Inr \<lparr>mr_defaults = defaults, mr_routes = routes\<rparr>)))"

text \<open>The untagged enum of the two document shapes: the multi-route shape is tried first.\<close>

datatype client_config_document =
    MultiRoute multi_route_client_config
  | Legacy client_config

definition de_client_config_document :: "client_config_document decoder" where
  "de_client_config_document v = (case de_multi_route_client_config v of
      Inr c \<Rightarrow> Inr (MultiRoute c)
    | Inl _ \<Rightarrow> (case de_client_config v of
          Inr c \<Rightarrow> Inr (Legacy c)
        | Inl _ \<Rightarrow> serde_error ''data did not match any variant''))"

end
