(* ===== verification/Config_Expand.thy ===== *)
theory Config_Expand
  imports Config_Types
begin

text \<open>
  The operations of \<^verbatim>\<open>shared/src/config.rs\<close> on the configuration structs: the override layer,
  the loopback shorthand, and the expansion of a multi-route document, in which every value
  is looked up from the nearest layer that sets it. The locale \<open>layered\<close> states what such a
  lookup promises; it is interpreted on each of the lookup closures of the source.
\<close>

section \<open>Overrides and derived values\<close>

definition ingress_callback_addr :: "ingress_config \<Rightarrow> string" where
  "ingress_callback_addr c = unwrap_or (ic_data_listen c) (ic_advertised_data_addr c)"

text \<open>\<^verbatim>\<open>(!value.is_empty()).then_some(value)\<close>\<close>

definition non_empty :: "string \<Rightarrow> string option" where
  "non_empty value = (if value = [] then None else Some value)"

definition ingress_with_overrides :: "ingress_config \<Rightarrow> ingress_overrides \<Rightarrow> ingress_config" where
  "ingress_with_overrides c overrides = c\<lparr>
     ic_public_listen := unwrap_or (ic_public_listen c) (io_public_listen overrides),
     ic_data_listen := unwrap_or (ic_data_listen c) (io_data_listen overrides),
     ic_advertised_data_addr := (case io_advertised_data_addr overrides of None \<Rightarrow> ic_advertised_data_addr c
       | Some value \<Rightarrow> non_empty value),
     ic_nats_url := unwrap_or (ic_nats_url c) (io_nats_url overrides),
     ic_nats_token_file := (case io_nats_token_file overrides of None \<Rightarrow> ic_nats_token_file c
       | Some value \<Rightarrow> non_empty value),
     ic_relay_mode := unwrap_or (ic_relay_mode c) (io_relay_mode overrides),
     ic_request_subject := unwrap_or (ic_request_subject c) (io_request_subject overrides),
     ic_domain_subject_routing := unwrap_or (ic_domain_subject_routing c) (io_domain_subject_routing overrides),
     ic_claim_timeout_ms := unwrap_or (ic_claim_timeout_ms c) (io_claim_timeout_ms overrides),
     ic_pending_timeout_ms := unwrap_or (ic_pending_timeout_ms c) (io_pending_timeout_ms overrides),
     ic_ingress_handshake_timeout_ms := unwrap_or (ic_ingress_handshake_timeout_ms c) (io_ingress_handshake_timeout_ms overrides),
     ic_callback_handshake_timeout_ms := unwrap_or (ic_callback_handshake_timeout_ms c) (io_callback_handshake_timeout_ms overrides),
     ic_max_ingress_connections := unwrap_or (ic_max_ingress_connections c) (io_max_ingress_connections overrides),
     ic_max_callback_handshakes := unwrap_or (ic_max_callback_handshakes c) (io_max_callback_handshakes overrides)\<rparr>"

definition client_with_overrides :: "client_config \<Rightarrow> client_overrides \<Rightarrow> client_config" where
  "client_with_overrides c overrides = c\<lparr>
     cl_client_id := unwrap_or (cl_client_id c) (co_client_id overrides),
     cl_nats_url := unwrap_or (cl_nats_url c) (co_nats_url overrides),
     cl_nats_token_file := (case co_nats_token_file overrides of None \<Rightarrow> cl_nats_token_file c
       | Some value \<Rightarrow> non_empty value),
     cl_relay_mode := unwrap_or (cl_relay_mode c) (co_relay_mode overrides),
     cl_request_subject := unwrap_or (cl_request_subject c) (co_request_subject overrides),
     cl_claim_ack_timeout_ms := unwrap_or (cl_claim_ack_timeout_ms c) (co_claim_ack_timeout_ms overrides)\<rparr>"

definition bearer_enabled :: "client_authorization_config \<Rightarrow> bool" where
  "bearer_enabled a = unwrap_or True (az_bearer a)"

definition oidc_enabled :: "client_authorization_config \<Rightarrow> bool" where
  "oidc_enabled a = unwrap_or (is_some_and (\<lambda>value. \<not> blank value) (az_oidc_client_id a)) (az_oidc a)"

definition resolve_loopback_shorthand :: "string \<Rightarrow> string" where
  "resolve_loopback_shorthand address =
     (let address = trim address in
      if list_all is_ascii_digit address \<and> address \<noteq> [] then ''127.0.0.1:'' @ address
      else if starts_with '':'' address then ''127.0.0.1'' @ address
      else address)"

definition resolved_backend_addr :: "backend_rule \<Rightarrow> string" where
  "resolved_backend_addr rule = resolve_loopback_shorthand (br_backend_addr rule)"

definition resolved_http_backend_addr :: "backend_rule \<Rightarrow> string" where
  "resolved_http_backend_addr rule = (case br_http_backend_addr rule of
      Some address \<Rightarrow> resolve_loopback_shorthand address
    | None \<Rightarrow> resolved_backend_addr rule)"

section \<open>Merging layers\<close>

text \<open>The closures of \<^verbatim>\<open>merge_authorization_layers\<close>; \<open>select\<close> is the field they read.\<close>

definition layer_value :: "'s list \<Rightarrow> ('s \<Rightarrow> 'v option) \<Rightarrow> 'v option" where
  "layer_value layers select = find_map select layers"

definition non_blank_string_value :: "'s list \<Rightarrow> ('s \<Rightarrow> string option) \<Rightarrow> string option" where
  "non_blank_string_value layers select =
     find_map (\<lambda>settings. opt_filter (\<lambda>value. \<not> blank value) (select settings)) layers"

definition required_string_value ::
    "'s list \<Rightarrow> ('s \<Rightarrow> string option) \<Rightarrow> string \<Rightarrow> string res" where
  "required_string_value layers select name =
     opt_context (''authorization.'' @ name @
         '' is required in the route or [defaults.authorization]'')
       (non_blank_string_value layers select)"

definition list_value :: "'s list \<Rightarrow> ('s \<Rightarrow> 'v list option) \<Rightarrow> 'v list option" where
  "list_value layers select = find_map (\<lambda>settings. select settings) layers"

definition non_empty_list_value :: "'s list \<Rightarrow> ('s \<Rightarrow> 'v list option) \<Rightarrow> 'v list option" where
  "non_empty_list_value layers select =
     find_map (\<lambda>settings. opt_filter (\<lambda>value. value \<noteq> []) (select settings)) layers"

definition merge_authorization_layers ::
    "client_authorization_defaults list \<Rightarrow> client_authorization_config option res" where
  "merge_authorization_layers layers =
     (if layers = [] then Inr None
      else if \<not> unwrap_or True (layer_value layers ad_enabled) then Inr None
      else and_then (required_string_value layers ad_issuer ''issuer'') (\<lambda>issuer.
        Inr (Some \<lparr>
          az_bearer = layer_value layers ad_bearer,
          az_oidc = layer_value layers ad_oidc,
          az_issuer = issuer,
          az_audiences = unwrap_or [] (non_empty_list_value layers ad_audiences),
          az_jwks_uri = layer_value layers ad_jwks_uri,
          az_jwks_cache_file =
            unwrap_or default_jwks_cache_file (non_blank_string_value layers ad_jwks_cache_file),
          az_roles_claim =
            unwrap_or default_roles_claim (non_blank_string_value layers ad_roles_claim),
          az_required_roles = unwrap_or [] (list_value layers ad_required_roles),
          az_forward_authorization =
            unwrap_or False (layer_value layers ad_forward_authorization),
          az_role_match = unwrap_or Any (layer_value layers ad_role_match),
          az_algorithms =
            unwrap_or default_jwt_algorithms (non_empty_list_value layers ad_algorithms),
          az_leeway_seconds =
            unwrap_or default_jwt_leeway_seconds (layer_value layers ad_leeway_seconds),
          az_jwks_refresh_seconds =
            unwrap_or default_jwks_refresh_seconds (layer_value layers ad_jwks_refresh_seconds),
          az_jwks_max_stale_seconds =
            unwrap_or default_jwks_max_stale_seconds (layer_value layers ad_jwks_max_stale_seconds),
          az_header_timeout_ms =
            unwrap_or default_auth_header_timeout_ms (layer_value layers ad_header_timeout_ms),
          az_max_header_bytes =
            unwrap_or default_auth_max_header_bytes (layer_value layers ad_max_header_bytes),
          az_oidc_client_id = non_blank_string_value layers ad_oidc_client_id,
          az_oidc_client_secret_file = layer_value layers ad_oidc_client_secret_file,
          az_oidc_scopes =
            unwrap_or default_browser_oidc_scopes (non_empty_list_value layers ad_oidc_scopes),
          az_oidc_callback_path =
            unwrap_or default_oidc_callback_path (non_blank_string_value layers ad_oidc_callback_path),
          az_oidc_logout_path =
            unwrap_or default_oidc_logout_path (non_blank_string_value layers ad_oidc_logout_path),
          az_oidc_session_key_file =
            unwrap_or default_oidc_session_key_file
              (non_blank_string_value layers ad_oidc_session_key_file),
          az_oidc_session_ttl_seconds =
            unwrap_or default_oidc_session_ttl_seconds
              (layer_value layers ad_oidc_session_ttl_seconds)\<rparr>)))"

text \<open>\<^verbatim>\<open>[a, b].into_iter().flatten().collect()\<close>\<close>

definition present :: "'a option list \<Rightarrow> 'a list" where
  "present = filter_map (\<lambda>x. x)"

definition merge_authorization_defaults ::
    "client_authorization_defaults option \<Rightarrow> client_authorization_defaults option \<Rightarrow>
     client_authorization_config option res" where
  "merge_authorization_defaults defaults route =
     merge_authorization_layers (present [route, defaults])"

text \<open>\<^verbatim>\<open>route.and_then(select).or_else(|| defaults.and_then(select))\<close>\<close>

definition route_or_default :: "'s option \<Rightarrow> 's option \<Rightarrow> ('s \<Rightarrow> 'v option) \<Rightarrow> 'v option" where
  "route_or_default defaults route select =
     or_else (Option.bind route select) (Option.bind defaults select)"

definition merge_acme_defaults ::
    "client_acme_defaults option \<Rightarrow> client_acme_defaults option \<Rightarrow> string \<Rightarrow>
     client_acme_config option res" where
  "merge_acme_defaults defaults route hostname =
     (if defaults = None \<and> route = None then Inr None
      else if \<not> unwrap_or True (route_or_default defaults route cd_enabled) then Inr None
      else
        let cache_dir = unwrap_or default_acme_cache_dir (route_or_default defaults route cd_cache_dir) in
        and_then (ensure (\<not> blank cache_dir) ''acme.cache_dir cannot be empty'') (\<lambda>_.
          Inr (Some \<lparr>
            ac_domain = hostname,
            ac_contacts = unwrap_or [] (route_or_default defaults route cd_contacts),
            ac_cache_dir = cache_dir,
            ac_production = unwrap_or False (route_or_default defaults route cd_production),
            ac_directory_url = route_or_default defaults route cd_directory_url\<rparr>)))"

definition oauth_value ::
    "client_oauth_defaults option \<Rightarrow> client_oauth_defaults option \<Rightarrow>
     (client_oauth_defaults \<Rightarrow> string option) \<Rightarrow> string \<Rightarrow> string res" where
  "oauth_value defaults route select name =
     opt_context (''oauth.'' @ name @ '' is required in the route or [defaults.oauth]'')
       (route_or_default defaults route select)"

definition merge_oauth_defaults ::
    "client_oauth_defaults option \<Rightarrow> client_oauth_defaults option \<Rightarrow> string \<Rightarrow>
     client_oauth_config option res" where
  "merge_oauth_defaults defaults route hostname =
     (if defaults = None \<and> route = None then Inr None
      else
        and_then (oauth_value defaults route od_token_url ''token_url'') (\<lambda>token_url.
        and_then (oauth_value defaults route od_provider_client_id ''provider_client_id'') (\<lambda>provider_client_id.
        and_then (oauth_value defaults route od_username ''username'') (\<lambda>username.
        and_then (oauth_value defaults route od_client_secret_file ''client_secret_file'') (\<lambda>client_secret_file.
        and_then (oauth_value defaults route od_control_plane_url ''control_plane_url'') (\<lambda>control_plane_url.
          Inr (Some \<lparr>
            oa_token_url = token_url, oa_provider_client_id = provider_client_id,
            oa_username = username, oa_client_secret_file = client_secret_file,
            oa_control_plane_url = control_plane_url, oa_hostname = hostname,
            oa_scopes = unwrap_or default_oauth_scopes (route_or_default defaults route od_scopes),
            oa_renew_before_seconds =
              unwrap_or default_oauth_renew_before_seconds
                (route_or_default defaults route od_renew_before_seconds)\<rparr>)))))))"

section \<open>Expanding routes\<close>

definition fallback_rule ::
    "client_config_defaults \<Rightarrow> client_route_config \<Rightarrow> string \<Rightarrow> string \<Rightarrow> backend_rule" where
  "fallback_rule defaults route pattern backend_addr =
     \<lparr>br_pattern = pattern, br_path_prefix = None, br_strip_path_prefix = False,
      br_proxy_headers = unwrap_or True (or_else (rt_proxy_headers route) (df_proxy_headers defaults)),
      br_backend_addr = backend_addr,
      br_backend_host = or_else (rt_backend_host route) (df_backend_host defaults),
      br_http_backend_addr = or_else (rt_http_backend_addr route) (df_http_backend_addr defaults),
      br_authorization = None\<rparr>"

definition path_rule ::
    "client_config_defaults \<Rightarrow> client_route_config \<Rightarrow> string \<Rightarrow> client_path_route_config \<Rightarrow>
     backend_rule res" where
  "path_rule defaults route pattern path_route =
     and_then (merge_authorization_layers (present
         [pr_authorization path_route, rt_authorization route, df_authorization defaults]))
       (\<lambda>path_authorization. Inr
         \<lparr>br_pattern = pattern, br_path_prefix = Some (pr_path_prefix path_route),
          br_strip_path_prefix = pr_strip_path_prefix path_route,
          br_proxy_headers = unwrap_or True (or_else (pr_proxy_headers path_route)
            (or_else (rt_proxy_headers route) (df_proxy_headers defaults))),
          br_backend_addr = pr_backend_addr path_route,
          br_backend_host = pr_backend_host path_route,
          br_http_backend_addr = None,
          br_authorization = path_authorization\<rparr>)"

definition expand_client_route ::
    "client_config_defaults \<Rightarrow> client_route_config \<Rightarrow> client_config res" where
  "expand_client_route defaults route =
     and_then (ensure (\<not> blank (rt_client_id route)) ''client_id cannot be empty'') (\<lambda>_.
     and_then (ensure (\<not> blank (rt_hostname route)) ''hostname cannot be empty'') (\<lambda>_.
     and_then (opt_context ''nats_url is required in the route or [defaults]''
       (or_else (rt_nats_url route) (df_nats_url defaults))) (\<lambda>nats_url.
     and_then (opt_context ''backend_addr is required in the route or [defaults]''
       (or_else (rt_backend_addr route) (df_backend_addr defaults))) (\<lambda>backend_addr.
     and_then (merge_oauth_defaults (df_oauth defaults) (rt_oauth route) (rt_hostname route)) (\<lambda>oauth.
     and_then (merge_acme_defaults (df_acme defaults) (rt_acme route) (rt_hostname route)) (\<lambda>acme.
     and_then (merge_authorization_defaults (df_authorization defaults) (rt_authorization route))
       (\<lambda>authorization.
     let pattern = unwrap_or (rt_hostname route) (rt_pattern route) in
     and_then (collect_res (path_rule defaults route pattern) (rt_path_routes route)) (\<lambda>path_rules.
       Inr \<lparr>
         cl_client_id = rt_client_id route,
         cl_nats_url = nats_url,
         cl_nats_token_file = or_else (rt_nats_token_file route) (df_nats_token_file defaults),
         cl_oauth = oauth,
         cl_acme = acme,
         cl_authorization = authorization,
         cl_tcp_passthrough =
           unwrap_or True (or_else (rt_tcp_passthrough route) (df_tcp_passthrough defaults)),
         cl_relay_mode = unwrap_or Auto (or_else (rt_relay_mode route) (df_relay_mode defaults)),
         cl_request_subject = unwrap_or default_request_subject
           (or_else (rt_request_subject route) (df_request_subject defaults)),
         cl_claim_ack_timeout_ms = unwrap_or default_claim_ack_timeout_ms
           (or_else (rt_claim_ack_timeout_ms route) (df_claim_ack_timeout_ms defaults)),
         cl_backend_rules = fallback_rule defaults route pattern backend_addr # path_rules\<rparr>))))))))"

text \<open>The fallible iterator over the routes; \<open>client_ids\<close> is the \<^verbatim>\<open>HashSet\<close> it closes over and
  \<open>index\<close> the position of the first route left.\<close>

fun expand_from ::
    "client_config_defaults \<Rightarrow> nat \<Rightarrow> string set \<Rightarrow> client_route_config list \<Rightarrow> client_config list res" where
  "expand_from defaults index client_ids [] = Inr []"
| "expand_from defaults index client_ids (route # routes) =
     and_then (ensure (rt_client_id route \<notin> client_ids)
       (''route '' @ show_nat (index + 1) @ '' repeats client_id '' @ rt_client_id route)) (\<lambda>_.
     and_then (add_context (''route '' @ show_nat (index + 1)) (expand_client_route defaults route)) (\<lambda>config.
     and_then (expand_from defaults (index + 1) (insert (rt_client_id route) client_ids) routes) (\<lambda>configs.
       Inr (config # configs))))"

definition expand_client_routes :: "multi_route_client_config \<Rightarrow> client_config list res" where
  "expand_client_routes document =
     and_then (ensure (mr_routes document \<noteq> []) ''at least one [[routes]] entry is required'') (\<lambda>_.
       expand_from (mr_defaults document) 0 {} (mr_routes document))"

text \<open>Layers and routes for the statements below and their witnesses.\<close>

definition silent_authorization :: client_authorization_defaults where
  "silent_authorization =
     \<lparr>ad_enabled = None, ad_bearer = None, ad_oidc = None, ad_issuer = None,
      ad_audiences = None, ad_jwks_uri = None, ad_jwks_cache_file = None,
      ad_roles_claim = None, ad_required_roles = None, ad_forward_authorization = None,
      ad_role_match = None, ad_algorithms = None, ad_leeway_seconds = None,
      ad_jwks_refresh_seconds = None, ad_jwks_max_stale_seconds = None,
      ad_header_timeout_ms = None, ad_max_header_bytes = None, ad_oidc_client_id = None,
      ad_oidc_client_secret_file = None, ad_oidc_scopes = None,
      ad_oidc_callback_path = None, ad_oidc_logout_path = None,
      ad_oidc_session_key_file = None, ad_oidc_session_ttl_seconds = None\<rparr>"

definition example_authorization :: client_authorization_defaults where
  "example_authorization = silent_authorization\<lparr>ad_issuer := Some ''i'', ad_audiences := Some [''u'']\<rparr>"

definition example_defaults :: client_config_defaults where
  "example_defaults = defaults_none\<lparr>df_nats_url := Some ''n'', df_backend_addr := Some '':80''\<rparr>"

definition example_path_route :: client_path_route_config where
  "example_path_route =
     \<lparr>pr_path_prefix = ''/api'', pr_backend_addr = '':81'', pr_backend_host = None,
      pr_strip_path_prefix = True, pr_proxy_headers = None, pr_authorization = None\<rparr>"

definition example_route :: client_route_config where
  "example_route =
     \<lparr>rt_client_id = ''a'', rt_hostname = ''h'', rt_pattern = None, rt_nats_url = None,
      rt_nats_token_file = None, rt_oauth = None, rt_acme = None,
      rt_authorization = Some example_authorization, rt_tcp_passthrough = None,
      rt_relay_mode = None, rt_request_subject = None, rt_claim_ack_timeout_ms = None,
      rt_backend_addr = None, rt_backend_host = None, rt_http_backend_addr = None,
      rt_proxy_headers = None, rt_path_routes = [example_path_route]\<rparr>"

section \<open>The contract of a layered lookup\<close>

text \<open>\<open>lookup\<close> reads a setting from a list of layers, nearest first; \<open>setting\<close> is what one layer
  says about it.\<close>

locale layered =
  fixes lookup :: "'s list \<Rightarrow> 'v option" and setting :: "'s \<Rightarrow> 'v option"
  assumes lookup_Nil: "lookup [] = None"
    and lookup_Cons: "lookup (s # ss) = or_else (setting s) (lookup ss)"
begin

lemma lookup_append: "lookup (xs @ ys) = or_else (lookup xs) (lookup ys)"
  by (induction xs) (simp_all add: lookup_Nil lookup_Cons or_else_assoc)

lemma nearest_wins: "setting s = Some v \<Longrightarrow> lookup (s # ss) = Some v"
  by (simp add: lookup_Cons)

lemma silent_layer: "setting s = None \<Longrightarrow> lookup (xs @ s # ys) = lookup (xs @ ys)"
  by (simp add: lookup_append lookup_Cons)

lemma lookup_eq_None: "lookup ss = None \<longleftrightarrow> (\<forall>s\<in>set ss. setting s = None)"
  by (induction ss) (simp_all add: lookup_Nil lookup_Cons)

lemma lookup_from_layer: "lookup ss = Some v \<Longrightarrow> \<exists>s\<in>set ss. setting s = Some v"
proof (induction ss)
  case Nil
  then show ?case by (simp add: lookup_Nil)
next
  case (Cons s ss)
  then show ?case by (cases "setting s") (auto simp: lookup_Cons)
qed

end

interpretation lv: layered "\<lambda>ls. layer_value ls select" select for select
  by unfold_locales (auto simp: layer_value_def or_else_def split: option.splits)

interpretation nb: layered "\<lambda>ls. non_blank_string_value ls select"
    "\<lambda>s. opt_filter (\<lambda>value. \<not> blank value) (select s)" for select
  by unfold_locales (auto simp: non_blank_string_value_def or_else_def split: option.splits)

interpretation lst: layered "\<lambda>ls. list_value ls select" select for select
  by unfold_locales (auto simp: list_value_def or_else_def split: option.splits)

interpretation nl: layered "\<lambda>ls. non_empty_list_value ls select"
    "\<lambda>s. opt_filter (\<lambda>value. value \<noteq> []) (select s)" for select
  by unfold_locales (auto simp: non_empty_list_value_def or_else_def split: option.splits)

section \<open>Lemmas\<close>

lemma present_simps [simp]:
  "present [] = []" "present (None # xs) = present xs" "present (Some x # xs) = x # present xs"
  by (simp_all add: present_def)

text \<open>The two-layer form of the OAuth and ACME merges is the layered lookup.\<close>

lemma route_or_default_layers:
  "route_or_default defaults route select = layer_value (present [route, defaults]) select"
  by (cases route; cases defaults)
    (simp_all add: route_or_default_def layer_value_def or_else_def split: option.splits)

lemma non_blank_string_value_not_blank:
  "non_blank_string_value ls select = Some v \<Longrightarrow> \<not> blank v \<and> (\<exists>s\<in>set ls. select s = Some v)"
  using nb.lookup_from_layer [of ls select v] by (auto simp: opt_filter_eq_Some)

lemma non_empty_list_value_not_empty:
  "non_empty_list_value ls select = Some v \<Longrightarrow> v \<noteq> [] \<and> (\<exists>s\<in>set ls. select s = Some v)"
  using nl.lookup_from_layer [of ls select v] by (auto simp: opt_filter_eq_Some)

lemma unwrap_or_non_blank: "\<not> blank d \<Longrightarrow> \<not> blank (unwrap_or d (non_blank_string_value ls select))"
  by (cases "non_blank_string_value ls select") (auto dest: non_blank_string_value_not_blank)

lemma unwrap_or_non_empty: "d \<noteq> [] \<Longrightarrow> unwrap_or d (non_empty_list_value ls select) \<noteq> []"
  by (cases "non_empty_list_value ls select") (auto dest: non_empty_list_value_not_empty)

lemma defaults_not_blank:
  "\<not> blank default_jwks_cache_file" "\<not> blank default_oidc_session_key_file"
  "\<not> blank default_acme_cache_dir"
  by (simp_all add: default_jwks_cache_file_def default_oidc_session_key_file_def
      default_acme_cache_dir_def trim_id in_range_def byte_val_def)

lemma merge_authorization_layers_None:
  "merge_authorization_layers layers = Inr None \<longleftrightarrow>
     layers = [] \<or> layer_value layers ad_enabled = Some False"
  by (cases "layer_value layers ad_enabled")
    (auto simp: merge_authorization_layers_def res_simps)

lemma merge_authorization_layers_enabled:
  assumes "merge_authorization_layers layers = Inr (Some a)"
  shows "layers \<noteq> []" "layer_value layers ad_enabled \<noteq> Some False"
  using assms by (auto simp: merge_authorization_layers_def split: if_splits)

lemma merge_authorization_layers_issuer:
  assumes "merge_authorization_layers layers = Inr (Some a)"
  shows "non_blank_string_value layers ad_issuer = Some (az_issuer a)"
  using assms
  by (auto simp: merge_authorization_layers_def required_string_value_def res_simps split: if_splits)

lemma expand_from_Inr:
  "expand_from defaults index ids routes = Inr cs \<longleftrightarrow>
     distinct (map rt_client_id routes) \<and> set (map rt_client_id routes) \<inter> ids = {} \<and>
     list_all2 (\<lambda>r c. expand_client_route defaults r = Inr c) routes cs"
proof (induction routes arbitrary: index ids cs)
  case Nil
  then show ?case by auto
next
  case (Cons r routes)
  then show ?case by (cases cs) (auto simp: res_simps)
qed

lemma expand_client_route_InrD:
  assumes "expand_client_route defaults route = Inr c"
  shows "cl_client_id c = rt_client_id route" "\<not> blank (rt_client_id route)"
    "\<not> blank (rt_hostname route)"
    "merge_oauth_defaults (df_oauth defaults) (rt_oauth route) (rt_hostname route) = Inr (cl_oauth c)"
    "merge_acme_defaults (df_acme defaults) (rt_acme route) (rt_hostname route) = Inr (cl_acme c)"
    "merge_authorization_defaults (df_authorization defaults) (rt_authorization route) =
       Inr (cl_authorization c)"
    "\<exists>addr rules. cl_backend_rules c =
       fallback_rule defaults route (unwrap_or (rt_hostname route) (rt_pattern route)) addr # rules \<and>
       or_else (rt_backend_addr route) (df_backend_addr defaults) = Some addr \<and>
       list_all2 (\<lambda>p r. path_rule defaults route (unwrap_or (rt_hostname route) (rt_pattern route)) p = Inr r)
         (rt_path_routes route) rules"
  using assms
  by (auto simp: expand_client_route_def Let_def res_simps collect_res_Inr_iff)

lemma path_rule_InrD:
  assumes "path_rule defaults route pattern p = Inr r"
  shows "br_path_prefix r = Some (pr_path_prefix p)" "br_pattern r = pattern"
    "merge_authorization_layers (present
       [pr_authorization p, rt_authorization route, df_authorization defaults]) =
     Inr (br_authorization r)"
  using assms by (auto simp: path_rule_def res_simps)

text \<open>A path rule loses the protection of its route only by its own table.\<close>

lemma path_rule_protected:
  assumes p: "path_rule defaults route pattern p = Inr r"
    and route: "merge_authorization_defaults (df_authorization defaults) (rt_authorization route) =
      Inr (Some a)"
    and unprotected: "br_authorization r = None"
  shows "is_some_and (\<lambda>s. ad_enabled s = Some False) (pr_authorization p)"
proof -
  let ?ls = "present [rt_authorization route, df_authorization defaults]"
  have ls: "?ls \<noteq> []" "layer_value ?ls ad_enabled \<noteq> Some False"
    using merge_authorization_layers_enabled route
    unfolding merge_authorization_defaults_def by blast+
  have m: "merge_authorization_layers (present
      [pr_authorization p, rt_authorization route, df_authorization defaults]) = Inr None"
    using path_rule_InrD(3) [OF p] unprotected by simp
  show ?thesis
  proof (cases "pr_authorization p")
    case None
    with m ls show ?thesis by (simp add: merge_authorization_layers_None)
  next
    case (Some s)
    with m have "layer_value (s # ?ls) ad_enabled = Some False"
      by (simp add: merge_authorization_layers_None)
    then have "or_else (ad_enabled s) (layer_value ?ls ad_enabled) = Some False"
      by (simp add: lv.lookup_Cons)
    with ls(2) Some show ?thesis by (cases "ad_enabled s") auto
  qed
qed

section \<open>Properties\<close>

text \<open>A multi-route document expands exactly when it has a route, no two routes share a client
  id, and every route expands on its own; the sessions come out one per route, in the order
  of the document.\<close>

theorem expand_client_routes_iff:
  "expand_client_routes document = Inr configs \<longleftrightarrow>
     mr_routes document \<noteq> [] \<and> distinct (map rt_client_id (mr_routes document)) \<and>
     list_all2 (\<lambda>route config. expand_client_route (mr_defaults document) route = Inr config)
       (mr_routes document) configs"
  by (auto simp: expand_client_routes_def expand_from_Inr res_simps)

text \<open>C24: an expanded route has exactly one fallback rule, its first; every path rule shares its
  host pattern; and when the route is protected, a path rule is unprotected only if the
  path's own authorization table says \<^verbatim>\<open>enabled = false\<close>. The certificate domain and the
  OAuth hostname are the hostname of the route, whatever the shared defaults say.\<close>

theorem expand_client_route_rules:
  assumes "expand_client_route defaults route = Inr c"
  shows "length (filter (\<lambda>r. br_path_prefix r = None) (cl_backend_rules c)) = 1 \<and>
    br_path_prefix (hd (cl_backend_rules c)) = None \<and>
    map br_path_prefix (tl (cl_backend_rules c)) =
      map (\<lambda>p. Some (pr_path_prefix p)) (rt_path_routes route) \<and>
    (\<forall>r\<in>set (cl_backend_rules c). br_pattern r = unwrap_or (rt_hostname route) (rt_pattern route)) \<and>
    (cl_authorization c \<noteq> None \<longrightarrow>
      list_all2 (\<lambda>p r. br_authorization r \<noteq> None \<or>
          is_some_and (\<lambda>s. ad_enabled s = Some False) (pr_authorization p))
        (rt_path_routes route) (tl (cl_backend_rules c))) \<and>
    (\<forall>a. cl_acme c = Some a \<longrightarrow> ac_domain a = rt_hostname route) \<and>
    (\<forall>a. cl_oauth c = Some a \<longrightarrow> oa_hostname a = rt_hostname route)"
proof -
  let ?pat = "unwrap_or (rt_hostname route) (rt_pattern route)"
  obtain addr rules where rules: "cl_backend_rules c = fallback_rule defaults route ?pat addr # rules"
    and all2: "list_all2 (\<lambda>p r. path_rule defaults route ?pat p = Inr r) (rt_path_routes route) rules"
    using expand_client_route_InrD(7) [OF assms] by blast
  have prefixes: "map br_path_prefix rules = map (\<lambda>p. Some (pr_path_prefix p)) (rt_path_routes route)"
    using all2 by (induction rule: list_all2_induct) (auto dest: path_rule_InrD)
  have "filter (\<lambda>r. br_path_prefix r = None) rules = []"
    using all2 by (induction rule: list_all2_induct) (auto dest: path_rule_InrD)
  moreover have "\<forall>r\<in>set rules. br_pattern r = ?pat"
    using all2 by (induction rule: list_all2_induct) (auto dest: path_rule_InrD)
  moreover have "list_all2 (\<lambda>p r. br_authorization r \<noteq> None \<or>
      is_some_and (\<lambda>s. ad_enabled s = Some False) (pr_authorization p)) (rt_path_routes route) rules"
    if "cl_authorization c \<noteq> None"
    using all2
  proof (rule list_all2_mono)
    from that obtain a where a: "merge_authorization_defaults (df_authorization defaults)
        (rt_authorization route) = Inr (Some a)"
      using expand_client_route_InrD(6) [OF assms] by auto
    show "br_authorization r \<noteq> None \<or> is_some_and (\<lambda>s. ad_enabled s = Some False) (pr_authorization p)"
      if "path_rule defaults route ?pat p = Inr r" for p r
      using path_rule_protected [OF that a] by blast
  qed
  moreover have "ac_domain a = rt_hostname route" if "cl_acme c = Some a" for a
    using expand_client_route_InrD(5) [OF assms] that
    by (auto simp: merge_acme_defaults_def Let_def res_simps split: if_splits)
  moreover have "oa_hostname a = rt_hostname route" if "cl_oauth c = Some a" for a
    using expand_client_route_InrD(4) [OF assms] that
    by (auto simp: merge_oauth_defaults_def res_simps split: if_splits)
  ultimately show ?thesis using rules prefixes by (simp add: fallback_rule_def)
qed

theorem expand_client_route_rules_witness:
  "\<exists>c. expand_client_route example_defaults example_route = Inr c \<and>
     length (filter (\<lambda>r. br_path_prefix r = None) (cl_backend_rules c)) = 1 \<and>
     map br_path_prefix (tl (cl_backend_rules c)) = [Some ''/api'']"
proof -
  have "\<not> blank ''a''" "\<not> blank ''h''" "\<not> blank ''i''"
    by (simp_all add: trim_id in_range_def byte_val_def)
  then obtain c where "expand_client_route example_defaults example_route = Inr c"
    by (simp add: expand_client_route_def Let_def silent_authorization_def example_defaults_def example_route_def defaults_none_def
        example_path_route_def merge_oauth_defaults_def merge_acme_defaults_def
        merge_authorization_defaults_def merge_authorization_layers_def path_rule_def
        example_authorization_def required_string_value_def nb.lookup_Cons lv.lookup_Cons lv.lookup_Nil)
  with expand_client_route_rules [OF this] show ?thesis
    by (auto simp: example_route_def example_path_route_def)
qed

text \<open>Settings are inherited field by field from the nearest layer. The issuer of a merged
  policy is a non-blank issuer of one of the layers (there is no built-in one), blank or empty
  values of the path, list and cache settings are skipped in favour of outer layers or the
  typed default, while the nearest layer that mentions the required roles or the OIDC secret
  file decides them even with an empty value; and a layer that sets nothing changes nothing.\<close>

theorem authorization_layers_nearest:
  assumes "merge_authorization_layers layers = Inr (Some a)"
  shows "\<not> blank (az_issuer a) \<and> (\<exists>s\<in>set layers. ad_issuer s = Some (az_issuer a)) \<and>
    az_algorithms a \<noteq> [] \<and> az_oidc_scopes a \<noteq> [] \<and>
    \<not> blank (az_jwks_cache_file a) \<and> \<not> blank (az_oidc_session_key_file a) \<and>
    (\<forall>roles. ad_required_roles (hd layers) = Some roles \<longrightarrow> az_required_roles a = roles) \<and>
    (\<forall>f. ad_oidc_client_secret_file (hd layers) = Some f \<longrightarrow> az_oidc_client_secret_file a = Some f) \<and>
    (\<forall>b. ad_forward_authorization (hd layers) = Some b \<longrightarrow> az_forward_authorization a = b) \<and>
    (\<forall>m. ad_role_match (hd layers) = Some m \<longrightarrow> az_role_match a = m) \<and>
    (layers = xs @ silent_authorization # ys \<and> xs @ ys \<noteq> [] \<longrightarrow>
       merge_authorization_layers (xs @ ys) = Inr (Some a))"
proof -
  obtain s ls where layers: "layers = s # ls"
    using merge_authorization_layers_enabled(1) [OF assms] by (cases layers) auto
  have issuer: "non_blank_string_value layers ad_issuer = Some (az_issuer a)"
    using assms by (rule merge_authorization_layers_issuer)
  have a: "az_algorithms a = unwrap_or default_jwt_algorithms (non_empty_list_value layers ad_algorithms)"
    "az_oidc_scopes a = unwrap_or default_browser_oidc_scopes (non_empty_list_value layers ad_oidc_scopes)"
    "az_jwks_cache_file a = unwrap_or default_jwks_cache_file (non_blank_string_value layers ad_jwks_cache_file)"
    "az_oidc_session_key_file a =
       unwrap_or default_oidc_session_key_file (non_blank_string_value layers ad_oidc_session_key_file)"
    "az_required_roles a = unwrap_or [] (list_value layers ad_required_roles)"
    "az_oidc_client_secret_file a = layer_value layers ad_oidc_client_secret_file"
    "az_forward_authorization a = unwrap_or False (layer_value layers ad_forward_authorization)"
    "az_role_match a = unwrap_or Any (layer_value layers ad_role_match)"
    using assms by (auto simp: merge_authorization_layers_def res_simps split: if_splits)
  have silent: "merge_authorization_layers (xs @ silent_authorization # ys) = merge_authorization_layers (xs @ ys)"
    if "xs @ ys \<noteq> []"
  proof -
    have "xs @ silent_authorization # ys \<noteq> []" by simp
    note ne = if_not_P [OF this] if_not_P [OF that]
    show ?thesis
      unfolding merge_authorization_layers_def required_string_value_def ne
      by (simp add: silent_authorization_def lv.silent_layer nb.silent_layer lst.silent_layer
          nl.silent_layer)
  qed
  show ?thesis
    using non_blank_string_value_not_blank [OF issuer] a layers assms silent
    by (auto simp: lst.lookup_Cons lv.lookup_Cons defaults_not_blank unwrap_or_non_blank
        unwrap_or_non_empty default_jwt_algorithms_def default_browser_oidc_scopes_def)
qed

theorem authorization_layers_nearest_witness:
  "\<exists>a. merge_authorization_layers [example_authorization\<lparr>ad_required_roles := Some []\<rparr>,
       example_authorization\<lparr>ad_required_roles := Some [''admin'']\<rparr>] = Inr (Some a) \<and>
     az_required_roles a = [] \<and> \<not> blank (az_issuer a)"
proof -
  have "\<not> blank ''i''" by (simp add: trim_id in_range_def byte_val_def)
  then obtain a where "merge_authorization_layers [example_authorization\<lparr>ad_required_roles := Some []\<rparr>,
       example_authorization\<lparr>ad_required_roles := Some [''admin'']\<rparr>] = Inr (Some a)"
    by (simp add: merge_authorization_layers_def example_authorization_def silent_authorization_def
        required_string_value_def nb.lookup_Cons lv.lookup_Cons lv.lookup_Nil)
  with authorization_layers_nearest [OF this] show ?thesis by simp
qed

end
