(* ===== verification/Config_Load.thy ===== *)
theory Config_Load
  imports Config_Expand
begin

text \<open>
  Validating and loading configuration files (\<^verbatim>\<open>shared/src/config.rs\<close>). Reading a file is the
  parameter \<open>read_to_string\<close> (the file system's answer for a path) and reading TOML text the
  parameter \<open>parse_toml\<close>; deserialising the tree, expanding and validating it are modelled.
  A \<^verbatim>\<open>HashSet\<close> that a loop fills is the set argument of the recursion.
\<close>

section \<open>Ingress\<close>

fun validate_sni_routes :: "string set \<Rightarrow> sni_passthrough_route list \<Rightarrow> unit res" where
  "validate_sni_routes hostnames [] = Inr ()"
| "validate_sni_routes hostnames (route # routes) =
     (let hostname = to_ascii_lowercase (trim (sp_hostname route)) in
      and_then (ensure (hostname \<noteq> []) ''SNI passthrough hostname cannot be empty'') (\<lambda>_.
      and_then (ensure (\<not> blank (sp_backend_addr route))
        (''SNI passthrough backend_addr cannot be empty for '' @ sp_hostname route)) (\<lambda>_.
      and_then (ensure (hostname \<notin> hostnames)
        (''duplicate SNI passthrough hostname '' @ sp_hostname route)) (\<lambda>_.
        validate_sni_routes (insert hostname hostnames) routes))))"

definition validate_ingress_config :: "ingress_config \<Rightarrow> unit res" where
  "validate_ingress_config config = validate_sni_routes {} (ic_sni_passthrough_routes config)"

definition from_toml :: "(bytes \<Rightarrow> sval option) \<Rightarrow> 'a decoder \<Rightarrow> bytes \<Rightarrow> 'a res" where
  "from_toml parse_toml de raw =
     (case parse_toml raw of None \<Rightarrow> serde_error ''TOML parse error'' | Some v \<Rightarrow> de v)"

definition load_ingress_config ::
    "(string \<Rightarrow> bytes res) \<Rightarrow> (bytes \<Rightarrow> sval option) \<Rightarrow> string \<Rightarrow> ingress_config res" where
  "load_ingress_config read_to_string parse_toml path =
     and_then (add_context (''failed to read ingress config '' @ path) (read_to_string path)) (\<lambda>raw.
     and_then (add_context (''failed to parse ingress config '' @ path)
       (from_toml parse_toml de_ingress_config raw)) (\<lambda>config.
     and_then (add_context (''invalid ingress config '' @ path) (validate_ingress_config config)) (\<lambda>_.
       Inr config)))"

section \<open>Client\<close>

text \<open>\<^verbatim>\<open>path.contains(['?', '#'])\<close>\<close>

definition has_query_or_fragment :: "string \<Rightarrow> bool" where
  "has_query_or_fragment path \<longleftrightarrow> CHR ''?'' \<in> set path \<or> CHR ''#'' \<in> set path"

definition validate_reserved_path :: "string \<times> string \<Rightarrow> unit res" where
  "validate_reserved_path np = (case np of (name, path) \<Rightarrow>
     ensure (starts_with ''/_lfp/auth/'' path \<and> \<not> has_query_or_fragment path)
       (''authorization.'' @ name @
        '' must be a reserved /_lfp/auth/ path without query or fragment''))"

definition validate_authorization :: "client_authorization_config \<Rightarrow> unit res" where
  "validate_authorization a =
     and_then (ensure (bearer_enabled a \<or> oidc_enabled a)
       ''authorization must enable bearer, oidc, or both'') (\<lambda>_.
     and_then (ensure (\<not> blank (az_issuer a)) ''authorization.issuer cannot be empty'') (\<lambda>_.
     and_then (if bearer_enabled a then
         and_then (ensure (az_audiences a \<noteq> [])
           ''authorization.audiences cannot be empty when bearer is enabled'') (\<lambda>_.
         and_then (ensure (\<not> blank (az_jwks_cache_file a))
           ''authorization.jwks_cache_file cannot be empty'') (\<lambda>_.
         ensure (az_algorithms a \<noteq> []) ''authorization.algorithms cannot be empty''))
       else Inr ()) (\<lambda>_.
     and_then (if oidc_enabled a then
         and_then (ensure (\<not> blank (unwrap_or [] (az_oidc_client_id a)))
           ''authorization.oidc_client_id is required when oidc is enabled'') (\<lambda>_.
         and_then (ensure (\<exists>scope\<in>set (az_oidc_scopes a). scope = ''openid'')
           ''authorization.oidc_scopes must contain openid'') (\<lambda>_.
         and_then (for_each_res validate_reserved_path
           [(''oidc_callback_path'', az_oidc_callback_path a),
            (''oidc_logout_path'', az_oidc_logout_path a)]) (\<lambda>_.
         and_then (ensure (az_oidc_callback_path a \<noteq> az_oidc_logout_path a)
           ''authorization OIDC callback and logout paths must differ'') (\<lambda>_.
         and_then (ensure (\<not> blank (az_oidc_session_key_file a))
           ''authorization.oidc_session_key_file cannot be empty'') (\<lambda>_.
         ensure (0 < az_oidc_session_ttl_seconds a)
           ''authorization.oidc_session_ttl_seconds must be positive'')))))
       else Inr ()) (\<lambda>_.
     and_then (ensure (0 < az_header_timeout_ms a)
       ''authorization.header_timeout_ms must be positive'') (\<lambda>_.
     ensure (8192 \<le> az_max_header_bytes a)
       ''authorization.max_header_bytes must be at least 8192'')))))"

fun validate_rules :: "string set \<Rightarrow> backend_rule list \<Rightarrow> unit res" where
  "validate_rules prefixes [] = Inr ()"
| "validate_rules prefixes (rule # rules) =
     and_then (case br_path_prefix rule of
         None \<Rightarrow> Inr prefixes
       | Some prefix \<Rightarrow>
           and_then (ensure (starts_with ''/'' prefix \<and> \<not> has_query_or_fragment prefix)
             ''backend path_prefix must start with '/' and omit query/fragment'') (\<lambda>_.
           and_then (ensure (prefix \<notin> prefixes)
             (''backend path_prefix '' @ prefix @ '' is duplicated'')) (\<lambda>_.
             Inr (insert prefix prefixes)))) (\<lambda>prefixes.
     and_then (case br_authorization rule of
         None \<Rightarrow> Inr () | Some a \<Rightarrow> validate_authorization a) (\<lambda>_.
       validate_rules prefixes rules))"

definition validate_client_config :: "client_config \<Rightarrow> unit res" where
  "validate_client_config config =
     (let rules = cl_backend_rules config;
          has_path_routes = (\<exists>rule\<in>set rules. br_path_prefix rule \<noteq> None);
          has_authorization = (cl_authorization config \<noteq> None \<or>
            (\<exists>rule\<in>set rules. br_authorization rule \<noteq> None));
          fallback_count = length (filter (\<lambda>rule. br_path_prefix rule = None) rules) in
      and_then (ensure ((\<not> has_path_routes \<and> \<not> has_authorization) \<or> cl_acme config \<noteq> None)
        ''path routing and authorization require [acme] so HTTPS can be inspected'') (\<lambda>_.
      and_then (ensure (\<not> has_path_routes \<or> fallback_count = 1)
        ''path routing requires exactly one fallback backend without path_prefix'') (\<lambda>_.
      and_then (validate_rules {} rules) (\<lambda>_.
        case cl_authorization config of None \<Rightarrow> Inr () | Some a \<Rightarrow> validate_authorization a))))"

text \<open>The loop of the legacy shape: path rules take over the policy of the client.\<close>

definition inherit_authorization :: "client_config \<Rightarrow> client_config" where
  "inherit_authorization config = config\<lparr>cl_backend_rules :=
     map (\<lambda>rule. if br_path_prefix rule \<noteq> None \<and> br_authorization rule = None
                 then rule\<lparr>br_authorization := cl_authorization config\<rparr> else rule)
       (cl_backend_rules config)\<rparr>"

definition parse_client_configs :: "(bytes \<Rightarrow> sval option) \<Rightarrow> bytes \<Rightarrow> client_config list res" where
  "parse_client_configs parse_toml raw =
     and_then (from_toml parse_toml de_client_config_document raw) (\<lambda>document.
     and_then (case document of
         Legacy config \<Rightarrow> Inr [inherit_authorization config]
       | MultiRoute config \<Rightarrow>
           add_context ''invalid multi-route client config'' (expand_client_routes config)) (\<lambda>configs.
     and_then (for_each_res validate_client_config configs) (\<lambda>_.
       Inr configs)))"

definition parse_client_config_document ::
    "(bytes \<Rightarrow> sval option) \<Rightarrow> bytes \<Rightarrow> client_config list res" where
  "parse_client_config_document parse_toml raw = parse_client_configs parse_toml raw"

definition load_client_configs ::
    "(string \<Rightarrow> bytes res) \<Rightarrow> (bytes \<Rightarrow> sval option) \<Rightarrow> string \<Rightarrow> client_config list res" where
  "load_client_configs read_to_string parse_toml path =
     and_then (add_context (''failed to read client config '' @ path) (read_to_string path)) (\<lambda>raw.
       add_context (''failed to parse client config '' @ path) (parse_client_configs parse_toml raw))"

definition load_client_config ::
    "(string \<Rightarrow> bytes res) \<Rightarrow> (bytes \<Rightarrow> sval option) \<Rightarrow> string \<Rightarrow> client_config res" where
  "load_client_config read_to_string parse_toml path =
     and_then (load_client_configs read_to_string parse_toml path) (\<lambda>configs.
     and_then (ensure (length configs = 1)
       (''client config '' @ path @ '' contains '' @ show_nat (length configs) @
        '' routes; use load_client_configs'')) (\<lambda>_.
       Inr (hd configs)))"

text \<open>\<^verbatim>\<open>value.get(key).and_then(toml::Value::as_bool)\<close>\<close>

definition toml_get_bool :: "sval \<Rightarrow> string \<Rightarrow> bool option" where
  "toml_get_bool v key = (case v of
      SMap m \<Rightarrow> (case map_of m key of Some (SBool b) \<Rightarrow> Some b | _ \<Rightarrow> None)
    | _ \<Rightarrow> None)"

definition load_central_client_bootstrap ::
    "(string \<Rightarrow> bytes res) \<Rightarrow> (bytes \<Rightarrow> sval option) \<Rightarrow> string \<Rightarrow>
     central_client_bootstrap option res" where
  "load_central_client_bootstrap read_to_string parse_toml path =
     and_then (add_context (''failed to read client config '' @ path) (read_to_string path)) (\<lambda>raw.
     and_then (add_context (''failed to parse client config '' @ path)
       (from_toml parse_toml Inr raw)) (\<lambda>value.
     if \<not> unwrap_or False (toml_get_bool value ''control_plane_config'') then Inr None
     else and_then (add_context (''failed to parse central bootstrap '' @ path)
       (from_toml parse_toml de_central_client_bootstrap raw)) (\<lambda>bootstrap.
       Inr (Some bootstrap))))"

section \<open>What validation establishes\<close>

text \<open>The policies that are accepted, as one predicate per part.\<close>

definition reserved_path :: "string \<Rightarrow> bool" where
  "reserved_path path \<longleftrightarrow> starts_with ''/_lfp/auth/'' path \<and> \<not> has_query_or_fragment path"

definition authorization_ok :: "client_authorization_config \<Rightarrow> bool" where
  "authorization_ok a \<longleftrightarrow>
     (bearer_enabled a \<or> oidc_enabled a) \<and> \<not> blank (az_issuer a) \<and>
     (bearer_enabled a \<longrightarrow>
       az_audiences a \<noteq> [] \<and> \<not> blank (az_jwks_cache_file a) \<and> az_algorithms a \<noteq> []) \<and>
     (oidc_enabled a \<longrightarrow>
       is_some_and (\<lambda>i. \<not> blank i) (az_oidc_client_id a) \<and> ''openid'' \<in> set (az_oidc_scopes a) \<and>
       reserved_path (az_oidc_callback_path a) \<and> reserved_path (az_oidc_logout_path a) \<and>
       az_oidc_callback_path a \<noteq> az_oidc_logout_path a \<and>
       \<not> blank (az_oidc_session_key_file a) \<and> 0 < unat (az_oidc_session_ttl_seconds a)) \<and>
     0 < unat (az_header_timeout_ms a) \<and> 8192 \<le> unat (az_max_header_bytes a)"

definition path_prefixes :: "backend_rule list \<Rightarrow> string list" where
  "path_prefixes rules = filter_map br_path_prefix rules"

definition client_config_ok :: "client_config \<Rightarrow> bool" where
  "client_config_ok c \<longleftrightarrow>
     (path_prefixes (cl_backend_rules c) \<noteq> [] \<or> cl_authorization c \<noteq> None \<or>
      (\<exists>r\<in>set (cl_backend_rules c). br_authorization r \<noteq> None) \<longrightarrow> cl_acme c \<noteq> None) \<and>
     (path_prefixes (cl_backend_rules c) \<noteq> [] \<longrightarrow>
       (\<exists>!i. i < length (cl_backend_rules c) \<and> br_path_prefix (cl_backend_rules c ! i) = None)) \<and>
     distinct (path_prefixes (cl_backend_rules c)) \<and>
     (\<forall>p\<in>set (path_prefixes (cl_backend_rules c)).
        starts_with ''/'' p \<and> \<not> has_query_or_fragment p) \<and>
     (\<forall>r\<in>set (cl_backend_rules c). \<forall>a. br_authorization r = Some a \<longrightarrow> authorization_ok a) \<and>
     (\<forall>a. cl_authorization c = Some a \<longrightarrow> authorization_ok a)"

section \<open>Lemmas\<close>

lemma path_prefixes_Nil: "path_prefixes rs = [] \<longleftrightarrow> (\<forall>r\<in>set rs. br_path_prefix r = None)"
  by (induction rs) (auto simp: path_prefixes_def split: option.splits)

lemma set_path_prefixes: "p \<in> set (path_prefixes rs) \<longleftrightarrow> (\<exists>r\<in>set rs. br_path_prefix r = Some p)"
  by (induction rs) (auto simp: path_prefixes_def split: option.splits)

lemma path_prefixes_Cons [simp]:
  "path_prefixes [] = []"
  "path_prefixes (r # rs) = (case br_path_prefix r of None \<Rightarrow> path_prefixes rs
     | Some p \<Rightarrow> p # path_prefixes rs)"
  by (auto simp: path_prefixes_def split: option.splits)

text \<open>Exactly one element satisfies \<open>P\<close>, by position.\<close>

lemma length_filter_one: "length (filter P xs) = 1 \<longleftrightarrow> (\<exists>!i. i < length xs \<and> P (xs ! i))"
proof -
  have "length (filter P xs) = card {i. i < length xs \<and> P (xs ! i)}"
    by (rule length_filter_conv_card)
  moreover have "card A = 1 \<longleftrightarrow> (\<exists>!i. i \<in> A)" for A :: "nat set"
    by (simp add: card_1_singleton_iff) blast
  ultimately show ?thesis by simp
qed

lemma validate_authorization_iff: "validate_authorization a = Inr () \<longleftrightarrow> authorization_ok a"
  by (auto simp: validate_authorization_def authorization_ok_def reserved_path_def
      validate_reserved_path_def res_simps word_gt_0 unat_gt_0 word_le_nat_alt
      is_some_and_def unwrap_or_def split: option.splits if_splits)

lemma validate_rules_iff:
  "validate_rules seen rules = Inr u \<longleftrightarrow>
     distinct (path_prefixes rules) \<and> set (path_prefixes rules) \<inter> seen = {} \<and>
     (\<forall>p\<in>set (path_prefixes rules). starts_with ''/'' p \<and> \<not> has_query_or_fragment p) \<and>
     (\<forall>r\<in>set rules. \<forall>a. br_authorization r = Some a \<longrightarrow> authorization_ok a)"
proof (induction rules arbitrary: seen)
  case Nil
  then show ?case by simp
next
  case (Cons r rules)
  then show ?case
    by (cases "br_path_prefix r"; cases "br_authorization r")
      (auto simp: res_simps validate_authorization_iff)
qed

lemma bex_not_None: "(\<exists>x\<in>A. f x \<noteq> None) \<longleftrightarrow> \<not> (\<forall>x\<in>A. f x = None)"
  by auto

lemma validate_client_config_correct: "validate_client_config c = Inr () \<longleftrightarrow> client_config_ok c"
proof -
  have "(case cl_authorization c of None \<Rightarrow> Inr () | Some a \<Rightarrow> validate_authorization a) = Inr () \<longleftrightarrow>
      (\<forall>a. cl_authorization c = Some a \<longrightarrow> authorization_ok a)"
    by (cases "cl_authorization c") (simp_all add: validate_authorization_iff)
  moreover have one: "length (filter (\<lambda>r. br_path_prefix r = None) (cl_backend_rules c)) = 1 \<longleftrightarrow>
      (\<exists>!i. i < length (cl_backend_rules c) \<and> br_path_prefix (cl_backend_rules c ! i) = None)"
    by (rule length_filter_one)
  ultimately show ?thesis
    unfolding validate_client_config_def client_config_ok_def Let_def one [symmetric]
    by (simp only: and_then_eq_Inr ensure_eq_Inr validate_rules_iff path_prefixes_Nil Int_empty_right
        bex_not_None simp_thms ex_simps) argo
qed

text \<open>The SNI table.\<close>

definition sni_key :: "sni_passthrough_route \<Rightarrow> string" where
  "sni_key route = to_ascii_lowercase (trim (sp_hostname route))"

lemma validate_sni_routes_iff:
  "validate_sni_routes seen routes = Inr () \<longleftrightarrow>
     distinct (map sni_key routes) \<and> set (map sni_key routes) \<inter> seen = {} \<and>
     (\<forall>r\<in>set routes. sni_key r \<noteq> [] \<and> \<not> blank (sp_backend_addr r))"
proof (induction routes arbitrary: seen)
  case Nil
  then show ?case by simp
next
  case (Cons r routes)
  then show ?case by (auto simp: res_simps Let_def sni_key_def)
qed

lemma inherit_authorization_rules:
  assumes "r \<in> set (cl_backend_rules (inherit_authorization c))" "br_path_prefix r \<noteq> None"
    "br_authorization r = None"
  shows "cl_authorization c = None"
  using assms by (auto simp: inherit_authorization_def split: if_splits)

lemma parse_client_configs_InrD:
  assumes "parse_client_configs parse_toml raw = Inr cs"
  shows "\<forall>c\<in>set cs. client_config_ok c" "cs \<noteq> []" "distinct (map cl_client_id cs)"
proof -
  from assms obtain doc where doc: "(case doc of Legacy c \<Rightarrow> Inr [inherit_authorization c]
      | MultiRoute d \<Rightarrow> add_context ''invalid multi-route client config'' (expand_client_routes d)) = Inr cs"
    and valid: "for_each_res validate_client_config cs = Inr ()"
    by (auto simp: parse_client_configs_def res_simps)
  from valid show "\<forall>c\<in>set cs. client_config_ok c"
    by (simp add: for_each_res_Inr_iff validate_client_config_correct)
  have "cs \<noteq> [] \<and> distinct (map cl_client_id cs)"
  proof (cases doc)
    case (Legacy c)
    with doc show ?thesis by auto
  next
    case (MultiRoute d)
    with doc have e: "expand_client_routes d = Inr cs" by (simp add: add_context_eq_Inr)
    have "map cl_client_id cs = map rt_client_id (mr_routes d)" if
      "list_all2 (\<lambda>r c. expand_client_route (mr_defaults d) r = Inr c) (mr_routes d) cs"
      using that by (induction rule: list_all2_induct) (auto dest: expand_client_route_InrD(1))
    with e show ?thesis
      by (auto simp: expand_client_routes_def expand_from_Inr and_then_eq_Inr ensure_eq_Inr)
  qed
  then show "cs \<noteq> []" "distinct (map cl_client_id cs)" by simp_all
qed

section \<open>Properties\<close>

text \<open>C23: the client validation accepts exactly the configurations that are safe to run: path
  routing and authorization only with a certificate, one fallback rule beside the path
  rules, well-formed and distinct path prefixes, and policies that name an issuer, an
  audience and an algorithm for bearer tokens and distinct reserved paths, the
  \<^verbatim>\<open>openid\<close> scope and a session key for browser login.\<close>

theorem validate_client_config_iff: "validate_client_config c = Inr () \<longleftrightarrow> client_config_ok c"
  by (rule validate_client_config_correct)

text \<open>C22: whatever document is parsed, local or received from the control plane, and in either
  shape, the result is a non-empty list of accepted configurations with distinct client ids;
  for a document of the legacy shape, every path rule of a protected client is protected.\<close>

theorem parse_client_configs_safe:
  assumes "parse_client_config_document parse_toml raw = Inr configs"
  shows "configs \<noteq> [] \<and> distinct (map cl_client_id configs) \<and> (\<forall>c\<in>set configs. client_config_ok c) \<and>
    (\<forall>c v. parse_toml raw = Some v \<and> de_client_config_document v = Inr (Legacy c) \<longrightarrow>
      configs = [inherit_authorization c] \<and>
      (\<forall>r\<in>set (cl_backend_rules (hd configs)).
         br_path_prefix r \<noteq> None \<and> cl_authorization c \<noteq> None \<longrightarrow> br_authorization r \<noteq> None))"
proof -
  have p: "parse_client_configs parse_toml raw = Inr configs"
    using assms by (simp add: parse_client_config_document_def)
  have "configs = [inherit_authorization c]"
    if "parse_toml raw = Some v" "de_client_config_document v = Inr (Legacy c)" for c v
    using p that by (auto simp: parse_client_configs_def from_toml_def res_simps)
  then show ?thesis
    using parse_client_configs_InrD [OF p] inherit_authorization_rules by fastforce
qed

theorem parse_client_configs_safe_witness:
  "\<exists>c. parse_client_config_document
         (\<lambda>_. Some (SMap [(''client_id'', SStr ''a''), (''nats_url'', SStr ''n''), (''backend_rules'', SSeq [])])) [] =
       Inr [c] \<and> client_config_ok c"
proof -
  let ?v = "SMap [(''client_id'', SStr ''a''), (''nats_url'', SStr ''n''), (''backend_rules'', SSeq [])]"
  obtain c where "de_client_config_document ?v = Inr (Legacy c)" "cl_backend_rules c = []"
    "cl_authorization c = None"
    by (auto simp: de_client_config_document_def de_multi_route_client_config_def de_client_config_def
        struct_fields_def field_defs serde_error_def)
  then have "parse_client_config_document (\<lambda>_. Some ?v) [] = Inr [inherit_authorization c]"
    by (simp add: parse_client_config_document_def parse_client_configs_def from_toml_def
        inherit_authorization_def validate_client_config_def)
  with parse_client_configs_safe [OF this] show ?thesis by auto
qed

text \<open>The command line and the environment win over the file, value by value: a given
  override replaces the value, an absent one leaves it, an empty callback address or token
  file clears it, nothing else of the configuration changes, and applying the same overrides
  twice is applying them once.\<close>

theorem overrides_win:
  "ic_public_listen (ingress_with_overrides c o1) = unwrap_or (ic_public_listen c) (io_public_listen o1) \<and>
   ic_max_ingress_connections (ingress_with_overrides c o1) =
     unwrap_or (ic_max_ingress_connections c) (io_max_ingress_connections o1) \<and>
   ingress_callback_addr (ingress_with_overrides c (o1\<lparr>io_advertised_data_addr := Some []\<rparr>)) =
     unwrap_or (ic_data_listen c) (io_data_listen o1) \<and>
   ic_sni_passthrough_routes (ingress_with_overrides c o1) = ic_sni_passthrough_routes c \<and>
   ingress_with_overrides (ingress_with_overrides c o1) o1 = ingress_with_overrides c o1 \<and>
   cl_nats_token_file (client_with_overrides d (o2\<lparr>co_nats_token_file := Some []\<rparr>)) = None \<and>
   cl_backend_rules (client_with_overrides d o2) = cl_backend_rules d \<and>
   cl_authorization (client_with_overrides d o2) = cl_authorization d \<and>
   client_with_overrides (client_with_overrides d o2) o2 = client_with_overrides d o2"
  by (simp add: ingress_with_overrides_def client_with_overrides_def ingress_callback_addr_def
      unwrap_or_def non_empty_def split: option.splits)

text \<open>The loopback shorthand: a bare port and a port behind a colon name the same loopback
  address, surrounding white space is dropped, and resolving twice changes nothing.\<close>

theorem loopback_shorthand:
  assumes "port \<noteq> []" "list_all is_ascii_digit port"
  shows "resolve_loopback_shorthand port = ''127.0.0.1:'' @ port \<and>
    resolve_loopback_shorthand ('':'' @ port) = ''127.0.0.1:'' @ port \<and>
    resolve_loopback_shorthand (''127.0.0.1:'' @ port) = ''127.0.0.1:'' @ port"
proof -
  have digit: "in_range 0x21 0x7E c" if "c \<in> set port" for c
    using that assms(2) by (auto simp: list_all_iff is_ascii_digit_def in_range_def)
  have "trim (x @ port) = x @ port" if "x = [] \<or> in_range 0x21 0x7E (hd x)" for x
    using that assms(1) digit hd_in_set [OF assms(1)] last_in_set [OF assms(1)]
    by (intro trim_id) (auto simp: hd_append)
  from this [of "[]"] this [of "'':''"] this [of "''127.0.0.1:''"] show ?thesis
    using assms by (simp add: resolve_loopback_shorthand_def Let_def in_range_def is_ascii_digit_def
        byte_val_def starts_with_def)
qed

theorem loopback_shorthand_witness: "resolve_loopback_shorthand ''8080'' = ''127.0.0.1:8080''"
  using loopback_shorthand [of "''8080''"] by (simp add: is_ascii_digit_def byte_val_def)

end
