(* ===== verification/Net.thy ===== *)
theory Net
  imports Rust_Str
begin

text \<open>
  Sockets and deadlines as the components see them (\<^verbatim>\<open>tokio\<close>): a socket is the list of what the
  peer will still send before the deadline at hand, a segment of bytes, the end of the
  stream, or an I/O error. Reading from an exhausted list never completes (\<open>Pending\<close>), and
  \<^verbatim>\<open>timeout(deadline, future)\<close> turns that into an error.
\<close>

datatype net_event = Data bytes | Eof | Io_fail io_kind

type_synonym socket = "net_event list"

datatype 'a poll = Pending | Ready 'a

datatype read_result = Blocked | Got bytes socket | Failed io_kind

text \<open>\<^verbatim>\<open>AsyncReadExt::read\<close> into a buffer of \<open>n\<close> bytes: at most \<open>n\<close> bytes of the next segment;
  no bytes at the end of the stream, or when there is no room.\<close>

fun sock_read :: "nat \<Rightarrow> socket \<Rightarrow> read_result" where
  "sock_read n [] = (if n = 0 then Got [] [] else Blocked)"
| "sock_read n (Data d # es) =
     (if n = 0 then Got [] (Data d # es)
      else if d = [] then sock_read n es
      else Got (take n d) (if length d \<le> n then es else Data (drop n d) # es))"
| "sock_read n (Eof # es) = Got [] (Eof # es)"
| "sock_read n (Io_fail k # es) = (if n = 0 then Got [] (Io_fail k # es) else Failed k)"

text \<open>The bytes still to come, and whether the stream ends properly after them.\<close>

fun stream_bytes :: "socket \<Rightarrow> bytes" where
  "stream_bytes [] = []"
| "stream_bytes (Data d # es) = d @ stream_bytes es"
| "stream_bytes (Eof # es) = []"
| "stream_bytes (Io_fail k # es) = []"

fun closes :: "socket \<Rightarrow> bool" where
  "closes [] = False"
| "closes (Data d # es) = closes es"
| "closes (Eof # es) = True"
| "closes (Io_fail k # es) = False"

definition timeout_context :: "string \<Rightarrow> ('a res \<times> 's) poll \<Rightarrow> 's \<Rightarrow> 'a res \<times> 's" where
  "timeout_context m p s = (case p of
      Pending \<Rightarrow> (Inl [Msg m, Ext_cause ''deadline has elapsed''], s)
    | Ready r \<Rightarrow> r)"

section \<open>Lemmas\<close>

lemma sock_read_Got:
  "sock_read n es = Got d es' \<Longrightarrow>
     length d \<le> n \<and> stream_bytes es = d @ stream_bytes es' \<and> (closes es \<longleftrightarrow> closes es')"
  by (induction n es rule: sock_read.induct) (auto split: if_splits)

lemma sock_read_closed:
  "closes es \<Longrightarrow> 0 < n \<Longrightarrow>
     (\<exists>d es'. sock_read n es = Got d es' \<and> (d = [] \<longleftrightarrow> stream_bytes es = []))"
  by (induction n es rule: sock_read.induct) auto

lemma sock_read_Nil: "sock_read n es = Got [] es' \<Longrightarrow> 0 < n \<Longrightarrow> stream_bytes es = [] \<and> closes es"
  by (induction n es rule: sock_read.induct) (auto split: if_splits)

end
