(* ===== verification/Http_Host.thy ===== *)
theory Http_Host
  imports Rust_Str
begin

text \<open>
  Protocol sniffing on the first bytes of a connection: HTTP host detection
  (\<^verbatim>\<open>shared/src/http.rs\<close>) and the TLS record check (\<^verbatim>\<open>shared/src/tls.rs\<close>). The ClientHello
  parser of the crate \<^verbatim>\<open>clienthello\<close> is the parameter \<open>parse_hello\<close>, which returns the
  server name of a record or an error.
\<close>

definition CRLF2 :: bytes where
  "CRLF2 = [CHR 0x0D, CHR 0x0A, CHR 0x0D, CHR 0x0A]"

definition METHODS :: "bytes list" where
  "METHODS = [''GET '', ''POST '', ''HEAD '', ''PUT '', ''PATCH '', ''DELETE '', ''OPTIONS '',
     ''TRACE '', ''CONNECT '', ''PRI * HTTP/2.0'']"

definition looks_like_http_prefix :: "bytes \<Rightarrow> bool" where
  "looks_like_http_prefix payload \<longleftrightarrow>
     (\<exists>m\<in>set METHODS. starts_with payload m \<or> starts_with m payload)"

definition strip_port :: "bytes \<Rightarrow> bytes" where
  "strip_port host = (case strip_prefix ''['' host of
      Some stripped \<Rightarrow> hd (split_on (CHR '']'') stripped)
    | None \<Rightarrow> hd (split_on (CHR '':'') host))"

text \<open>The loop over the header lines: the first \<^verbatim>\<open>Host\<close> line decides.\<close>

fun host_of_lines :: "bytes list \<Rightarrow> bytes option" where
  "host_of_lines [] = None"
| "host_of_lines (l # ls) =
     (case split_once (CHR '':'') (trim_end_matches (CHR 0x0D) l) of
        None \<Rightarrow> host_of_lines ls
      | Some (name, value) \<Rightarrow>
          if eq_ignore_ascii_case name ''host'' then
            (let host = trim value in if host = [] then None else Some (strip_port host))
          else host_of_lines ls)"

definition extract_http_host :: "bytes \<Rightarrow> bytes option" where
  "extract_http_host payload =
     (if \<not> looks_like_http_prefix payload then None
      else (case find_window CRLF2 payload of
          None \<Rightarrow> None
        | Some i \<Rightarrow>
            let headers = take (i + 4) payload in
            if valid_utf8 headers then host_of_lines (drop 1 (str_lines headers)) else None))"

definition validate_tls_record_header :: "bytes \<Rightarrow> unit res" where
  "validate_tls_record_header r =
     (if length r < 5 then bail ''TLS record is too short''
      else if hd r \<noteq> CHR 0x16 then bail ''expected TLS handshake record''
      else Inr ())"

definition extract_sni :: "(bytes \<Rightarrow> bytes option res) \<Rightarrow> bytes \<Rightarrow> bytes option res" where
  "extract_sni parse_hello r = add_context ''failed to parse ClientHello'' (parse_hello r)"

section \<open>Lemmas\<close>

text \<open>Sniffing is monotone: bytes that no longer can become a request never do so again, so a
  decision against HTTP taken on a prefix is final.\<close>

lemma looks_like_http_prefix_mono:
  assumes "looks_like_http_prefix (a @ b)"
  shows "looks_like_http_prefix a"
proof -
  from assms obtain m where m: "m \<in> set METHODS"
    and c: "(\<exists>r. m = (a @ b) @ r) \<or> (\<exists>r. a @ b = m @ r)"
    by (auto simp: looks_like_http_prefix_def starts_with_iff)
  from c have "starts_with a m \<or> starts_with m a"
    by (auto simp: starts_with_iff append_eq_append_conv2)
  with m show ?thesis by (auto simp: looks_like_http_prefix_def)
qed

lemma looks_like_http_prefix_Nil [simp]: "looks_like_http_prefix []"
  unfolding looks_like_http_prefix_def
  by (rule bexI [of _ "''GET ''"]) (simp_all add: starts_with_iff METHODS_def)

lemma extract_http_host_SomeD:
  assumes "extract_http_host p = Some h"
  shows "looks_like_http_prefix p" "\<exists>u v. p = u @ CRLF2 @ v"
proof -
  from assms obtain i where "find_window CRLF2 p = Some i"
    by (auto simp: extract_http_host_def split: if_splits option.splits)
  then show "\<exists>u v. p = u @ CRLF2 @ v" using find_window_Some by blast
qed (use assms in \<open>auto simp: extract_http_host_def split: if_splits\<close>)

lemma set_strip_port: "set (strip_port host) \<subseteq> set host"
proof -
  have hd_split: "set (hd (split_on c s)) \<subseteq> set s" for c :: byte and s
    by (induction s) (auto split: list.splits)
  show ?thesis
    using hd_split by (fastforce simp: strip_port_def split: option.splits)
qed

lemma strip_port_no_colon:
  assumes "\<not> starts_with ''['' host"
  shows "CHR '':'' \<notin> set (strip_port host)"
proof -
  have "hd (split_on (CHR '':'') host) \<in> set (split_on (CHR '':'') host)" by simp
  then have "CHR '':'' \<notin> set (hd (split_on (CHR '':'') host))" by (rule split_on_pieces)
  moreover from assms have "strip_prefix ''['' host = None"
    unfolding starts_with_def by (cases "strip_prefix ''['' host") simp_all
  ultimately show ?thesis unfolding strip_port_def by simp
qed

lemma strip_port_host_port:
  assumes "CHR '':'' \<notin> set h" "\<not> starts_with ''['' h"
  shows "strip_port (h @ '':'' @ port) = h" "strip_port h = h"
proof -
  have p: "strip_prefix ''['' (h @ '':'' @ port) = None" "strip_prefix ''['' h = None"
    using assms by (cases h; auto simp: starts_with_iff)+
  show "strip_port (h @ '':'' @ port) = h"
    using assms(1) p by (simp add: strip_port_def split_on_append_sep)
  show "strip_port h = h"
    using assms(1) p by (simp add: strip_port_def split_on_no_sep)
qed

lemma strip_port_bracketed:
  "CHR '']'' \<notin> set h \<Longrightarrow> strip_port (''['' @ h @ '']'' @ rest) = h"
  by (simp add: strip_port_def split_on_append_sep)

text \<open>Searching for the blank line: lines without a carriage return are stepped over whole.\<close>

abbreviation CRLF :: bytes where
  "CRLF \<equiv> [CHR 0x0D, CHR 0x0A]"

definition header_line :: "bytes \<times> bytes \<Rightarrow> bytes" where
  "header_line h = fst h @ '':'' @ snd h"

definition http_head :: "bytes list \<Rightarrow> bytes" where
  "http_head ls = concat (map (\<lambda>l. l @ CRLF) ls) @ CRLF"

definition crlf_free :: "bytes \<Rightarrow> bool" where
  "crlf_free l \<longleftrightarrow> CHR 0x0D \<notin> set l \<and> CHR 0x0A \<notin> set l"

lemma find_window_append: "find_window p s = Some i \<Longrightarrow> find_window p (s @ t) = Some i"
proof (induction s arbitrary: i)
  case Nil
  then show ?case by (cases t) (auto split: if_splits)
next
  case (Cons x xs)
  show ?case
  proof (cases "starts_with p (x # xs)")
    case True
    then have "starts_with p ((x # xs) @ t)" by (auto simp: starts_with_iff simp del: append_Cons)
    with Cons.prems True show ?thesis by simp
  next
    case False
    with Cons.prems obtain j where j: "find_window p xs = Some j" "i = Suc j" by auto
    then obtain u v where "xs = u @ p @ v" using find_window_Some by blast
    then have "length p \<le> length (x # xs)" by simp
    with False have "\<not> starts_with p ((x # xs) @ t)"
      by (auto simp: starts_with_iff append_eq_append_conv2 simp del: append_Cons)
    with j Cons.IH show ?thesis by simp
  qed
qed

lemma find_blank_skip:
  "CHR 0x0D \<notin> set l \<Longrightarrow>
   find_window CRLF2 (l @ s) = map_option (\<lambda>i. length l + i) (find_window CRLF2 s)"
proof (induction l)
  case Nil
  then show ?case by (cases "find_window CRLF2 s") simp_all
next
  case (Cons c l)
  then have "\<not> starts_with CRLF2 (c # l @ s)" by (auto simp: CRLF2_def starts_with_iff)
  with Cons show ?case by (simp add: option.map_comp) (cases "find_window CRLF2 s"; simp)
qed

lemma find_blank_line:
  "ls \<noteq> [] \<Longrightarrow> (\<And>l. l \<in> set ls \<Longrightarrow> l \<noteq> [] \<and> crlf_free l) \<Longrightarrow>
   find_window CRLF2 (http_head ls @ body) = Some (length (http_head ls) - 4)"
proof (induction ls)
  case Nil
  then show ?case by simp
next
  case (Cons l ls)
  have l: "CHR 0x0D \<notin> set l" using Cons.prems(2) [of l] by (simp add: crlf_free_def)
  show ?case
  proof (cases ls)
    case Nil
    have "find_window CRLF2 (CRLF @ CRLF @ body) = Some 0"
      by (simp add: CRLF2_def starts_with_iff)
    with Nil show ?thesis using l by (simp add: http_head_def find_blank_skip)
  next
    case (Cons k ks)
    then obtain c k' where k: "k = c # k'" "c \<noteq> CHR 0x0D"
      using Cons.prems(2) [of k] by (cases k) (auto simp: crlf_free_def)
    have IH: "find_window CRLF2 (http_head ls @ body) = Some (length (http_head ls) - 4)"
      using Cons.IH Cons.prems \<open>ls = k # ks\<close> by simp
    have "4 \<le> length (http_head ls)" by (simp add: http_head_def Cons)
    moreover have "find_window CRLF2 (CRLF @ http_head ls @ body) =
        map_option (\<lambda>i. 2 + i) (find_window CRLF2 (http_head ls @ body))"
      using k by (simp add: CRLF2_def starts_with_iff http_head_def Cons option.map_comp comp_def)
    moreover have "http_head (l # ls) = l @ CRLF @ http_head ls"
      by (simp add: http_head_def)
    ultimately show ?thesis
      using l IH by (simp add: find_blank_skip)
  qed
qed

lemma strip_cr_line: "strip_cr (l @ [CHR 0x0D]) = l"
  by (simp add: strip_cr_def strip_suffix_def)

lemma str_lines_head:
  "(\<And>l. l \<in> set ls \<Longrightarrow> crlf_free l) \<Longrightarrow> str_lines (http_head ls) = ls @ [[]]"
proof (induction ls)
  case Nil
  then show ?case using strip_cr_line [of "[]"] by (simp add: str_lines_def http_head_def)
next
  case (Cons l ls)
  have "split_on (CHR 0x0A) (http_head (l # ls)) =
      (l @ [CHR 0x0D]) # split_on (CHR 0x0A) (http_head ls)"
    using Cons.prems [of l] split_on_append_sep [of "CHR 0x0A" "l @ [CHR 0x0D]" "http_head ls"]
    by (simp add: http_head_def crlf_free_def)
  moreover have "lines_of (x # split_on c s) = strip_cr x # lines_of (split_on c s)" for x c s
    by (cases "split_on c s") auto
  ultimately have "str_lines (http_head (l # ls)) = strip_cr (l @ [CHR 0x0D]) # str_lines (http_head ls)"
    by (simp add: str_lines_def)
  with Cons show ?case by (simp add: strip_cr_line)
qed

lemma trim_cr_id: "crlf_free l \<Longrightarrow> trim_end_matches (CHR 0x0D) l = l"
  unfolding trim_end_matches_def
  by (rule trim_end_while_id) (auto simp: crlf_free_def dest: last_in_set)

lemma host_of_lines_header:
  assumes "crlf_free (header_line (n, v))" "CHR '':'' \<notin> set n"
  shows "host_of_lines (header_line (n, v) # ls) =
    (if eq_ignore_ascii_case n ''host''
     then if blank v then None else Some (strip_port (trim v))
     else host_of_lines ls)"
proof -
  have "split_once (CHR '':'') (header_line (n, v)) = Some (n, v)"
    using assms(2) by (simp add: header_line_def)
  then show ?thesis
    by (simp only: host_of_lines.simps trim_cr_id [OF assms(1)] Let_def option.case prod.case)
qed

lemma host_of_lines_skip:
  "(\<And>h. h \<in> set hs \<Longrightarrow> crlf_free (header_line h) \<and> CHR '':'' \<notin> set (fst h) \<and>
      \<not> eq_ignore_ascii_case (fst h) ''host'') \<Longrightarrow>
   host_of_lines (map header_line hs @ ls) = host_of_lines ls"
proof (induction hs)
  case Nil
  then show ?case by simp
next
  case (Cons h hs)
  then have "host_of_lines (header_line (fst h, snd h) # map header_line hs @ ls) =
      host_of_lines (map header_line hs @ ls)"
    by (subst host_of_lines_header) simp_all
  with Cons show ?case by simp
qed

lemma crlf_not_in_methods: "m \<in> set METHODS \<Longrightarrow> CHR 0x0A \<notin> set m"
  by (auto simp: METHODS_def)

text \<open>A block that has reached its blank line is no proper prefix of a method any more.\<close>

lemma complete_head_has_method:
  assumes "looks_like_http_prefix p" "CHR 0x0A \<in> set p"
  shows "\<exists>m\<in>set METHODS. starts_with m p"
  using assms crlf_not_in_methods
  by (fastforce simp: looks_like_http_prefix_def starts_with_iff)

lemma extract_http_host_extend:
  assumes "looks_like_http_prefix a" "find_window CRLF2 a = Some i"
  shows "extract_http_host (a @ b) = extract_http_host a"
proof -
  obtain u v where "a = u @ CRLF2 @ v" "length u = i" using find_window_Some [OF assms(2)] by blast
  then have "i + 4 \<le> length a" "CHR 0x0A \<in> set a" by (simp_all add: CRLF2_def)
  moreover from this obtain m r where "m \<in> set METHODS" "a = m @ r"
    using complete_head_has_method [OF assms(1)] by (auto simp: starts_with_iff)
  then have "looks_like_http_prefix (a @ b)"
    by (auto simp: looks_like_http_prefix_def starts_with_iff)
  ultimately show ?thesis
    using assms find_window_append [OF assms(2)] by (simp add: extract_http_host_def)
qed

section \<open>Properties\<close>

text \<open>For a request whose request line begins with a known method, the host found is the one
  of the first \<^verbatim>\<open>Host\<close> header, wherever it stands, in whatever case its name is written, with
  surrounding white space and the port removed; an empty \<^verbatim>\<open>Host\<close> value gives no host. Bytes
  after the blank line play no part.\<close>

theorem extract_http_host_request:
  assumes "m \<in> set METHODS" "starts_with m request_line"
    and "list_all crlf_free (request_line # map header_line (pre @ (name, value) # post))"
    and "list_all (\<lambda>h. CHR '':'' \<notin> set (fst h) \<and> \<not> eq_ignore_ascii_case (fst h) ''host'') pre"
    and "CHR '':'' \<notin> set name" "eq_ignore_ascii_case name ''host''"
    and "valid_utf8 (http_head (request_line # map header_line (pre @ (name, value) # post)))"
  shows "extract_http_host
           (http_head (request_line # map header_line (pre @ (name, value) # post)) @ body) =
         (if blank value then None else Some (strip_port (trim value)))"
proof -
  let ?ls = "request_line # map header_line (pre @ (name, value) # post)"
  have "request_line \<noteq> []" using assms(1,2) by (auto simp: METHODS_def starts_with_iff)
  then have ne: "l \<noteq> [] \<and> crlf_free l" if "l \<in> set ?ls" for l
    using that assms(3) by (auto simp: header_line_def list_all_iff)
  have w: "find_window CRLF2 (http_head ?ls @ body) = Some (length (http_head ?ls) - 4)"
    using ne by (intro find_blank_line) simp_all
  have "4 \<le> length (http_head ?ls)" by (simp add: http_head_def)
  then have t: "take (length (http_head ?ls) - 4 + 4) (http_head ?ls @ body) = http_head ?ls" by simp
  have like: "looks_like_http_prefix (http_head ?ls @ body)"
    using assms(1,2) by (force simp: looks_like_http_prefix_def starts_with_iff http_head_def)
  have "drop 1 (str_lines (http_head ?ls)) =
      map header_line pre @ header_line (name, value) # map header_line post @ [[]]"
    using str_lines_head [of ?ls] ne by simp
  then have "host_of_lines (drop 1 (str_lines (http_head ?ls))) =
      (if blank value then None else Some (strip_port (trim value)))"
    using assms(3-6)
    by (simp only:) (subst host_of_lines_skip,
      auto simp: host_of_lines_header list_all_iff simp del: host_of_lines.simps)
  then show ?thesis
    using like assms(7) by (simp only: extract_http_host_def w Let_def t option.case if_True not_True_eq_False if_False)
qed

theorem extract_http_host_request_witness:
  "extract_http_host (http_head [''GET / HTTP/1.1'', ''Accept:*/*'', ''HOST: example.com:8080 ''] @ ''x'') =
   Some ''example.com''"
proof -
  have "trim '' example.com:8080 '' = ''example.com:8080''" by code_simp
  moreover have "strip_port ''example.com:8080'' = ''example.com''" by code_simp
  moreover have "valid_utf8 (http_head [''GET / HTTP/1.1'', ''Accept:*/*'', ''HOST: example.com:8080 ''])"
    by code_simp
  moreover have "eq_ignore_ascii_case ''HOST'' ''host''" "\<not> eq_ignore_ascii_case ''Accept'' ''host''"
    by code_simp+
  ultimately show ?thesis
    using extract_http_host_request [of "''GET ''" "''GET / HTTP/1.1''" "[(''Accept'', ''*/*'')]" "''HOST''"
        "'' example.com:8080 ''" "[]" "''x''"]
    by (simp add: METHODS_def crlf_free_def header_line_def starts_with_def)
qed

text \<open>Sniffing decisions are final, so reading more bytes never changes them: bytes that cannot
  become a request stay so, and a host once found is found again, the same, in any longer
  input.\<close>

theorem http_sniffing_stable:
  "(\<not> looks_like_http_prefix a \<longrightarrow> \<not> looks_like_http_prefix (a @ b)) \<and>
   (extract_http_host a = Some h \<longrightarrow> extract_http_host (a @ b) = Some h)"
proof (intro conjI impI)
  show "\<not> looks_like_http_prefix (a @ b)" if "\<not> looks_like_http_prefix a"
    using that looks_like_http_prefix_mono by blast
next
  assume a: "extract_http_host a = Some h"
  then obtain i where "find_window CRLF2 a = Some i"
    by (auto simp: extract_http_host_def split: if_splits option.splits)
  with a show "extract_http_host (a @ b) = Some h"
    using extract_http_host_extend extract_http_host_SomeD(1) by metis
qed

theorem http_sniffing_stable_witness:
  "\<not> looks_like_http_prefix (''SSH-'' @ ''2.0'') \<and>
   extract_http_host (''GET / HTTP/1.1'' @ CRLF @ ''Host: a.b'' @ CRLF2 @ ''body'') = Some ''a.b''"
proof -
  have "\<not> looks_like_http_prefix ''SSH-''" by code_simp
  moreover have "extract_http_host (''GET / HTTP/1.1'' @ CRLF @ ''Host: a.b'' @ CRLF2) = Some ''a.b''"
    by code_simp
  ultimately show ?thesis
    using http_sniffing_stable [of "''SSH-''" "''2.0''"]
      http_sniffing_stable [of "''GET / HTTP/1.1'' @ CRLF @ ''Host: a.b'' @ CRLF2" "''body''" "''a.b''"]
    by (simp only: append.assoc) simp
qed

end
