(* ===== verification/Protocol.thy ===== *)
theory Protocol
  imports Serde
begin

text \<open>
  The JSON messages of the NATS control plane (\<^verbatim>\<open>shared/src/protocol.rs\<close>): the three structs,
  their derived serialisation with the attributes of the source, and the two codec
  functions. \<open>to_text\<close> and \<open>from_text\<close> stand for the text layer of \<^verbatim>\<open>serde_json\<close>.
\<close>

record connection_request =
  cr_connection_id :: string
  cr_hostname :: "string option"
  cr_client_ip :: "string option"
  cr_tls :: bool
  cr_reply_subject :: string
  cr_ingress_callback_addr :: string
  cr_deadline_unix_ms :: u64

record connection_claim =
  cc_client_id :: string
  cc_connection_id :: string

record connection_claim_ack =
  ack_accepted :: bool
  ack_client_id :: string
  ack_connection_id :: string
  ack_reason :: "string option"

section \<open>Derived serialisation\<close>

definition ser_connection_request :: "connection_request \<Rightarrow> sval" where
  "ser_connection_request r = SMap
     [(''connection_id'', SStr (cr_connection_id r)),
      (''hostname'', ser_option SStr (cr_hostname r)),
      (''client_ip'', ser_option SStr (cr_client_ip r)),
      (''tls'', SBool (cr_tls r)),
      (''reply_subject'', SStr (cr_reply_subject r)),
      (''server_data_addr'', SStr (cr_ingress_callback_addr r)),
      (''deadline_unix_ms'', ser_word (cr_deadline_unix_ms r))]"

definition de_connection_request :: "connection_request decoder" where
  "de_connection_request v =
     and_then (struct_fields [(''connection_id'', False), (''hostname'', False),
         (''client_ip'', True), (''tls'', True), (''reply_subject'', False),
         (''server_data_addr'', False), (''deadline_unix_ms'', False)] v) (\<lambda>m.
     and_then (req_field ''connection_id'' de_string m) (\<lambda>connection_id.
     and_then (opt_field ''hostname'' de_string m) (\<lambda>hostname.
     and_then (opt_field ''client_ip'' de_string m) (\<lambda>client_ip.
     and_then (default_field ''tls'' False de_bool m) (\<lambda>tls.
     and_then (req_field ''reply_subject'' de_string m) (\<lambda>reply_subject.
     and_then (req_field ''server_data_addr'' de_string m) (\<lambda>ingress_callback_addr.
     and_then (req_field ''deadline_unix_ms'' de_word m) (\<lambda>deadline_unix_ms.
       Inr \<lparr>cr_connection_id = connection_id, cr_hostname = hostname,
            cr_client_ip = client_ip, cr_tls = tls, cr_reply_subject = reply_subject,
            cr_ingress_callback_addr = ingress_callback_addr,
            cr_deadline_unix_ms = deadline_unix_ms\<rparr>))))))))"

definition ser_connection_claim :: "connection_claim \<Rightarrow> sval" where
  "ser_connection_claim c = SMap
     [(''client_id'', SStr (cc_client_id c)), (''connection_id'', SStr (cc_connection_id c))]"

definition de_connection_claim :: "connection_claim decoder" where
  "de_connection_claim v =
     and_then (struct_fields [(''client_id'', False), (''connection_id'', False)] v) (\<lambda>m.
     and_then (req_field ''client_id'' de_string m) (\<lambda>client_id.
     and_then (req_field ''connection_id'' de_string m) (\<lambda>connection_id.
       Inr \<lparr>cc_client_id = client_id, cc_connection_id = connection_id\<rparr>)))"

definition ser_connection_claim_ack :: "connection_claim_ack \<Rightarrow> sval" where
  "ser_connection_claim_ack a = SMap
     [(''accepted'', SBool (ack_accepted a)), (''client_id'', SStr (ack_client_id a)),
      (''connection_id'', SStr (ack_connection_id a)),
      (''reason'', ser_option SStr (ack_reason a))]"

definition de_connection_claim_ack :: "connection_claim_ack decoder" where
  "de_connection_claim_ack v =
     and_then (struct_fields [(''accepted'', False), (''client_id'', False),
         (''connection_id'', False), (''reason'', False)] v) (\<lambda>m.
     and_then (req_field ''accepted'' de_bool m) (\<lambda>accepted.
     and_then (req_field ''client_id'' de_string m) (\<lambda>client_id.
     and_then (req_field ''connection_id'' de_string m) (\<lambda>connection_id.
     and_then (opt_field ''reason'' de_string m) (\<lambda>reason.
       Inr \<lparr>ack_accepted = accepted, ack_client_id = client_id,
            ack_connection_id = connection_id, ack_reason = reason\<rparr>)))))"

section \<open>Codec functions\<close>

definition encode_json :: "(sval \<Rightarrow> bytes) \<Rightarrow> ('a \<Rightarrow> sval) \<Rightarrow> 'a \<Rightarrow> bytes" where
  "encode_json to_text ser value = to_text (ser value)"

definition decode_json :: "(bytes \<Rightarrow> sval option) \<Rightarrow> 'a decoder \<Rightarrow> bytes \<Rightarrow> 'a res" where
  "decode_json from_text de payload =
     add_context ''failed to parse JSON payload''
       (case from_text payload of None \<Rightarrow> serde_error ''syntax'' | Some v \<Rightarrow> de v)"

section \<open>Lemmas\<close>

lemma de_ser_connection_request [simp]:
  "de_connection_request (ser_connection_request r) = Inr r"
  by (cases "cr_hostname r"; cases "cr_client_ip r")
    (simp_all add: de_connection_request_def ser_connection_request_def struct_fields_def
      field_defs ser_option_def ser_word_def [symmetric])

lemma de_ser_connection_claim [simp]:
  "de_connection_claim (ser_connection_claim c) = Inr c"
  by (simp add: de_connection_claim_def ser_connection_claim_def struct_fields_def field_defs)

lemma de_ser_connection_claim_ack [simp]:
  "de_connection_claim_ack (ser_connection_claim_ack a) = Inr a"
  by (cases "ack_reason a")
    (simp_all add: de_connection_claim_ack_def ser_connection_claim_ack_def struct_fields_def
      field_defs ser_option_def)

lemma decode_encode_json:
  assumes "\<And>v. from_text (to_text v) = Some v" and "\<And>x. de (ser x) = Inr x"
  shows "decode_json from_text de (encode_json to_text ser x) = Inr x"
  by (simp add: decode_json_def encode_json_def assms)

text \<open>
  A text layer for witnesses: every document is printed as a run of one byte whose length
  is the document's index. It reads back everything it prints, which is all the theorems
  ask of \<^verbatim>\<open>serde_json\<close>.
\<close>

definition unary_text :: "sval \<Rightarrow> bytes" where
  "unary_text v = replicate (Suc (to_nat v)) (CHR ''1'')"

definition unary_parse :: "bytes \<Rightarrow> sval option" where
  "unary_parse s = (if s = [] then None else Some (from_nat (length s - 1)))"

lemma unary_parse_text [simp]: "unary_parse (unary_text v) = Some v"
  by (simp add: unary_parse_def unary_text_def)

lemma unary_text_nonempty: "unary_text v \<noteq> []"
  by (simp add: unary_text_def)

section \<open>Properties\<close>

text \<open>Every control message (request, claim and acknowledgement) survives the wire: what the
  sender encodes is what the receiver decodes, for any text layer that reads back what it
  writes.\<close>

theorem protocol_round_trip:
  assumes "\<And>v. from_text (to_text v) = Some v"
  shows "decode_json from_text de_connection_request
           (encode_json to_text ser_connection_request r) = Inr r \<and>
         decode_json from_text de_connection_claim
           (encode_json to_text ser_connection_claim c) = Inr c \<and>
         decode_json from_text de_connection_claim_ack
           (encode_json to_text ser_connection_claim_ack a) = Inr a"
  by (intro conjI decode_encode_json) (simp_all add: assms)

theorem protocol_round_trip_witness:
  "decode_json unary_parse de_connection_claim
     (encode_json unary_text ser_connection_claim
       \<lparr>cc_client_id = ''client-a'', cc_connection_id = ''conn-1''\<rparr>) =
   Inr \<lparr>cc_client_id = ''client-a'', cc_connection_id = ''conn-1''\<rparr>"
  using protocol_round_trip [of unary_parse unary_text] by simp

text \<open>A request published by a build that knew neither \<^verbatim>\<open>client_ip\<close> nor \<^verbatim>\<open>tls\<close> is still
  accepted, as a plain request without a client address; the field that carries the callback
  address is called \<^verbatim>\<open>server_data_addr\<close> on the wire, and a document without it is refused.\<close>

theorem connection_request_legacy:
  "de_connection_request (SMap
     [(''connection_id'', SStr i), (''hostname'', ser_option SStr h), (''reply_subject'', SStr s),
      (''server_data_addr'', SStr a), (''deadline_unix_ms'', ser_word d)]) =
   Inr \<lparr>cr_connection_id = i, cr_hostname = h, cr_client_ip = None, cr_tls = False,
        cr_reply_subject = s, cr_ingress_callback_addr = a, cr_deadline_unix_ms = d\<rparr> \<and>
   de_connection_request (SMap
     [(''connection_id'', SStr i), (''hostname'', ser_option SStr h), (''reply_subject'', SStr s),
      (''ingress_callback_addr'', SStr a), (''deadline_unix_ms'', ser_word d)]) =
   serde_error ''missing field server_data_addr''"
  by (cases h) (simp_all add: de_connection_request_def struct_fields_def field_defs
      ser_option_def serde_error_def ser_word_def [symmetric])

end
