(* ===== verification/Prefix_Line.thy ===== *)
theory Prefix_Line
  imports Protocol
begin

text \<open>
  The callback prefix (\<^verbatim>\<open>shared/src/prefix.rs\<close>): the first line a client sends on a callback
  socket, base64 over JSON, which binds the socket to a pending ingress connection.
  \<open>to_text\<close>/\<open>from_text\<close> stand for \<^verbatim>\<open>serde_json\<close> and \<open>b64_encode\<close>/\<open>b64_decode\<close> for the
  \<^verbatim>\<open>STANDARD\<close> engine of the \<^verbatim>\<open>base64\<close> crate.
\<close>

record prefix_envelope =
  pe_version :: u16
  pe_client_id :: string
  pe_connection_id :: string

definition CURRENT_VERSION :: u16 where
  "CURRENT_VERSION = 1"

definition prefix_new :: "string \<Rightarrow> string \<Rightarrow> prefix_envelope" where
  "prefix_new client_id connection_id =
     \<lparr>pe_version = CURRENT_VERSION, pe_client_id = client_id,
      pe_connection_id = connection_id\<rparr>"

definition ser_prefix_envelope :: "prefix_envelope \<Rightarrow> sval" where
  "ser_prefix_envelope e = SMap
     [(''version'', ser_word (pe_version e)), (''client_id'', SStr (pe_client_id e)),
      (''connection_id'', SStr (pe_connection_id e))]"

definition de_prefix_envelope :: "prefix_envelope decoder" where
  "de_prefix_envelope v =
     and_then (struct_fields [(''version'', False), (''client_id'', False),
         (''connection_id'', False)] v) (\<lambda>m.
     and_then (req_field ''version'' de_word m) (\<lambda>version.
     and_then (req_field ''client_id'' de_string m) (\<lambda>client_id.
     and_then (req_field ''connection_id'' de_string m) (\<lambda>connection_id.
       Inr \<lparr>pe_version = version, pe_client_id = client_id,
            pe_connection_id = connection_id\<rparr>))))"

text \<open>\<^verbatim>\<open>serde_json::to_vec\<close> cannot fail on a struct of strings and integers, so the line is
  returned without the \<^verbatim>\<open>Result\<close>.\<close>

definition encode_line ::
    "(sval \<Rightarrow> bytes) \<Rightarrow> (bytes \<Rightarrow> bytes) \<Rightarrow> prefix_envelope \<Rightarrow> bytes" where
  "encode_line to_text b64_encode e = b64_encode (to_text (ser_prefix_envelope e)) @ [CHR 0x0A]"

definition decode_line ::
    "(bytes \<Rightarrow> sval option) \<Rightarrow> (bytes \<Rightarrow> bytes option) \<Rightarrow> bytes \<Rightarrow> prefix_envelope res" where
  "decode_line from_text b64_decode line =
     and_then (add_context ''prefix must be valid utf-8''
       (if valid_utf8 line then Inr line else Inl [Ext_cause ''utf8''])) (\<lambda>line.
     let trimmed = trim_end_matches (CHR 0x0D) (trim_end_matches (CHR 0x0A) line) in
     and_then (ensure (trimmed \<noteq> []) ''prefix line is empty'') (\<lambda>_.
     and_then (add_context ''prefix must be valid base64''
       (case b64_decode trimmed of None \<Rightarrow> Inl [Ext_cause ''base64''] | Some d \<Rightarrow> Inr d)) (\<lambda>decoded.
     and_then (add_context ''prefix JSON is invalid''
       (case from_text decoded of None \<Rightarrow> serde_error ''syntax'' | Some v \<Rightarrow> de_prefix_envelope v)) (\<lambda>envelope.
     and_then (ensure (pe_version envelope = CURRENT_VERSION)
       (''unsupported prefix version '' @ show_nat (unat (pe_version envelope)))) (\<lambda>_.
       Inr envelope)))))"

section \<open>Lemmas\<close>

text \<open>The alphabet of the standard base64 encoding.\<close>

definition b64_char :: "byte \<Rightarrow> bool" where
  "b64_char c \<longleftrightarrow>
     is_ascii_alphanumeric c \<or> c = CHR ''+'' \<or> c = CHR ''/'' \<or> c = CHR ''=''"

lemma b64_char_ascii: "b64_char c \<Longrightarrow> byte_val c < 128"
  by (auto simp: b64_char_def is_ascii_alphanumeric_def is_ascii_digit_def byte_val_def)

lemma b64_char_no_newline: "b64_char c \<Longrightarrow> c \<noteq> CHR 0x0A \<and> c \<noteq> CHR 0x0D"
  by (auto simp: b64_char_def is_ascii_alphanumeric_def is_ascii_digit_def byte_val_def)

lemma de_ser_prefix_envelope [simp]: "de_prefix_envelope (ser_prefix_envelope e) = Inr e"
  by (simp add: de_prefix_envelope_def ser_prefix_envelope_def struct_fields_def field_defs
      ser_word_def [symmetric])

lemma trim_line_ending:
  assumes "\<And>c. c \<in> set s \<Longrightarrow> b64_char c"
  shows "trim_end_matches (CHR 0x0D) (trim_end_matches (CHR 0x0A) (s @ [CHR 0x0A])) = s"
proof -
  have "s = [] \<or> last s \<noteq> CHR 0x0A" "s = [] \<or> last s \<noteq> CHR 0x0D"
    using assms b64_char_no_newline last_in_set by blast+
  then show ?thesis
    by (simp add: trim_end_matches_def trim_end_while_id)
qed

text \<open>What every successful decoding went through.\<close>

lemma decode_line_InrD:
  assumes "decode_line from_text b64_decode line = Inr e"
  shows "valid_utf8 line" "pe_version e = CURRENT_VERSION"
  using assms by (auto simp: decode_line_def Let_def res_simps split: if_splits)

lemma decode_encode_line:
  assumes txt_rt: "\<And>v. from_text (to_text v) = Some v" and nonempty: "\<And>v. to_text v \<noteq> []"
    and b64: "\<And>x. b64_decode (b64_encode x) = Some x"
    and alphabet: "\<And>x c. c \<in> set (b64_encode x) \<Longrightarrow> b64_char c"
    and b64_nonempty: "\<And>x. x \<noteq> [] \<Longrightarrow> b64_encode x \<noteq> []"
  shows "decode_line from_text b64_decode (encode_line to_text b64_encode e) =
    (if pe_version e = CURRENT_VERSION then Inr e
     else bail (''unsupported prefix version '' @ show_nat (unat (pe_version e))))"
proof -
  let ?s = "b64_encode (to_text (ser_prefix_envelope e))"
  have "is_ascii (?s @ [CHR 0x0A])"
    using alphabet b64_char_ascii by (fastforce simp: byte_val_def)
  then have "valid_utf8 (encode_line to_text b64_encode e)"
    by (simp add: encode_line_def valid_utf8_ascii)
  moreover have "trim_end_matches (CHR 0x0D) (trim_end_matches (CHR 0x0A)
      (encode_line to_text b64_encode e)) = ?s"
    using alphabet by (simp add: encode_line_def trim_line_ending)
  moreover have "?s \<noteq> []" using nonempty b64_nonempty by blast
  ultimately show ?thesis
    by (simp add: decode_line_def Let_def txt_rt b64 bail_def)
qed

section \<open>A codec for witnesses\<close>

text \<open>Hexadecimal digits are base64 characters, so writing each byte as two of them has every
  property the theorems ask of the base64 engine.\<close>

definition hex_digit :: "nat \<Rightarrow> byte" where
  "hex_digit n = (if n < 10 then char_of (48 + n) else char_of (87 + n))"

definition hex_value :: "byte \<Rightarrow> nat" where
  "hex_value c = (if byte_val c < 58 then byte_val c - 48 else byte_val c - 87)"

fun hex_encode :: "bytes \<Rightarrow> bytes" where
  "hex_encode [] = []"
| "hex_encode (c # s) = hex_digit (byte_val c div 16) # hex_digit (byte_val c mod 16) # hex_encode s"

fun hex_decode :: "bytes \<Rightarrow> bytes option" where
  "hex_decode [] = Some []"
| "hex_decode [c] = None"
| "hex_decode (c # d # s) =
     map_option (\<lambda>r. char_of (hex_value c * 16 + hex_value d) # r) (hex_decode s)"

lemma hex_value_digit: "n < 16 \<Longrightarrow> hex_value (hex_digit n) = n"
  by (simp add: hex_value_def hex_digit_def byte_val_char_of)

lemma hex_digit_b64: "n < 16 \<Longrightarrow> b64_char (hex_digit n)"
  by (auto simp: hex_digit_def b64_char_def is_ascii_alphanumeric_def is_ascii_digit_def
      byte_val_char_of)

lemma hex_decode_encode [simp]: "hex_decode (hex_encode s) = Some s"
proof (induction s)
  case Nil
  then show ?case by simp
next
  case (Cons c s)
  have "byte_val c div 16 < 16" using byte_val_less [of c] by linarith
  then have "char_of (hex_value (hex_digit (byte_val c div 16)) * 16 +
      hex_value (hex_digit (byte_val c mod 16))) = c"
    by (simp add: hex_value_digit) (simp add: byte_val_def)
  with Cons show ?case by simp
qed

lemma hex_encode_alphabet: "c \<in> set (hex_encode s) \<Longrightarrow> b64_char c"
proof (induction s)
  case Nil
  then show ?case by simp
next
  case (Cons d s)
  have "byte_val d div 16 < 16" using byte_val_less [of d] by linarith
  with Cons show ?case by (auto simp: hex_digit_b64)
qed

lemma hex_encode_nonempty: "s \<noteq> [] \<Longrightarrow> hex_encode s \<noteq> []"
  by (cases s) auto

section \<open>Properties\<close>

text \<open>Whatever envelope a client builds and sends, the ingress reads back the same client id
  and connection id from the line, and the line ends with its only newline; an envelope of
  any other version is refused with the version in the message. The hypotheses are the
  documented behaviour of \<^verbatim>\<open>serde_json\<close> (it reads back what it wrote, and writes something)
  and of the base64 engine (it reads back what it wrote, in its own alphabet).\<close>

theorem prefix_line_round_trip:
  assumes "\<And>v. from_text (to_text v) = Some v" and "\<And>v. to_text v \<noteq> []"
    and "\<And>x. b64_decode (b64_encode x) = Some x"
    and "\<And>x c. c \<in> set (b64_encode x) \<Longrightarrow> b64_char c"
    and "\<And>x. x \<noteq> [] \<Longrightarrow> b64_encode x \<noteq> []"
  shows "decode_line from_text b64_decode
           (encode_line to_text b64_encode (prefix_new client_id connection_id)) =
         Inr (prefix_new client_id connection_id) \<and>
         (\<exists>body. encode_line to_text b64_encode e = body @ [CHR 0x0A] \<and> CHR 0x0A \<notin> set body) \<and>
         (pe_version e \<noteq> CURRENT_VERSION \<longrightarrow>
           decode_line from_text b64_decode (encode_line to_text b64_encode e) =
           bail (''unsupported prefix version '' @ show_nat (unat (pe_version e))))"
proof -
  have "CHR 0x0A \<notin> set (b64_encode x)" for x
    using assms(4) b64_char_no_newline by blast
  then show ?thesis
    by (simp add: decode_encode_line assms prefix_new_def) (simp add: encode_line_def)
qed

theorem prefix_line_round_trip_witness:
  "decode_line unary_parse hex_decode
     (encode_line unary_text hex_encode (prefix_new ''client-a'' ''conn-1'')) =
   Inr (prefix_new ''client-a'' ''conn-1'') \<and>
   decode_line unary_parse hex_decode
     (encode_line unary_text hex_encode ((prefix_new ''a'' ''b'')\<lparr>pe_version := 2\<rparr>)) =
   bail (''unsupported prefix version '' @ show_nat 2)"
  using prefix_line_round_trip [of unary_parse unary_text hex_decode hex_encode "''client-a''"
      "''conn-1''" "(prefix_new ''a'' ''b'')\<lparr>pe_version := 2\<rparr>"]
  by (simp add: hex_encode_alphabet hex_encode_nonempty unary_text_nonempty CURRENT_VERSION_def)

end
