(* ===== verification/Ingress_Detect.thy ===== *)
theory Ingress_Detect
  imports Net Http_Host Prefix_Line Config_Types
begin

text \<open>
  The two bounded handshakes of the ingress (\<^verbatim>\<open>ingress/src/lib.rs\<close>): reading the preface of a
  public connection until its host name is known, and reading the callback prefix of a
  client. Both loops stop by themselves: the preface never grows beyond 16 KiB and the
  prefix line never beyond 4097 bytes.
\<close>

definition select_sni_passthrough ::
    "sni_passthrough_route list \<Rightarrow> string option \<Rightarrow> sni_passthrough_route option" where
  "select_sni_passthrough routes hostname = (case hostname of
      None \<Rightarrow> None
    | Some hostname \<Rightarrow> find (\<lambda>route. eq_ignore_ascii_case (sp_hostname route) hostname) routes)"

definition MAX_PREFACE_BYTES :: nat where
  "MAX_PREFACE_BYTES = 16 * 1024"

definition TLS_HEADER_BYTES :: nat where
  "TLS_HEADER_BYTES = 5"

definition u16_from_be_bytes :: "byte \<Rightarrow> byte \<Rightarrow> nat" where
  "u16_from_be_bytes hi lo = 256 * byte_val hi + byte_val lo"

type_synonym preface = "string option \<times> bool \<times> bytes"

text \<open>The body of the loop behind the read: \<open>None\<close> is \<^verbatim>\<open>continue\<close>, otherwise the value returned.
  The buffer is never empty there.\<close>

definition inspect_preface :: "(bytes \<Rightarrow> bytes option res) \<Rightarrow> bytes \<Rightarrow> preface res option" where
  "inspect_preface parse_hello buf =
     (if buf ! 0 = CHR 0x16 then
        if length buf < TLS_HEADER_BYTES then None
        else (case validate_tls_record_header buf of
            Inl e \<Rightarrow> Some (Inl e)
          | Inr _ \<Rightarrow>
              let record_len = TLS_HEADER_BYTES + u16_from_be_bytes (buf ! 3) (buf ! 4) in
              if \<not> record_len \<le> MAX_PREFACE_BYTES then
                Some (bail (''TLS ClientHello exceeds 16384 byte ingress preface limit''))
              else if length buf < record_len then None
              else Some (and_then (extract_sni parse_hello (take record_len buf))
                (\<lambda>hostname. Inr (hostname, True, buf))))
      else (case extract_http_host buf of
          Some host \<Rightarrow> Some (Inr (Some host, False, buf))
        | None \<Rightarrow>
            if looks_like_http_prefix buf then
              if find_window CRLF2 buf \<noteq> None then Some (Inr (None, False, buf))
              else if \<not> length buf < MAX_PREFACE_BYTES then
                Some (bail ''HTTP headers exceed 16384 byte ingress preface limit'')
              else None
            else Some (Inr (None, False, buf))))"

function detect_loop ::
    "(bytes \<Rightarrow> bytes option res) \<Rightarrow> bytes \<Rightarrow> socket \<Rightarrow> (preface res \<times> socket) poll" where
  "detect_loop parse_hello buf stream =
     (case sock_read (min 512 (MAX_PREFACE_BYTES - length buf)) stream of
        Blocked \<Rightarrow> Pending
      | Failed k \<Rightarrow> Ready (Inl [Msg ''failed to read ingress protocol preface'', Io_cause k], stream)
      | Got chunk stream' \<Rightarrow>
          if chunk = [] then Ready (Inr (None, False, buf), stream')
          else (case inspect_preface parse_hello (buf @ chunk) of
              Some r \<Rightarrow> Ready (r, stream')
            | None \<Rightarrow> detect_loop parse_hello (buf @ chunk) stream'))"
  by pat_completeness auto
termination
proof (relation "measure (\<lambda>(_, buf, _). MAX_PREFACE_BYTES - length buf)", goal_cases)
  case 1
  show ?case by simp
next
  case (2 parse_hello buf stream chunk stream')
  then show ?case by (cases chunk) (auto dest!: sock_read_Got)
qed

declare detect_loop.simps [simp del]

definition detect_hostname ::
    "(bytes \<Rightarrow> bytes option res) \<Rightarrow> socket \<Rightarrow> (preface res \<times> socket) poll" where
  "detect_hostname parse_hello stream = detect_loop parse_hello [] stream"

definition detect_hostname_before ::
    "(bytes \<Rightarrow> bytes option res) \<Rightarrow> socket \<Rightarrow> preface res \<times> socket" where
  "detect_hostname_before parse_hello stream =
     timeout_context ''timed out waiting for ingress protocol preface''
       (detect_hostname parse_hello stream) stream"

section \<open>The callback prefix\<close>

function read_line_loop :: "bytes \<Rightarrow> socket \<Rightarrow> (bytes res \<times> socket) poll" where
  "read_line_loop line stream =
     (case sock_read 1 stream of
        Blocked \<Rightarrow> Pending
      | Failed k \<Rightarrow> Ready (Inl [Msg ''failed to read prefix line'', Io_cause k], stream)
      | Got byte stream' \<Rightarrow>
          if byte = [] then Ready (bail ''client data socket closed before prefix'', stream')
          else
            let line = line @ byte in
            if byte = [CHR 0x0A] then Ready (Inr line, stream')
            else if 4096 < length line then Ready (bail ''prefix line is too large'', stream')
            else read_line_loop line stream')"
  by pat_completeness auto
termination
  by (relation "measure (\<lambda>(line, _). 4097 - length line)") (auto dest!: sock_read_Got simp: neq_Nil_conv)

declare read_line_loop.simps [simp del]

definition read_prefix ::
    "(bytes \<Rightarrow> sval option) \<Rightarrow> (bytes \<Rightarrow> bytes option) \<Rightarrow> socket \<Rightarrow> (prefix_envelope res \<times> socket) poll" where
  "read_prefix from_text b64_decode stream = (case read_line_loop [] stream of
      Pending \<Rightarrow> Pending
    | Ready (r, stream') \<Rightarrow> Ready (and_then r (decode_line from_text b64_decode), stream'))"

definition read_prefix_before ::
    "(bytes \<Rightarrow> sval option) \<Rightarrow> (bytes \<Rightarrow> bytes option) \<Rightarrow> socket \<Rightarrow> prefix_envelope res \<times> socket" where
  "read_prefix_before from_text b64_decode stream =
     timeout_context ''timed out waiting for callback prefix''
       (read_prefix from_text b64_decode stream) stream"

section \<open>The preface as a function of the stream\<close>

text \<open>What is detected for a peer that sends \<open>s\<close> and closes: no segmentation, no buffer.\<close>

definition stream_hostname :: "(bytes \<Rightarrow> bytes option res) \<Rightarrow> bytes \<Rightarrow> (string option \<times> bool) res" where
  "stream_hostname parse_hello s =
     (if s = [] then Inr (None, False)
      else if hd s = CHR 0x16 then
        if length s < 5 then Inr (None, False)
        else
          let record_len = 5 + 256 * byte_val (s ! 3) + byte_val (s ! 4) in
          if 16384 < record_len then bail ''TLS ClientHello exceeds 16384 byte ingress preface limit''
          else if length s < record_len then Inr (None, False)
          else and_then (extract_sni parse_hello (take record_len s)) (\<lambda>h. Inr (h, True))
      else
        let head = take 16384 s in
        if looks_like_http_prefix head \<and> find_window CRLF2 head = None then
          if length s < 16384 then Inr (None, False)
          else bail ''HTTP headers exceed 16384 byte ingress preface limit''
        else Inr (extract_http_host head, False))"

definition forget_buffer :: "preface res \<Rightarrow> (string option \<times> bool) res" where
  "forget_buffer r = and_then r (\<lambda>(h, tls, _). Inr (h, tls))"

section \<open>Lemmas\<close>

lemma inspect_preface_decided:
  assumes "inspect_preface parse_hello buf = Some r" "buf \<noteq> []" "length buf \<le> MAX_PREFACE_BYTES"
  shows "forget_buffer r = stream_hostname parse_hello (buf @ t)"
proof (cases "hd buf = CHR 0x16")
  case True
  then have "buf ! 0 = CHR 0x16" using assms(2) by (simp add: hd_conv_nth)
  then show ?thesis
    using assms True
    by (auto simp: inspect_preface_def stream_hostname_def validate_tls_record_header_def Let_def
        TLS_HEADER_BYTES_def MAX_PREFACE_BYTES_def u16_from_be_bytes_def nth_append forget_buffer_def
        and_then_assoc bail_def hd_append add.assoc split: if_splits)
next
  case False
  then have h0: "buf ! 0 \<noteq> CHR 0x16" using assms(2) by (simp add: hd_conv_nth)
  define head where "head = take 16384 (buf @ t)"
  have ext: "head = buf @ take (16384 - length buf) t"
    using assms(3) by (simp add: head_def MAX_PREFACE_BYTES_def)
  have spec: "stream_hostname parse_hello (buf @ t) =
      (if looks_like_http_prefix head \<and> find_window CRLF2 head = None then
         if length (buf @ t) < 16384 then Inr (None, False)
         else bail ''HTTP headers exceed 16384 byte ingress preface limit''
       else Inr (extract_http_host head, False))"
    using False assms(2) by (simp add: stream_hostname_def Let_def head_def hd_append)
  show ?thesis
  proof (cases "looks_like_http_prefix buf")
    case False
    then have "\<not> looks_like_http_prefix head" "extract_http_host buf = None"
      "extract_http_host head = None"
      using ext looks_like_http_prefix_mono by (auto simp: extract_http_host_def)
    then show ?thesis using assms(1) h0 False spec
      by (auto simp: inspect_preface_def forget_buffer_def)
  next
    case like: True
    show ?thesis
    proof (cases "find_window CRLF2 buf")
      case None
      then have "extract_http_host buf = None" by (simp add: extract_http_host_def)
      with assms(1,3) h0 like None have "length buf = 16384"
        "r = bail ''HTTP headers exceed 16384 byte ingress preface limit''"
        by (auto simp: inspect_preface_def MAX_PREFACE_BYTES_def split: if_splits)
      with ext like None spec show ?thesis by (simp add: forget_buffer_def bail_def)
    next
      case (Some i)
      then have "find_window CRLF2 head = Some i" using ext find_window_append by blast
      moreover have "extract_http_host head = extract_http_host buf"
        using ext like Some by (simp add: extract_http_host_extend)
      ultimately show ?thesis
        using assms(1) h0 like Some spec
        by (auto simp: inspect_preface_def forget_buffer_def split: option.splits)
    qed
  qed
qed

lemma inspect_preface_continue:
  assumes "inspect_preface parse_hello buf = None" "buf \<noteq> []"
  shows "stream_hostname parse_hello buf = Inr (None, False)" "length buf < MAX_PREFACE_BYTES"
proof -
  have hd: "hd buf = buf ! 0" using assms(2) by (simp add: hd_conv_nth)
  show "length buf < MAX_PREFACE_BYTES"
    using assms by (auto simp: inspect_preface_def Let_def TLS_HEADER_BYTES_def MAX_PREFACE_BYTES_def
        split: if_splits sum.splits option.splits)
  then show "stream_hostname parse_hello buf = Inr (None, False)"
    using assms hd
    by (auto simp: inspect_preface_def stream_hostname_def Let_def TLS_HEADER_BYTES_def
        MAX_PREFACE_BYTES_def u16_from_be_bytes_def add.assoc split: if_splits sum.splits option.splits)
qed

lemma detect_loop_preface:
  assumes "detect_loop parse_hello buf stream = Ready (Inr (h, tls, b), stream')"
    "length buf \<le> MAX_PREFACE_BYTES"
  shows "\<exists>d. b = buf @ d \<and> stream_bytes stream = d @ stream_bytes stream' \<and>
    length b \<le> MAX_PREFACE_BYTES \<and> (closes stream \<longleftrightarrow> closes stream')"
  using assms
proof (induction parse_hello buf stream rule: detect_loop.induct)
  case (1 parse_hello buf stream)
  show ?case
  proof (cases "sock_read (min 512 (MAX_PREFACE_BYTES - length buf)) stream")
    case Blocked
    with 1 show ?thesis by (simp add: detect_loop.simps [of _ buf])
  next
    case (Failed k)
    with 1 show ?thesis by (simp add: detect_loop.simps [of _ buf])
  next
    case (Got chunk rest)
    note got = sock_read_Got [OF Got]
    then have len: "length (buf @ chunk) \<le> MAX_PREFACE_BYTES" using "1.prems"(2) by auto
    have step: "(if chunk = [] then Ready (Inr (None, False, buf), rest)
        else (case inspect_preface parse_hello (buf @ chunk) of Some r \<Rightarrow> Ready (r, rest)
          | None \<Rightarrow> detect_loop parse_hello (buf @ chunk) rest)) = Ready (Inr (h, tls, b), stream')"
      using "1.prems"(1) Got by (subst (asm) detect_loop.simps) simp
    show ?thesis
    proof (cases "chunk = [] \<or> inspect_preface parse_hello (buf @ chunk) \<noteq> None")
      case True
      then have "b = buf @ chunk" "rest = stream'"
        using step by (auto simp: inspect_preface_def Let_def res_simps split: if_splits option.splits sum.splits)
      with got len show ?thesis by auto
    next
      case False
      then obtain d where "b = (buf @ chunk) @ d" "stream_bytes rest = d @ stream_bytes stream'"
        "length b \<le> MAX_PREFACE_BYTES" "closes rest \<longleftrightarrow> closes stream'"
        using "1.IH" [OF Got] step len by auto
      with got show ?thesis by (intro exI [of _ "chunk @ d"]) simp
    qed
  qed
qed

lemma detect_loop_stream:
  assumes "closes stream" "length buf < MAX_PREFACE_BYTES"
    "buf = [] \<or> inspect_preface parse_hello buf = None"
  shows "\<exists>r stream'. detect_loop parse_hello buf stream = Ready (r, stream') \<and>
    forget_buffer r = stream_hostname parse_hello (buf @ stream_bytes stream)"
  using assms
proof (induction parse_hello buf stream rule: detect_loop.induct)
  case (1 parse_hello buf stream)
  let ?n = "min 512 (MAX_PREFACE_BYTES - length buf)"
  obtain chunk rest where Got: "sock_read ?n stream = Got chunk rest"
    and empty: "chunk = [] \<longleftrightarrow> stream_bytes stream = []"
    using sock_read_closed [OF "1.prems"(1), of ?n] "1.prems"(2) by auto
  note got = sock_read_Got [OF Got]
  have loop: "detect_loop parse_hello buf stream = (if chunk = [] then Ready (Inr (None, False, buf), rest)
      else (case inspect_preface parse_hello (buf @ chunk) of Some r \<Rightarrow> Ready (r, rest)
        | None \<Rightarrow> detect_loop parse_hello (buf @ chunk) rest))"
    by (subst detect_loop.simps) (simp add: Got)
  show ?case
  proof (cases "chunk = []")
    case True
    have "stream_hostname parse_hello buf = Inr (None, False)"
      using "1.prems"(3) inspect_preface_continue(1)
      by (cases "buf = []") (simp_all add: stream_hostname_def)
    with True empty loop show ?thesis by (simp add: forget_buffer_def)
  next
    case False
    show ?thesis
    proof (cases "inspect_preface parse_hello (buf @ chunk)")
      case None
      then have "\<exists>r stream'. detect_loop parse_hello (buf @ chunk) rest = Ready (r, stream') \<and>
          forget_buffer r = stream_hostname parse_hello ((buf @ chunk) @ stream_bytes rest)"
        using "1.IH" [OF Got False None] "1.prems"(1) got inspect_preface_continue(2) [OF None] False
        by simp
      with None False got loop show ?thesis by simp
    next
      case (Some r)
      have "length (buf @ chunk) \<le> MAX_PREFACE_BYTES" using got "1.prems"(2) by auto
      with Some False loop got show ?thesis
        using inspect_preface_decided [OF Some, of "stream_bytes rest"] by simp
    qed
  qed
qed

lemma sock_read_byte:
  "stream_bytes es = c # r \<Longrightarrow> \<exists>es'. sock_read 1 es = Got [c] es' \<and> stream_bytes es' = r"
proof (induction es)
  case Nil
  then show ?case by simp
next
  case (Cons e es)
  show ?case
  proof (cases e)
    case (Data d)
    with Cons show ?thesis by (cases d) auto
  qed (use Cons in auto)
qed

lemma read_line_loop_line:
  assumes "stream_bytes stream = body @ CHR 0x0A # rest" "CHR 0x0A \<notin> set body"
    "length line + length body \<le> 4096"
  shows "\<exists>stream'. read_line_loop line stream = Ready (Inr (line @ body @ [CHR 0x0A]), stream') \<and>
    stream_bytes stream' = rest"
  using assms
proof (induction body arbitrary: line stream)
  case Nil
  then obtain es where "sock_read 1 stream = Got [CHR 0x0A] es" "stream_bytes es = rest"
    using sock_read_byte [of stream "CHR 0x0A" rest] by auto
  then show ?case by (subst read_line_loop.simps) simp
next
  case (Cons c body)
  then obtain es where es: "sock_read 1 stream = Got [c] es" "stream_bytes es = body @ CHR 0x0A # rest"
    using sock_read_byte [of stream c "body @ CHR 0x0A # rest"] by auto
  moreover have "\<exists>stream'. read_line_loop (line @ [c]) es =
      Ready (Inr ((line @ [c]) @ body @ [CHR 0x0A]), stream') \<and> stream_bytes stream' = rest"
    using Cons.prems es by (intro Cons.IH) auto
  ultimately show ?case using Cons.prems by (subst read_line_loop.simps) auto
qed

lemma read_line_loop_bound:
  assumes "read_line_loop line stream = Ready (r, stream')" "length line \<le> 4096"
  shows "\<exists>d. stream_bytes stream = d @ stream_bytes stream' \<and> length (line @ d) \<le> 4097 \<and>
    (\<forall>l. r = Inr l \<longrightarrow> l = line @ d \<and> d \<noteq> [] \<and> last d = CHR 0x0A)"
  using assms
proof (induction line stream rule: read_line_loop.induct)
  case (1 line stream)
  show ?case
  proof (cases "sock_read 1 stream")
    case Blocked
    with 1 show ?thesis by (simp add: read_line_loop.simps [of line])
  next
    case (Failed k)
    with "1.prems" show ?thesis by (simp add: read_line_loop.simps [of line]) auto
  next
    case (Got byte rest)
    note got = sock_read_Got [OF Got]
    have step: "(if byte = [] then Ready (bail ''client data socket closed before prefix'', rest)
        else if byte = [CHR 0x0A] then Ready (Inr (line @ byte), rest)
        else if 4096 < length (line @ byte) then Ready (bail ''prefix line is too large'', rest)
        else read_line_loop (line @ byte) rest) = Ready (r, stream')"
      using "1.prems"(1) unfolding read_line_loop.simps [of line stream] Got Let_def
      by simp
    show ?thesis
    proof (cases "byte = [] \<or> byte = [CHR 0x0A] \<or> 4096 < length (line @ byte)")
      case True
      with step got "1.prems"(2) show ?thesis
        by (intro exI [of _ byte]) (auto simp: bail_def split: if_splits)
    next
      case False
      then obtain d where "stream_bytes rest = d @ stream_bytes stream'" "length ((line @ byte) @ d) \<le> 4097"
        "\<forall>l. r = Inr l \<longrightarrow> l = (line @ byte) @ d \<and> d \<noteq> [] \<and> last d = CHR 0x0A"
        using "1.IH" [OF Got _ refl] step by auto
      then show ?thesis using got by (intro exI [of _ "byte @ d"]) auto
    qed
  qed
qed

section \<open>Properties\<close>

text \<open>C12: host detection does not depend on how the network cuts the stream into segments. For
  every peer that sends some bytes and closes, the loop returns, and what it returns (host
  name and TLS flag, or the error) is the function \<open>stream_hostname\<close> of the bytes alone: the
  SNI of the first TLS record, the host of the HTTP head found within the first 16 KiB, or
  nothing for any other protocol.\<close>

theorem detect_hostname_segmentation:
  assumes "closes stream"
  shows "\<exists>r stream'. detect_hostname parse_hello stream = Ready (r, stream') \<and>
    forget_buffer r = stream_hostname parse_hello (stream_bytes stream)"
  using detect_loop_stream [OF assms, of "[]" parse_hello]
  by (simp add: detect_hostname_def MAX_PREFACE_BYTES_def)

theorem detect_hostname_segmentation_witness:
  "\<exists>r stream'. detect_hostname (\<lambda>_. Inr None)
       [Data ''GET / HT'', Data (''TP/1.1'' @ CRLF @ ''Host: a''), Data (''.b'' @ CRLF2), Eof] = Ready (r, stream') \<and>
     forget_buffer r = Inr (Some ''a.b'', False)"
proof -
  let ?s = "[Data ''GET / HT'', Data (''TP/1.1'' @ CRLF @ ''Host: a''), Data (''.b'' @ CRLF2), Eof]"
  define b where "b = ''GET / HTTP/1.1'' @ CRLF @ ''Host: a.b'' @ CRLF2"
  have "extract_http_host b = Some ''a.b''" "find_window CRLF2 b \<noteq> None"
    unfolding b_def by code_simp+
  moreover have "take 16384 b = b" "b \<noteq> []" "hd b \<noteq> CHR 0x16" by (simp_all add: b_def CRLF2_def)
  ultimately have "stream_hostname (\<lambda>_. Inr None) b = Inr (Some ''a.b'', False)"
    by (auto simp: stream_hostname_def)
  moreover have "stream_bytes ?s = b" by (simp add: b_def)
  ultimately show ?thesis using detect_hostname_segmentation [of ?s "\<lambda>_. Inr None"] by simp
qed

text \<open>C20: no byte of a public connection is lost or invented by the inspection: the preface that
  will be replayed to the tunnel is exactly what was read off the socket, the rest is still
  to be read, and the preface never exceeds 16 KiB. A peer that stalls before the protocol is
  known is given up at the deadline.\<close>

theorem detect_hostname_preface:
  assumes "detect_hostname_before parse_hello stream = (Inr (h, tls, preface), stream')"
  shows "stream_bytes stream = preface @ stream_bytes stream' \<and> length preface \<le> 16384 \<and>
    (detect_hostname parse_hello slow = Pending \<longrightarrow>
      (\<exists>e. fst (detect_hostname_before parse_hello slow) =
         Inl (Msg ''timed out waiting for ingress protocol preface'' # e)))"
proof -
  have "detect_loop parse_hello [] stream = Ready (Inr (h, tls, preface), stream')"
    using assms by (auto simp: detect_hostname_before_def detect_hostname_def timeout_context_def
        split: poll.splits)
  from detect_loop_preface [OF this] show ?thesis
    by (auto simp: MAX_PREFACE_BYTES_def detect_hostname_before_def timeout_context_def)
qed

theorem detect_hostname_preface_witness:
  "stream_bytes [Data ''SSH-2.0'', Data ''xyz''] = ''SSH-2.0'' @ stream_bytes [Data ''xyz''] \<and>
   (\<exists>e. fst (detect_hostname_before (\<lambda>_. Inr None) [Data ''GE'']) =
      Inl (Msg ''timed out waiting for ingress protocol preface'' # e))"
proof -
  have "extract_http_host ''SSH-2.0'' = None" "\<not> looks_like_http_prefix ''SSH-2.0''"
    "extract_http_host ''GE'' = None" "looks_like_http_prefix ''GE''" "find_window CRLF2 ''GE'' = None"
    by code_simp+
  then have "detect_hostname_before (\<lambda>_. Inr None) [Data ''SSH-2.0'', Data ''xyz''] =
      (Inr (None, False, ''SSH-2.0''), [Data ''xyz''])"
    "detect_hostname (\<lambda>_. Inr None) [Data ''GE''] = Pending"
    by (simp_all add: detect_hostname_before_def detect_hostname_def timeout_context_def
        detect_loop.simps inspect_preface_def MAX_PREFACE_BYTES_def)
  from detect_hostname_preface [OF this(1), of "[Data ''GE'']"] this(2) show ?thesis by simp
qed

lemma read_prefix_line:
  assumes "\<And>v. from_text (to_text v) = Some v" and "\<And>v. to_text v \<noteq> []"
    and "\<And>x. b64_decode (b64_encode x) = Some x"
    and "\<And>x c. c \<in> set (b64_encode x) \<Longrightarrow> b64_char c"
    and "\<And>x. x \<noteq> [] \<Longrightarrow> b64_encode x \<noteq> []"
    and "stream_bytes stream = encode_line to_text b64_encode (prefix_new client_id connection_id) @ payload"
    and "length (encode_line to_text b64_encode (prefix_new client_id connection_id)) \<le> 4097"
  shows "\<exists>stream'. read_prefix from_text b64_decode stream =
        Ready (Inr (prefix_new client_id connection_id), stream') \<and> stream_bytes stream' = payload"
proof -
  let ?e = "prefix_new client_id connection_id"
  let ?body = "b64_encode (to_text (ser_prefix_envelope ?e))"
  have "CHR 0x0A \<notin> set ?body" using assms(4) b64_char_no_newline by blast
  then obtain s' where "read_line_loop [] stream = Ready (Inr (encode_line to_text b64_encode ?e), s')"
    "stream_bytes s' = payload"
    using read_line_loop_line [of stream ?body payload "[]"] assms(6,7) by (auto simp: encode_line_def)
  moreover have "decode_line from_text b64_decode (encode_line to_text b64_encode ?e) = Inr ?e"
    using decode_encode_line [of from_text to_text b64_decode b64_encode ?e] assms(1-5)
    by (simp add: prefix_new_def)
  ultimately show ?thesis by (simp add: read_prefix_def)
qed

text \<open>C19: the callback handshake reads the line the client wrote and not one byte more. Whatever
  the segmentation, a client that sends the encoded envelope (whose text fits the limit)
  followed by tunnel data is recognised as itself, and the tunnel data is left on the socket.
  In every case at most 4097 bytes are taken from the socket, and an accepted envelope has
  the supported version.\<close>

theorem read_prefix_handshake:
  assumes "\<And>v. from_text (to_text v) = Some v" and "\<And>v. to_text v \<noteq> []"
    and "\<And>x. b64_decode (b64_encode x) = Some x"
    and "\<And>x c. c \<in> set (b64_encode x) \<Longrightarrow> b64_char c"
    and "\<And>x. x \<noteq> [] \<Longrightarrow> b64_encode x \<noteq> []"
    and "stream_bytes stream = encode_line to_text b64_encode (prefix_new client_id connection_id) @ payload"
    and "length (encode_line to_text b64_encode (prefix_new client_id connection_id)) \<le> 4097"
  shows "(\<exists>stream'. read_prefix from_text b64_decode stream =
        Ready (Inr (prefix_new client_id connection_id), stream') \<and> stream_bytes stream' = payload) \<and>
    (\<forall>s r s'. read_prefix from_text b64_decode s = Ready (r, s') \<longrightarrow>
       (\<exists>d. stream_bytes s = d @ stream_bytes s' \<and> length d \<le> 4097) \<and>
       (\<forall>e. r = Inr e \<longrightarrow> pe_version e = CURRENT_VERSION))"
proof -
  have "(\<exists>d. stream_bytes s = d @ stream_bytes s' \<and> length d \<le> 4097) \<and>
      (\<forall>e. r = Inr e \<longrightarrow> pe_version e = CURRENT_VERSION)"
    if r: "read_prefix from_text b64_decode s = Ready (r, s')" for s r s'
  proof -
    obtain l where l: "read_line_loop [] s = Ready (l, s')" "r = and_then l (decode_line from_text b64_decode)"
      using r by (auto simp: read_prefix_def split: poll.splits prod.splits)
    then show ?thesis
      using read_line_loop_bound [OF l(1)] decode_line_InrD(2) by (auto simp: and_then_eq_Inr)
  qed
  moreover have "\<exists>stream'. read_prefix from_text b64_decode stream =
        Ready (Inr (prefix_new client_id connection_id), stream') \<and> stream_bytes stream' = payload"
    by (rule read_prefix_line [OF assms])
  ultimately show ?thesis by blast
qed

text \<open>A text layer short enough for the limit: the only document it has to print is the one of
  the example.\<close>

definition one_text :: "sval \<Rightarrow> bytes" where
  "one_text v = (if v = ser_prefix_envelope (prefix_new ''a'' ''b'') then ''!'' else unary_text v)"

definition one_parse :: "bytes \<Rightarrow> sval option" where
  "one_parse s = (if s = ''!'' then Some (ser_prefix_envelope (prefix_new ''a'' ''b'')) else unary_parse s)"

lemma one_parse_text: "one_parse (one_text v) = Some v"
proof (cases "v = ser_prefix_envelope (prefix_new ''a'' ''b'')")
  case True
  then show ?thesis by (simp add: one_parse_def one_text_def)
next
  case False
  have "unary_text v \<noteq> ''!''" by (simp add: unary_text_def)
  with False show ?thesis by (simp add: one_parse_def one_text_def)
qed

lemma one_text_nonempty: "one_text v \<noteq> []"
  by (simp add: one_text_def unary_text_nonempty)

theorem read_prefix_handshake_witness:
  "\<exists>stream'. read_prefix one_parse hex_decode [Data ''2'', Data (''1'' @ [CHR 0x0A] @ ''pay''), Data ''load''] =
      Ready (Inr (prefix_new ''a'' ''b''), stream') \<and> stream_bytes stream' = ''payload''"
proof -
  have "encode_line one_text hex_encode (prefix_new ''a'' ''b'') = ''21'' @ [CHR 0x0A]"
  proof -
    have "hex_encode ''!'' = ''21''" by code_simp
    then show ?thesis by (simp only: encode_line_def one_text_def if_True simp_thms)
  qed
  then show ?thesis
    using read_prefix_handshake [of one_parse one_text hex_decode hex_encode
        "[Data ''2'', Data (''1'' @ [CHR 0x0A] @ ''pay''), Data ''load'']" "''a''" "''b''" "''payload''"]
    by (simp add: one_parse_text hex_encode_alphabet hex_encode_nonempty one_text_nonempty)
qed

end
