(* ===== verification/Routing.thy ===== *)
theory Routing
  imports Config_Types
begin

text \<open>
  Ordered hostname matching and path selection (\<^verbatim>\<open>shared/src/routing.rs\<close>). The locale
  \<open>path_selector\<close> is the contract under which the HTTP proxy relies on path selection; it is
  interpreted here on the backend rules and by the tunnel client on its running backends.
\<close>

definition valid_label :: "string \<Rightarrow> bool" where
  "valid_label label \<longleftrightarrow> \<not> (label = [] \<or> 63 < length label \<or> starts_with ''-'' label \<or>
     ends_with ''-'' label \<or>
     \<not> list_all (\<lambda>b. is_ascii_alphanumeric b \<or> b = CHR ''-'') label)"

definition hostname_request_subject :: "string \<Rightarrow> string \<Rightarrow> string option" where
  "hostname_request_subject subject_prefix hostname =
     (let hostname = to_ascii_lowercase (trim_end_matches (CHR ''.'') hostname);
          labels = split_on (CHR ''.'') hostname in
      if length labels < 2 \<or> (\<exists>label\<in>set labels. \<not> valid_label label) then None
      else Some (trim_end_matches (CHR ''.'') subject_prefix @ ''.'' @ join_with ''.'' (rev labels)))"

definition matches_pattern :: "string \<Rightarrow> string option \<Rightarrow> bool" where
  "matches_pattern pattern hostname =
     (if pattern = [] then hostname = None
      else (case hostname of
          None \<Rightarrow> False
        | Some hostname \<Rightarrow> (case strip_prefix ''*.'' pattern of
              Some rest \<Rightarrow> ends_with rest hostname \<and> length rest < length hostname \<and>
                hostname ! (length hostname - length rest - 1) = CHR ''.''
            | None \<Rightarrow> eq_ignore_ascii_case pattern hostname)))"

definition select_backend :: "backend_rule list \<Rightarrow> string option \<Rightarrow> backend_rule option" where
  "select_backend rules hostname = find (\<lambda>rule. matches_pattern (br_pattern rule) hostname) rules"

definition matching_backends :: "backend_rule list \<Rightarrow> string option \<Rightarrow> backend_rule list" where
  "matching_backends rules hostname =
     filter (\<lambda>rule. matches_pattern (br_pattern rule) hostname) rules"

definition matches_path_prefix :: "string \<Rightarrow> string \<Rightarrow> bool" where
  "matches_path_prefix p path =
     (if p = ''/'' then starts_with ''/'' path
      else
        let p = trim_end_matches (CHR ''/'') p in
        path = p \<or> is_some_and (starts_with ''/'') (strip_prefix p path))"

definition select_backend_for_path ::
    "backend_rule list \<Rightarrow> string option \<Rightarrow> string \<Rightarrow> backend_rule option" where
  "select_backend_for_path rules hostname path =
     or_else
       (max_by_key (\<lambda>rule. case br_path_prefix rule of None \<Rightarrow> 0 | Some p \<Rightarrow> length p)
         (filter (\<lambda>rule. matches_pattern (br_pattern rule) hostname \<and>
             is_some_and (\<lambda>p. matches_path_prefix p path) (br_path_prefix rule)) rules))
       (find (\<lambda>rule. br_path_prefix rule = None \<and> matches_pattern (br_pattern rule) hostname) rules)"

section \<open>Path prefixes are matched by segments\<close>

abbreviation segments :: "string \<Rightarrow> string list" where
  "segments \<equiv> split_on (CHR ''/'')"

lemma split_on_append: "split_on c (p @ c # r) = split_on c p @ split_on c r"
proof (induction p)
  case Nil
  then show ?case by simp
next
  case (Cons x p)
  obtain q qs where "split_on c p = q # qs" by (meson neq_Nil_conv split_on_neq_Nil)
  with Cons show ?case by simp
qed

lemma join_with_append:
  "xs \<noteq> [] \<Longrightarrow> ys \<noteq> [] \<Longrightarrow> join_with s (xs @ ys) = join_with s xs @ s @ join_with s ys"
proof (induction xs)
  case Nil
  then show ?case by simp
next
  case (Cons a xs)
  then show ?case by (cases "xs = []") (simp_all add: join_with_Cons)
qed

lemma segment_prefix:
  "path = p \<or> (\<exists>r. path = p @ c # r) \<longleftrightarrow> starts_with (split_on c p) (split_on c path)"
proof
  assume "path = p \<or> (\<exists>r. path = p @ c # r)"
  then show "starts_with (split_on c p) (split_on c path)"
    by (auto simp: split_on_append starts_with_iff)
next
  assume "starts_with (split_on c p) (split_on c path)"
  then obtain rest where rest: "split_on c path = split_on c p @ rest" by (auto simp: starts_with_iff)
  show "path = p \<or> (\<exists>r. path = p @ c # r)"
  proof (cases "rest = []")
    case True
    with rest have "join_with [c] (split_on c path) = join_with [c] (split_on c p)" by simp
    then show ?thesis by (simp add: join_split)
  next
    case False
    then have "path = p @ [c] @ join_with [c] rest"
      using rest join_with_append [of "split_on c p" rest "[c]"] join_split [of c path]
      by (simp add: join_split)
    then show ?thesis by auto
  qed
qed

lemma matches_path_prefix_segments:
  "p \<noteq> ''/'' \<Longrightarrow> matches_path_prefix p path \<longleftrightarrow>
     starts_with (segments (trim_end_matches (CHR ''/'') p)) (segments path)"
  unfolding segment_prefix [symmetric] matches_path_prefix_def
  by (auto simp: Let_def is_some_and_iff)

text \<open>Prefixes as an operator writes them: the root or without a trailing slash.\<close>

definition normal_prefix :: "string \<Rightarrow> bool" where
  "normal_prefix p \<longleftrightarrow> p = ''/'' \<or> (p \<noteq> [] \<and> hd p = CHR ''/'' \<and> last p \<noteq> CHR ''/'')"

lemma normal_prefix_trim:
  "normal_prefix p \<Longrightarrow> p \<noteq> ''/'' \<Longrightarrow> trim_end_matches (CHR ''/'') p = p"
  by (auto simp: normal_prefix_def trim_end_matches_def intro!: trim_end_while_id)

lemma normal_prefix_match:
  assumes "normal_prefix p" "matches_path_prefix p path"
  shows "starts_with p path"
proof (cases "p = ''/''")
  case True
  with assms(2) show ?thesis by (simp add: matches_path_prefix_def)
next
  case False
  with assms show ?thesis
    by (auto simp: matches_path_prefix_def normal_prefix_trim Let_def is_some_and_iff starts_with_iff)
qed

lemma normal_prefixes_unique:
  assumes "normal_prefix p" "normal_prefix q" "matches_path_prefix p path" "matches_path_prefix q path"
    "length p = length q"
  shows "p = q"
proof -
  obtain r t where "path = p @ r" "path = q @ t"
    using assms normal_prefix_match starts_with_iff by metis
  with assms(5) show ?thesis by simp
qed

section \<open>The contract of path selection\<close>

text \<open>\<open>select items path\<close> is the choice for one host; \<open>serves\<close> tells whether an item belongs to the
  host and \<open>prefix_of\<close> is its path prefix.\<close>

locale path_selector =
  fixes select :: "'r list \<Rightarrow> string \<Rightarrow> 'r option"
    and serves :: "'r \<Rightarrow> bool" and prefix_of :: "'r \<Rightarrow> string option"
  assumes select_path: "\<lbrakk>select items path = Some r; prefix_of r = Some p\<rbrakk> \<Longrightarrow>
      r \<in> set items \<and> serves r \<and> matches_path_prefix p path \<and>
      (\<forall>s\<in>set items. \<forall>q. serves s \<longrightarrow> prefix_of s = Some q \<longrightarrow> matches_path_prefix q path \<longrightarrow>
         length q \<le> length p)"
    and select_fallback: "\<lbrakk>select items path = Some r; prefix_of r = None\<rbrakk> \<Longrightarrow>
      r \<in> set items \<and> serves r \<and>
      (\<forall>s\<in>set items. \<forall>q. serves s \<longrightarrow> prefix_of s = Some q \<longrightarrow> \<not> matches_path_prefix q path)"
    and select_none: "\<lbrakk>select items path = None; r \<in> set items; serves r\<rbrakk> \<Longrightarrow>
      prefix_of r \<noteq> None \<and> (\<forall>p. prefix_of r = Some p \<longrightarrow> \<not> matches_path_prefix p path)"
begin

lemma select_in: "select items path = Some r \<Longrightarrow> r \<in> set items \<and> serves r"
  using select_path select_fallback by (cases "prefix_of r") blast+

lemma select_total:
  assumes "r \<in> set items" "serves r" "prefix_of r = None"
  shows "\<exists>s. select items path = Some s"
  using assms select_none by (cases "select items path") auto

text \<open>When the items of a host have distinct, normal prefixes and one fallback, the choice does
  not depend on their order.\<close>

lemma select_order_independent:
  assumes perm: "set items = set items'"
    and distinct: "\<And>r s. r \<in> set items \<Longrightarrow> s \<in> set items \<Longrightarrow> serves r \<Longrightarrow> serves s \<Longrightarrow>
      prefix_of r = prefix_of s \<Longrightarrow> r = s"
    and normal: "\<And>r p. r \<in> set items \<Longrightarrow> prefix_of r = Some p \<Longrightarrow> normal_prefix p"
  shows "select items path = select items' path"
proof -
  have one: "r = s" if r: "select xs path = Some r" and s: "select ys path = Some s"
    and sets: "set xs = set items" "set ys = set items" for r s xs ys
  proof -
    have in_r: "r \<in> set items" "serves r" and in_s: "s \<in> set items" "serves s"
      using select_in r s sets by auto
    show ?thesis
    proof (cases "prefix_of r")
      case None
      then have "prefix_of s = None"
        using select_fallback [OF r None] select_path [OF s] in_s sets by (cases "prefix_of s") auto
      with None distinct in_r in_s show ?thesis by simp
    next
      case (Some p)
      note mr = select_path [OF r Some]
      obtain q where q: "prefix_of s = Some q"
        using select_fallback [OF s] mr in_r Some sets by (cases "prefix_of s") auto
      note ms = select_path [OF s q]
      have "length q \<le> length p" "length p \<le> length q"
        using mr ms in_r in_s Some q sets by simp_all
      then have "length p = length q" by simp
      then have "p = q"
        using normal_prefixes_unique [OF normal [OF in_r(1) Some] normal [OF in_s(1) q],
            of path] mr ms by simp
      with Some q distinct in_r in_s show ?thesis by simp
    qed
  qed
  have some: "\<exists>s. select ys path = Some s" if r: "select xs path = Some r"
    and sets: "set xs = set ys" for r xs ys
    using select_none [of ys path r] select_in [OF r] select_path [OF r] sets
    by (cases "select ys path") auto
  show ?thesis
  proof (cases "select items path")
    case None
    then have "select items' path \<noteq> Some s" for s using some [of items' s items] perm by auto
    then have "select items' path = None" by (cases "select items' path") blast+
    with None show ?thesis by simp
  next
    case (Some r)
    then obtain s where "select items' path = Some s" using some [of items r items'] perm by blast
    with one [OF Some this refl] Some perm show ?thesis by simp
  qed
qed

end

text \<open>Every selection of this shape fulfils the contract.\<close>

lemma longest_prefix_selector:
  assumes select: "\<And>items path. select items path = or_else
      (max_by_key (\<lambda>r. case prefix_of r of None \<Rightarrow> 0 | Some p \<Rightarrow> length p)
        (filter (\<lambda>r. serves r \<and> is_some_and (\<lambda>p. matches_path_prefix p path) (prefix_of r)) items))
      (find (\<lambda>r. prefix_of r = None \<and> serves r) items)"
  shows "path_selector select serves prefix_of"
proof
  fix items path r p
  let ?ms = "filter (\<lambda>r. serves r \<and> is_some_and (\<lambda>p. matches_path_prefix p path) (prefix_of r)) items"
  let ?k = "\<lambda>r. case prefix_of r of None \<Rightarrow> 0 | Some p \<Rightarrow> length p"
  have found: "prefix_of x = None \<and> serves x \<and> x \<in> set items"
    if "find (\<lambda>r. prefix_of r = None \<and> serves r) items = Some x" for x
    using find_Some_in [OF that] by simp
  {
    assume s: "select items path = Some r" and p: "prefix_of r = Some p"
    have m: "max_by_key ?k ?ms = Some r"
    proof (cases "max_by_key ?k ?ms")
      case None
      with s have "find (\<lambda>r. prefix_of r = None \<and> serves r) items = Some r" by (simp only: select or_else_simps)
      with found p show ?thesis by simp
    next
      case (Some y)
      with s show ?thesis by (simp only: select or_else_simps)
    qed
    have r: "r \<in> set ?ms" and max: "\<And>y. y \<in> set ?ms \<Longrightarrow> ?k y \<le> ?k r"
      using max_by_key_Some [OF m] by auto
    have "length q \<le> length p"
      if "s \<in> set items" "serves s" "prefix_of s = Some q" "matches_path_prefix q path" for s q
      using max [of s] that p by simp
    with r p show "r \<in> set items \<and> serves r \<and> matches_path_prefix p path \<and>
      (\<forall>s\<in>set items. \<forall>q. serves s \<longrightarrow> prefix_of s = Some q \<longrightarrow> matches_path_prefix q path \<longrightarrow>
         length q \<le> length p)"
      by simp
  }
  {
    assume s: "select items path = Some r" and p: "prefix_of r = None"
    have m: "max_by_key ?k ?ms = None"
    proof (rule ccontr)
      assume "max_by_key ?k ?ms \<noteq> None"
      then obtain y where y: "max_by_key ?k ?ms = Some y" by blast
      with s have "y = r" by (simp add: select)
      with max_by_key_Some [OF y] p show False by simp
    qed
    then have ms: "?ms = []" by simp
    from s m have "find (\<lambda>r. prefix_of r = None \<and> serves r) items = Some r"
      by (simp only: select or_else_simps)
    moreover have "\<not> matches_path_prefix q path" if "s \<in> set items" "serves s" "prefix_of s = Some q" for s q
      using ms that by (auto simp: filter_empty_conv)
    ultimately show "r \<in> set items \<and> serves r \<and>
      (\<forall>s\<in>set items. \<forall>q. serves s \<longrightarrow> prefix_of s = Some q \<longrightarrow> \<not> matches_path_prefix q path)"
      using found [of r] by blast
  }
  {
    assume s: "select items path = None" and r: "r \<in> set items" "serves r"
    from s have "?ms = []" "find (\<lambda>r. prefix_of r = None \<and> serves r) items = None"
      by (simp_all only: select or_else_eq_None max_by_key_None)
    with r show "prefix_of r \<noteq> None \<and> (\<forall>p. prefix_of r = Some p \<longrightarrow> \<not> matches_path_prefix p path)"
      by (auto simp only: filter_empty_conv find_None_iff is_some_and_simps)
  }
qed

interpretation rules: path_selector "\<lambda>rules path. select_backend_for_path rules hostname path"
    "\<lambda>rule. matches_pattern (br_pattern rule) hostname" br_path_prefix for hostname
  by (rule longest_prefix_selector) (simp add: select_backend_for_path_def)

text \<open>A rule of the host whose prefix matches the path.\<close>

definition covers :: "string option \<Rightarrow> string \<Rightarrow> backend_rule \<Rightarrow> string \<Rightarrow> bool" where
  "covers hostname path rule p \<longleftrightarrow>
     matches_pattern (br_pattern rule) hostname \<and> br_path_prefix rule = Some p \<and> matches_path_prefix p path"

lemma select_prefix_last:
  assumes "select_backend_for_path rules hostname path = Some r" "br_path_prefix r = Some p"
  shows "matches_path_prefix p path \<and> (\<exists>before after. rules = before @ r # after \<and>
    (\<forall>s\<in>set before. \<forall>q. covers hostname path s q \<longrightarrow> length q \<le> length p) \<and>
    (\<forall>s\<in>set after. \<forall>q. covers hostname path s q \<longrightarrow> length q < length p))"
proof -
  let ?k = "\<lambda>rule. case br_path_prefix rule of None \<Rightarrow> 0 | Some p \<Rightarrow> length p"
  let ?P = "\<lambda>rule. matches_pattern (br_pattern rule) hostname \<and>
    is_some_and (\<lambda>p. matches_path_prefix p path) (br_path_prefix rule)"
  have "max_by_key ?k (filter ?P rules) = Some r"
  proof (cases "max_by_key ?k (filter ?P rules)")
    case None
    with assms show ?thesis
      by (auto simp only: select_backend_for_path_def or_else_simps dest: find_Some_in)
  next
    case (Some y)
    with assms(1) show ?thesis by (simp only: select_backend_for_path_def or_else_simps)
  qed
  from max_by_key_last [OF this] obtain us vs where split: "filter ?P rules = us @ r # vs"
    and last: "\<forall>y\<in>set us. ?k y \<le> ?k r" "\<forall>y\<in>set vs. ?k y < ?k r" by blast
  from filter_split [OF split] obtain before after where rules: "rules = before @ r # after"
    "filter ?P before = us" "filter ?P after = vs" by blast
  have k: "?k r = length p" "?P s \<and> ?k s = length q" if "covers hostname path s q" for s q
    using that assms(2) by (simp_all add: covers_def)
  have "length q \<le> length p" if "s \<in> set before" "covers hostname path s q" for s q
    using that(1) k [OF that(2)] last(1) unfolding rules(2) [symmetric] by auto
  moreover have "length q < length p" if "s \<in> set after" "covers hostname path s q" for s q
    using that(1) k [OF that(2)] last(2) unfolding rules(3) [symmetric] by auto
  moreover have "matches_path_prefix p path" using rules.select_path [OF assms] by blast
  ultimately show ?thesis using rules(1) by blast
qed

lemma select_fallback_first:
  assumes "select_backend_for_path rules hostname path = Some r" "br_path_prefix r = None"
  shows "\<exists>before after. rules = before @ r # after \<and>
    (\<forall>s\<in>set before. matches_pattern (br_pattern s) hostname \<longrightarrow> br_path_prefix s \<noteq> None)"
proof -
  let ?k = "\<lambda>rule. case br_path_prefix rule of None \<Rightarrow> 0 | Some p \<Rightarrow> length p"
  let ?P = "\<lambda>rule. matches_pattern (br_pattern rule) hostname \<and>
    is_some_and (\<lambda>p. matches_path_prefix p path) (br_path_prefix rule)"
  have "max_by_key ?k (filter ?P rules) = None"
  proof (cases "max_by_key ?k (filter ?P rules)")
    case (Some y)
    with assms(1) have "y = r" by (simp only: select_backend_for_path_def or_else_simps option.inject)
    with max_by_key_Some [OF Some] assms(2) show ?thesis by simp
  qed
  with assms(1) have "find (\<lambda>rule. br_path_prefix rule = None \<and> matches_pattern (br_pattern rule) hostname) rules = Some r"
    by (simp only: select_backend_for_path_def or_else_simps)
  then obtain i where i: "i < length rules" "r = rules ! i"
    "\<forall>j<i. \<not> (br_path_prefix (rules ! j) = None \<and> matches_pattern (br_pattern (rules ! j)) hostname)"
    by (auto simp: find_Some_iff)
  then have "rules = take i rules @ r # drop (Suc i) rules" by (simp add: id_take_nth_drop)
  moreover have "matches_pattern (br_pattern s) hostname \<longrightarrow> br_path_prefix s \<noteq> None" if "s \<in> set (take i rules)" for s
    using that i by (auto simp: in_set_conv_nth)
  ultimately show ?thesis by blast
qed

section \<open>Subjects\<close>

text \<open>The labels a host name is turned into.\<close>

definition host_labels :: "string \<Rightarrow> string list" where
  "host_labels hostname = split_on (CHR ''.'') (to_ascii_lowercase (trim_end_matches (CHR ''.'') hostname))"

lemma hostname_request_subject_Some:
  "hostname_request_subject p h = Some s \<longleftrightarrow>
     2 \<le> length (host_labels h) \<and> list_all valid_label (host_labels h) \<and>
     s = trim_end_matches (CHR ''.'') p @ ''.'' @ join_with ''.'' (rev (host_labels h))"
  by (auto simp: hostname_request_subject_def host_labels_def Let_def list_all_iff)

lemma host_labels_join:
  "join_with ''.'' (host_labels h) = to_ascii_lowercase (trim_end_matches (CHR ''.'') h)"
  by (simp add: host_labels_def join_split)

lemma join_rev_labels_inject:
  assumes "join_with ''.'' (rev (host_labels g)) = join_with ''.'' (rev (host_labels h))"
  shows "host_labels g = host_labels h"
proof -
  have split: "split_on (CHR ''.'') (join_with ''.'' (rev (host_labels x))) = rev (host_labels x)" for x
    by (rule split_join) (auto simp: host_labels_def dest: split_on_pieces)
  from assms have "rev (host_labels g) = rev (host_labels h)"
    using split by metis
  then show ?thesis by simp
qed

lemma valid_label_chars:
  "valid_label l \<Longrightarrow> c \<in> set l \<Longrightarrow> is_ascii_alphanumeric c \<or> c = CHR ''-''"
  by (auto simp: valid_label_def list_all_iff)

lemma set_join_with: "c \<in> set (join_with s ls) \<Longrightarrow> c \<in> set s \<or> (\<exists>l\<in>set ls. c \<in> set l)"
  by (induction ls rule: join_with.induct) auto

section \<open>Properties\<close>

text \<open>C33: the subject of a host name is built so that two host names share a subject exactly when
  they are the same DNS name (up to ASCII case and trailing dots): the ingress and every
  client that serves the name agree on it, and nobody else does. Behind the operator's
  subject prefix a subject holds only letters, digits, hyphens and dots, so a host name can
  never introduce a NATS wildcard or separator, and each of its tokens is a non-empty label
  of at most 63 bytes, in reverse order.\<close>

theorem hostname_subject_injective:
  assumes "hostname_request_subject p g = Some s"
  shows "(hostname_request_subject p h = Some s \<longleftrightarrow>
      eq_ignore_ascii_case (trim_end_matches (CHR ''.'') g) (trim_end_matches (CHR ''.'') h)) \<and>
    (\<exists>labels. s = trim_end_matches (CHR ''.'') p @ ''.'' @ join_with ''.'' labels \<and>
       2 \<le> length labels \<and> list_all valid_label labels \<and>
       split_on (CHR ''.'') (join_with ''.'' labels) = labels \<and>
       rev labels = split_on (CHR ''.'') (to_ascii_lowercase (trim_end_matches (CHR ''.'') g)) \<and>
       (\<forall>c\<in>set (join_with ''.'' labels). is_ascii_alphanumeric c \<or> c = CHR ''-'' \<or> c = CHR ''.''))"
proof -
  note g = assms [unfolded hostname_request_subject_Some]
  let ?ls = "rev (host_labels g)"
  have "hostname_request_subject p h = Some s \<longleftrightarrow> host_labels g = host_labels h"
    using g join_rev_labels_inject by (auto simp: hostname_request_subject_Some)
  moreover have "host_labels g = host_labels h \<longleftrightarrow>
      eq_ignore_ascii_case (trim_end_matches (CHR ''.'') g) (trim_end_matches (CHR ''.'') h)"
    unfolding eq_ignore_ascii_case_def using host_labels_join host_labels_def by metis
  moreover have "split_on (CHR ''.'') (join_with ''.'' ?ls) = ?ls"
    by (rule split_join) (auto simp: host_labels_def dest: split_on_pieces)
  moreover have "is_ascii_alphanumeric c \<or> c = CHR ''-'' \<or> c = CHR ''.''"
    if "c \<in> set (join_with ''.'' ?ls)" for c
    using set_join_with [OF that] g valid_label_chars by (fastforce simp: list_all_iff)
  moreover have "list_all valid_label ?ls" "2 \<le> length ?ls" "rev ?ls = host_labels g"
    using g by (simp_all add: list_all_iff)
  ultimately show ?thesis
    using g unfolding host_labels_def by metis
qed

theorem hostname_subject_injective_witness:
  "hostname_request_subject ''lfp.v1'' ''Cool.Domain.'' = Some ''lfp.v1.domain.cool'' \<and>
   hostname_request_subject ''lfp.v1'' ''cool.domain'' = Some ''lfp.v1.domain.cool''"
proof -
  have "hostname_request_subject ''lfp.v1'' ''Cool.Domain.'' = Some ''lfp.v1.domain.cool''"
    by code_simp
  moreover have "eq_ignore_ascii_case (trim_end_matches (CHR ''.'') ''Cool.Domain.'')
      (trim_end_matches (CHR ''.'') ''cool.domain'')"
    by code_simp
  ultimately show ?thesis
    using hostname_subject_injective [of "''lfp.v1''" "''Cool.Domain.''" "''lfp.v1.domain.cool''"
        "''cool.domain''"] by blast
qed

text \<open>A pattern matches what it says: the empty pattern only traffic without a host name, a
  wildcard exactly the names with its suffix behind at least a dot (never the bare domain),
  any other pattern the names equal to it up to ASCII case.\<close>

theorem matches_pattern_meaning:
  "(matches_pattern [] h \<longleftrightarrow> h = None) \<and>
   (pattern \<noteq> [] \<longrightarrow> \<not> matches_pattern pattern None) \<and>
   (matches_pattern (''*.'' @ rest) (Some name) \<longleftrightarrow> (\<exists>sub. name = sub @ ''.'' @ rest)) \<and>
   \<not> matches_pattern (''*.'' @ rest) (Some rest) \<and>
   (pattern \<noteq> [] \<and> \<not> starts_with ''*.'' pattern \<longrightarrow>
     (matches_pattern pattern (Some name) \<longleftrightarrow> eq_ignore_ascii_case pattern name))"
proof -
  have wild: "matches_pattern (''*.'' @ rest) (Some n) \<longleftrightarrow> (\<exists>sub. n = sub @ ''.'' @ rest)" for n
  proof
    assume "matches_pattern (''*.'' @ rest) (Some n)"
    then obtain u where u: "n = u @ rest" "u \<noteq> []" "n ! (length n - length rest - 1) = CHR ''.''"
      by (auto simp: matches_pattern_def ends_with_iff)
    then have "last u = CHR ''.''" by (simp add: nth_append last_conv_nth)
    with u have "n = butlast u @ ''.'' @ rest" by (metis append.assoc append_butlast_last_id)
    then show "\<exists>sub. n = sub @ ''.'' @ rest" by blast
  next
    assume "\<exists>sub. n = sub @ ''.'' @ rest"
    then show "matches_pattern (''*.'' @ rest) (Some n)"
      by (auto simp: matches_pattern_def ends_with_iff nth_append)
  qed
  have "rest \<noteq> sub @ ''.'' @ rest" for sub
    using arg_cong [of _ _ length] by fastforce
  with wild have "\<not> matches_pattern (''*.'' @ rest) (Some rest)" by blast
  moreover have "strip_prefix ''*.'' pattern = None" if "\<not> starts_with ''*.'' pattern"
    using that by (cases "strip_prefix ''*.'' pattern") (simp_all only: starts_with_def, simp)
  ultimately show ?thesis using wild [of name] by (auto simp: matches_pattern_def)
qed

theorem matches_pattern_meaning_witness:
  "\<not> matches_pattern ''example.com'' None \<and>
   (matches_pattern ''Example.com'' (Some ''example.com'') \<longleftrightarrow>
    eq_ignore_ascii_case ''Example.com'' ''example.com'')"
  using matches_pattern_meaning [of None "''example.com''" "[]" "[]"]
    matches_pattern_meaning [of None "''Example.com''" "[]" "''example.com''"]
  by (simp add: starts_with_def)

text \<open>A host name in upper case is found by an exact pattern but not by a wildcard: the
  comparison of the suffix is case-sensitive.\<close>

theorem wildcard_case_sensitive:
  "matches_pattern ''foo.example.com'' (Some ''foo.Example.com'') \<and>
   matches_pattern ''*.example.com'' (Some ''foo.example.com'') \<and>
   \<not> matches_pattern ''*.example.com'' (Some ''foo.Example.com'')"
  by code_simp

text \<open>C34: a path prefix is matched on segments: \<^verbatim>\<open>/api\<close> covers \<^verbatim>\<open>/api\<close> and everything below
  \<^verbatim>\<open>/api/\<close>, never \<^verbatim>\<open>/api-other\<close>. The rule chosen for a request belongs to its host. If it has a
  prefix, the prefix matches the path, no matching prefix of the host is longer, and none of the
  same length comes later; if it has none, no prefix of the host matches and it is the first such
  rule of the host. Nothing is chosen only when every rule of the host has a prefix that does not
  match.\<close>

theorem select_backend_for_path_most_specific:
  "(p \<noteq> ''/'' \<longrightarrow> (matches_path_prefix p path \<longleftrightarrow>
      starts_with (split_on (CHR ''/'') (trim_end_matches (CHR ''/'') p)) (split_on (CHR ''/'') path))) \<and>
   (case select_backend_for_path rules hostname path of
      None \<Rightarrow> (\<forall>r\<in>set rules. matches_pattern (br_pattern r) hostname \<longrightarrow>
        (\<exists>q. br_path_prefix r = Some q \<and> \<not> matches_path_prefix q path))
    | Some r \<Rightarrow> matches_pattern (br_pattern r) hostname \<and>
        (\<exists>before after. rules = before @ r # after \<and>
          (case br_path_prefix r of
             Some p \<Rightarrow> matches_path_prefix p path \<and>
               (\<forall>s\<in>set before. \<forall>q. covers hostname path s q \<longrightarrow> length q \<le> length p) \<and>
               (\<forall>s\<in>set after. \<forall>q. covers hostname path s q \<longrightarrow> length q < length p)
           | None \<Rightarrow> (\<forall>s\<in>set rules. \<forall>q. \<not> covers hostname path s q) \<and>
               (\<forall>s\<in>set before. matches_pattern (br_pattern s) hostname \<longrightarrow> br_path_prefix s \<noteq> None))))"
proof (cases "select_backend_for_path rules hostname path")
  case None
  then show ?thesis using rules.select_none [OF None] matches_path_prefix_segments by fastforce
next
  case (Some r)
  then show ?thesis
    using rules.select_in [OF Some] rules.select_fallback [OF Some] matches_path_prefix_segments
      select_prefix_last [OF Some] select_fallback_first [OF Some]
    by (cases "br_path_prefix r") (auto simp: covers_def)
qed

text \<open>A host with two nested prefixes and a fallback.\<close>

definition path_rule_of :: "string option \<Rightarrow> backend_rule" where
  "path_rule_of p = \<lparr>br_pattern = ''h.x'', br_path_prefix = p, br_strip_path_prefix = False, br_proxy_headers = False,
     br_backend_addr = ''a:1'', br_backend_host = None, br_http_backend_addr = None, br_authorization = None\<rparr>"

definition nested_rules :: "backend_rule list" where
  "nested_rules = [path_rule_of None, path_rule_of (Some ''/api/v1''), path_rule_of (Some ''/api'')]"

theorem select_backend_for_path_most_specific_witness:
  "select_backend_for_path nested_rules (Some ''h.x'') ''/api/v1/u'' = Some (path_rule_of (Some ''/api/v1'')) \<and>
   covers (Some ''h.x'') ''/api/v1/u'' (path_rule_of (Some ''/api'')) ''/api'' \<and> length ''/api'' < length ''/api/v1'' \<and>
   select_backend_for_path nested_rules (Some ''h.x'') ''/api-other'' = Some (path_rule_of None) \<and>
   \<not> covers (Some ''h.x'') ''/api-other'' (path_rule_of (Some ''/api'')) ''/api''"
proof -
  have selected: "select_backend_for_path nested_rules (Some ''h.x'') ''/api/v1/u'' = Some (path_rule_of (Some ''/api/v1''))"
    "select_backend_for_path nested_rules (Some ''h.x'') ''/api-other'' = Some (path_rule_of None)"
    "covers (Some ''h.x'') ''/api/v1/u'' (path_rule_of (Some ''/api'')) ''/api''"
    by (simp_all only: covers_def) code_simp+
  moreover have "\<not> covers (Some ''h.x'') ''/api-other'' (path_rule_of (Some ''/api'')) ''/api''"
  proof -
    have "br_path_prefix (path_rule_of None) = None" "path_rule_of (Some ''/api'') \<in> set nested_rules"
      by (simp_all add: path_rule_of_def nested_rules_def)
    then show ?thesis
      using select_backend_for_path_most_specific [of "''/api''" "''/api-other''" nested_rules "Some ''h.x''"]
      unfolding selected(2) option.case by auto
  qed
  ultimately show ?thesis by simp
qed

end
