(* ===== verification/Ingress_Claims.thy ===== *)
theory Ingress_Claims
  imports Protocol Config_Expand Routing "HOL-Library.Multiset"
begin

text \<open>
  Choosing the client for a public connection (\<^verbatim>\<open>ingress/src/lib.rs\<close>): publishing the request,
  collecting the claims, the round-robin cursor per route, and the acknowledgements. NATS
  is third-party code: \<open>nats_env\<close> holds its answers (readiness, a fresh inbox, the outcome of
  subscribing and of each publication, and the claims that arrive, in order, up to the end
  of the collection window). The result carries the messages published, in order.
\<close>

datatype nats_state = Connected | Disconnected

datatype claim_event = Claim_message bytes "string option" | Subscription_end | Window_end

type_synonym message = "string \<times> string option \<times> bytes"

record nats_env =
  ne_state :: nats_state
  ne_flush :: "unit res"
  ne_reconnect :: "unit res"
  ne_flush_again :: "unit res"
  ne_inbox :: string
  ne_subscribe :: "unit res"
  ne_publish :: "message \<Rightarrow> unit res"
  ne_claims :: "claim_event list"

text \<open>\<^verbatim>\<open>flush\<close> below is the outcome of \<^verbatim>\<open>flush_nats\<close>, which is bounded by its own timeout.\<close>

definition ensure_nats_ready :: "nats_env \<Rightarrow> unit res" where
  "ensure_nats_ready nats =
     (if ne_state nats = Connected \<and> ne_flush nats = Inr () then Inr ()
      else and_then (add_context ''failed to request NATS reconnection'' (ne_reconnect nats)) (\<lambda>_.
        add_context ''NATS did not recover after forced reconnection'' (ne_flush_again nats)))"

type_synonym cursors = "string \<Rightarrow> usize option"

definition next_claim_index :: "cursors \<Rightarrow> string \<Rightarrow> usize \<Rightarrow> usize \<times> cursors" where
  "next_claim_index cursors route_key claim_count =
     (let cursor = unwrap_or 0 (cursors route_key);
          selected = cursor mod claim_count in
      (selected, cursors(route_key \<mapsto> (cursor + 1) mod claim_count)))"

text \<open>The collection loop behind the first claim; an empty window collects nothing.\<close>

fun more_claims :: "claim_event list \<Rightarrow> (bytes \<times> string option) list" where
  "more_claims (Claim_message payload reply # es) = (payload, reply) # more_claims es"
| "more_claims _ = []"

definition collect_claims :: "u64 \<Rightarrow> claim_event list \<Rightarrow> (bytes \<times> string option) list res" where
  "collect_claims claim_timeout_ms events = (case events of
      Claim_message payload reply # es \<Rightarrow>
        Inr ((payload, reply) # (if min claim_timeout_ms 100 = 0 then [] else more_claims es))
    | Subscription_end # _ \<Rightarrow> bail ''claim subscription ended unexpectedly''
    | _ \<Rightarrow> Inl [Msg ''timed out waiting for client claim'', Ext_cause ''deadline has elapsed''])"

definition decode_claim ::
    "(bytes \<Rightarrow> sval option) \<Rightarrow> string \<Rightarrow> bytes \<times> string option \<Rightarrow> (connection_claim \<times> string option) res" where
  "decode_claim from_text connection_id msg =
     and_then (decode_json from_text de_connection_claim (fst msg)) (\<lambda>claim.
     if cc_connection_id claim \<noteq> connection_id then bail ''claim connection id mismatch''
     else Inr (claim, snd msg))"

definition connection_request_for ::
    "ingress_config \<Rightarrow> string \<Rightarrow> u64 \<Rightarrow> string \<Rightarrow> string option \<Rightarrow> string \<Rightarrow> bool \<Rightarrow> connection_request" where
  "connection_request_for config reply_subject now connection_id hostname client_ip tls =
     \<lparr>cr_connection_id = connection_id, cr_hostname = hostname, cr_client_ip = Some client_ip,
      cr_tls = tls, cr_reply_subject = reply_subject,
      cr_ingress_callback_addr = ingress_callback_addr config,
      cr_deadline_unix_ms = now + ic_claim_timeout_ms config\<rparr>"

definition request_subject_for :: "ingress_config \<Rightarrow> string option \<Rightarrow> string res" where
  "request_subject_for config hostname =
     (if ic_domain_subject_routing config then
        and_then (opt_context ''hostname is required for domain subject routing'' hostname) (\<lambda>hostname.
          opt_context ''hostname cannot be represented as a NATS subject''
            (hostname_request_subject (ic_request_subject config) hostname))
      else Inr (ic_request_subject config))"

definition claim_ack :: "bool \<Rightarrow> connection_claim \<Rightarrow> connection_claim_ack" where
  "claim_ack accepted claim =
     \<lparr>ack_accepted = accepted, ack_client_id = cc_client_id claim,
      ack_connection_id = cc_connection_id claim,
      ack_reason = (if accepted then None else Some ''another client won round-robin selection'')\<rparr>"

text \<open>The loop over the sorted claims; it returns what was published and whether it got through.\<close>

fun publish_acks ::
    "(sval \<Rightarrow> bytes) \<Rightarrow> (message \<Rightarrow> unit res) \<Rightarrow> nat \<Rightarrow> nat \<Rightarrow> (connection_claim \<times> string option) list \<Rightarrow>
     unit res \<times> message list" where
  "publish_acks to_text publish winner_index index [] = (Inr (), [])"
| "publish_acks to_text publish winner_index index ((claim, None) # claims) =
     publish_acks to_text publish winner_index (index + 1) claims"
| "publish_acks to_text publish winner_index index ((claim, Some ack_subject) # claims) =
     (let message = (ack_subject, None,
            encode_json to_text ser_connection_claim_ack (claim_ack (index = winner_index) claim)) in
      case add_context ''failed to publish claim ack'' (publish message) of
        Inl e \<Rightarrow> (Inl e, [])
      | Inr _ \<Rightarrow> (case publish_acks to_text publish winner_index (index + 1) claims of
            (r, messages) \<Rightarrow> (r, message # messages)))"

definition route_key_for :: "string option \<Rightarrow> string" where
  "route_key_for hostname = unwrap_or ''<default>'' (map_option to_ascii_lowercase hostname)"

definition sort_claims ::
    "(connection_claim \<times> string option) list \<Rightarrow> (connection_claim \<times> string option) list" where
  "sort_claims claims = sort_key (\<lambda>c. cc_client_id (fst c)) claims"

text \<open>The part behind the collection: validation, selection and acknowledgement.\<close>

definition settle_claims ::
    "(sval \<Rightarrow> bytes) \<Rightarrow> (bytes \<Rightarrow> sval option) \<Rightarrow> (message \<Rightarrow> unit res) \<Rightarrow> cursors \<Rightarrow> string \<Rightarrow> string option \<Rightarrow>
     (bytes \<times> string option) list \<Rightarrow> connection_claim res \<times> cursors \<times> message list" where
  "settle_claims to_text from_text publish cursors connection_id hostname claim_messages =
     (case collect_res (decode_claim from_text connection_id) claim_messages of
        Inl e \<Rightarrow> (Inl e, cursors, [])
      | Inr valid_claims \<Rightarrow>
          let claims = sort_claims valid_claims;
              (winner_index, cursors') =
                next_claim_index cursors (route_key_for hostname) (of_nat (length claims));
              winner = fst (claims ! unat winner_index);
              (r, acks) = publish_acks to_text publish (unat winner_index) 0 claims in
          (and_then r (\<lambda>_. Inr winner), cursors', acks))"

definition broadcast_and_wait_for_claim ::
    "(sval \<Rightarrow> bytes) \<Rightarrow> (bytes \<Rightarrow> sval option) \<Rightarrow> ingress_config \<Rightarrow> nats_env \<Rightarrow> u64 \<Rightarrow> cursors \<Rightarrow>
     string \<Rightarrow> string option \<Rightarrow> string \<Rightarrow> bool \<Rightarrow> connection_claim res \<times> cursors \<times> message list" where
  "broadcast_and_wait_for_claim to_text from_text config nats now cursors connection_id hostname client_ip tls =
     (case and_then (add_context ''NATS is unavailable for tunnel claim'' (ensure_nats_ready nats)) (\<lambda>_.
           and_then (add_context ''failed to subscribe to claim inbox'' (ne_subscribe nats)) (\<lambda>_.
           and_then (request_subject_for config hostname) (\<lambda>request_subject.
           let request = (request_subject, Some (ne_inbox nats),
                 encode_json to_text ser_connection_request
                   (connection_request_for config (ne_inbox nats) now connection_id hostname client_ip tls)) in
           and_then (add_context ''failed to publish connection request'' (ne_publish nats request)) (\<lambda>_.
             Inr request)))) of
        Inl e \<Rightarrow> (Inl e, cursors, [])
      | Inr request \<Rightarrow> (case collect_claims (ic_claim_timeout_ms config) (ne_claims nats) of
            Inl e \<Rightarrow> (Inl e, cursors, [request])
          | Inr claim_messages \<Rightarrow>
              (case settle_claims to_text from_text (ne_publish nats) cursors connection_id hostname
                  claim_messages of
                (r, cursors', acks) \<Rightarrow> (r, cursors', request # acks))))"

section \<open>Round robin\<close>

text \<open>The selections of \<open>k\<close> consecutive requests for a route with a constant number of claims.\<close>

fun selections :: "nat \<Rightarrow> cursors \<Rightarrow> string \<Rightarrow> usize \<Rightarrow> usize list" where
  "selections 0 cursors key n = []"
| "selections (Suc k) cursors key n =
     (case next_claim_index cursors key n of (i, cursors') \<Rightarrow> i # selections k cursors' key n)"

text \<open>A cursor is zero or a remainder, so the increment never wraps.\<close>

definition cursors_ok :: "cursors \<Rightarrow> bool" where
  "cursors_ok cursors \<longleftrightarrow> (\<forall>key c. cursors key = Some c \<longrightarrow> unat c < 2 ^ 64 - 1)"

lemma unat_mod_less: "0 < n \<Longrightarrow> unat (x mod n) < 2 ^ 64 - 1" for x n :: usize
proof -
  assume "0 < n"
  then have "unat (x mod n) < unat n" by (simp add: unat_mod_distrib word_less_nat_alt)
  moreover have "unat n < 2 ^ LENGTH(64)" by (rule unsigned_less)
  then have "unat n < 2 ^ 64" by simp
  ultimately show ?thesis by linarith
qed

lemma next_claim_index_ok:
  assumes "cursors_ok cursors" "0 < n" "next_claim_index cursors key n = (i, cursors')"
  shows "cursors_ok cursors'" "unat i < unat n"
proof -
  show "cursors_ok cursors'"
    using assms unat_mod_less
    by (auto simp: next_claim_index_def Let_def cursors_ok_def split: if_splits)
  show "unat i < unat n"
    using assms(2,3) by (auto simp: next_claim_index_def Let_def unat_mod_distrib word_less_nat_alt)
qed

lemma selections_eq:
  assumes "cursors_ok cursors" "0 < n"
  shows "map unat (selections k cursors key n) =
    map (\<lambda>j. (unat (unwrap_or 0 (cursors key)) + j) mod unat n) [0..<k]"
  using assms
proof (induction k arbitrary: cursors)
  case 0
  then show ?case by simp
next
  case (Suc k)
  let ?c = "unwrap_or 0 (cursors key)"
  obtain i cursors' where step: "next_claim_index cursors key n = (i, cursors')" by force
  have c: "unat ?c < 2 ^ 64 - 1"
    using Suc.prems(1) by (cases "cursors key") (auto simp: cursors_ok_def)
  then have "unat (?c + 1) = unat ?c + 1"
    using unat_add_lem [of ?c 1] by simp
  then have c': "unat (unwrap_or 0 (cursors' key)) = (unat ?c + 1) mod unat n"
    using step by (auto simp: next_claim_index_def Let_def unat_mod_distrib)
  have "cursors_ok cursors'" using next_claim_index_ok [OF Suc.prems step] by simp
  then have "map unat (selections k cursors' key n) =
      map (\<lambda>j. ((unat ?c + 1) mod unat n + j) mod unat n) [0..<k]"
    using Suc.IH Suc.prems(2) c' by simp
  also have "\<dots> = map (\<lambda>j. (unat ?c + j) mod unat n) (map Suc [0..<k])"
    by (simp add: mod_simps)
  finally have "map unat (selections k cursors' key n) =
      map (\<lambda>j. (unat ?c + j) mod unat n) [Suc 0..<Suc k]"
    by (simp only: map_Suc_upt)
  moreover have "unat i = unat ?c mod unat n"
    using step by (auto simp: next_claim_index_def Let_def unat_mod_distrib)
  ultimately show ?case using step by (simp add: upt_conv_Cons del: upt_Suc)
qed

lemma shifted_residues: "bij_betw (\<lambda>j. (c + j) mod n) {..<n} {..<n}" if "0 < n" for n :: nat
proof -
  have "inj_on (\<lambda>j. (c + j) mod n) {..<n}"
  proof (rule linorder_inj_onI)
    fix i j assume "i < j" "i \<in> {..<n}" "j \<in> {..<n}"
    then have "\<not> n dvd (c + j) - (c + i)" by (auto dest: dvd_imp_le)
    then show "(c + i) mod n \<noteq> (c + j) mod n"
      using mod_eq_dvd_iff_nat [of "c + i" "c + j" n] \<open>i < j\<close> by auto
  qed auto
  moreover have "(\<lambda>j. (c + j) mod n) ` {..<n} \<subseteq> {..<n}" using that by auto
  ultimately show ?thesis by (simp add: bij_betw_def endo_inj_surj)
qed

section \<open>Settling the claims\<close>

definition ack_message ::
    "(sval \<Rightarrow> bytes) \<Rightarrow> nat \<Rightarrow> nat \<times> (connection_claim \<times> string option) \<Rightarrow> message option" where
  "ack_message to_text winner_index ic = map_option (\<lambda>subject. (subject, None,
     encode_json to_text ser_connection_claim_ack
       (claim_ack (fst ic = winner_index) (fst (snd ic))))) (snd (snd ic))"

lemma publish_acks_messages:
  "publish_acks to_text publish w i claims = (Inr u, messages) \<Longrightarrow>
     messages = filter_map (ack_message to_text w) (enumerate i claims)"
  by (induction to_text publish w i claims arbitrary: messages rule: publish_acks.induct)
    (auto simp: ack_message_def Let_def split: sum.splits prod.splits)

lemma publish_acks_total:
  "(\<And>m. publish m = Inr ()) \<Longrightarrow> \<exists>messages. publish_acks to_text publish w i claims = (Inr (), messages)"
  by (induction to_text publish w i claims rule: publish_acks.induct)
    (auto simp: Let_def split: prod.splits)

text \<open>Everything a successful settlement went through.\<close>

lemma settle_claims_InrD:
  assumes "settle_claims to_text from_text publish cursors connection_id hostname msgs =
      (Inr winner, cursors', acks)"
    and "msgs \<noteq> []" "length msgs < 2 ^ 64"
  obtains claims w where "collect_res (decode_claim from_text connection_id) msgs = Inr claims"
    "next_claim_index cursors (route_key_for hostname) (of_nat (length claims)) = (w, cursors')"
    "unat w < length claims" "winner = fst (sort_claims claims ! unat w)"
    "acks = filter_map (ack_message to_text (unat w)) (enumerate 0 (sort_claims claims))"
    "0 < (of_nat (length claims) :: usize)"
proof -
  from assms(1) obtain claims where claims: "collect_res (decode_claim from_text connection_id) msgs = Inr claims"
    by (auto simp: settle_claims_def split: sum.splits)
  let ?n = "of_nat (length claims) :: usize"
  obtain w cs where w: "next_claim_index cursors (route_key_for hostname) ?n = (w, cs)" by force
  obtain r as where r: "publish_acks to_text publish (unat w) 0 (sort_claims claims) = (r, as)" by force
  have len: "length claims = length msgs"
    using claims by (auto simp: collect_res_Inr_iff dest: list_all2_lengthD)
  then have n: "unat ?n = length claims"
    using assms(3) by (simp add: unat_of_nat take_bit_nat_eq_self)
  then have "0 < ?n" using assms(2) len by (simp add: word_less_nat_alt)
  moreover have "unat w < length claims"
  proof -
    have "unat w = unat (unwrap_or 0 (cursors (route_key_for hostname))) mod unat ?n"
      using w by (auto simp: next_claim_index_def Let_def unat_mod_distrib)
    then show ?thesis using n len assms(2) by (cases msgs) (auto simp: mod_less_divisor)
  qed
  moreover have "cs = cursors'" "winner = fst (sort_claims claims ! unat w)" "r = Inr ()" "as = acks"
    using assms(1) claims w r by (auto simp: settle_claims_def Let_def sort_claims_def res_simps)
  ultimately show ?thesis using that claims w r publish_acks_messages by blast
qed

lemma decode_claims_connection:
  assumes "collect_res (decode_claim from_text connection_id) msgs = Inr claims" "c \<in> set claims"
  shows "cc_connection_id (fst c) = connection_id"
proof -
  from assms obtain i where "i < length claims" "c = claims ! i"
    "decode_claim from_text connection_id (msgs ! i) = Inr (claims ! i)"
    by (auto simp: collect_res_Inr_iff list_all2_conv_all_nth in_set_conv_nth)
  then show ?thesis
    by (auto simp: decode_claim_def res_simps split: if_splits dest!: arg_cong [of _ _ fst])
qed

lemma set_sort_claims [simp]: "set (sort_claims claims) = set claims"
  by (simp add: sort_claims_def)

lemma length_sort_claims [simp]: "length (sort_claims claims) = length claims"
  by (simp add: sort_claims_def)

lemma sort_claims_ids: "map (\<lambda>c. cc_client_id (fst c)) (sort_claims claims) =
    sort (map (\<lambda>c. cc_client_id (fst c)) claims)"
  unfolding sort_claims_def by (rule sym, rule properties_for_sort) simp_all

lemma filter_map_eq: "filter_map f xs = map (the \<circ> f) (filter (\<lambda>x. f x \<noteq> None) xs)"
  by (induction xs) (auto split: option.splits)

lemma filter_enumerate_one:
  "length (filter (\<lambda>p. fst p = w \<and> P (snd p)) (enumerate i xs)) \<le> 1"
proof -
  have "distinct (map fst (filter (\<lambda>p. fst p = w \<and> P (snd p)) (enumerate i xs)))"
    by (simp add: distinct_map_filter)
  moreover have "set (map fst (filter (\<lambda>p. fst p = w \<and> P (snd p)) (enumerate i xs))) \<subseteq> {w}" by auto
  ultimately have "length (map fst (filter (\<lambda>p. fst p = w \<and> P (snd p)) (enumerate i xs))) \<le> card {w}"
    by (metis card_mono distinct_card finite.emptyI finite.insertI)
  then show ?thesis by simp
qed

text \<open>The clients' view of an acknowledgement.\<close>

definition accepts :: "(bytes \<Rightarrow> sval option) \<Rightarrow> message \<Rightarrow> bool" where
  "accepts from_text m \<longleftrightarrow>
     (case decode_json from_text de_connection_claim_ack (snd (snd m)) of
        Inl _ \<Rightarrow> False | Inr ack \<Rightarrow> ack_accepted ack)"

lemma decode_ack_message:
  assumes "\<And>v. from_text (to_text v) = Some v" "ack_message to_text w ic = Some m"
  shows "decode_json from_text de_connection_claim_ack (snd (snd m)) =
    Inr (claim_ack (fst ic = w) (fst (snd ic)))"
  using assms by (auto simp: ack_message_def decode_encode_json)

lemma accepts_ack_message:
  assumes "\<And>v. from_text (to_text v) = Some v" "ack_message to_text w ic = Some m"
  shows "accepts from_text m \<longleftrightarrow> fst ic = w"
  by (simp add: accepts_def decode_ack_message [OF assms] claim_ack_def)

lemma accepted_acks:
  assumes "\<And>v. from_text (to_text v) = Some v"
  shows "length (filter (accepts from_text) (filter_map (ack_message to_text w) ics)) =
    length (filter (\<lambda>p. fst p = w \<and> snd (snd p) \<noteq> None) ics)"
proof (induction ics)
  case Nil
  then show ?case by simp
next
  case (Cons ic ics)
  then show ?case
    using accepts_ack_message [OF assms, of w ic]
    by (cases "snd (snd ic)") (auto simp: ack_message_def)
qed

section \<open>Properties\<close>

text \<open>C37: round robin is fair. Over as many consecutive requests for a route as there are claims,
  every claim (in the order of client ids) is selected exactly once, wherever the cursor
  stood; the selected index is always in range and the cursor never overflows.\<close>

theorem round_robin_fair:
  assumes "cursors_ok cursors" "0 < n"
  shows "distinct (selections (unat n) cursors key n) \<and>
    unat ` set (selections (unat n) cursors key n) = {..<unat n} \<and>
    cursors_ok (snd (next_claim_index cursors key n)) \<and> cursors_ok (\<lambda>_. None)"
proof -
  let ?c = "unat (unwrap_or 0 (cursors key))"
  have n: "0 < unat n" using assms(2) by (simp add: word_less_nat_alt)
  note bij = shifted_residues [OF n, of ?c]
  have "distinct (map (\<lambda>j. (?c + j) mod unat n) [0..<unat n])"
    using bij by (simp add: distinct_map bij_betw_def lessThan_atLeast0)
  then have "distinct (map unat (selections (unat n) cursors key n))"
    by (simp add: selections_eq [OF assms])
  moreover have "unat ` set (selections (unat n) cursors key n) =
      (\<lambda>j. (?c + j) mod unat n) ` {..<unat n}"
    using arg_cong [OF selections_eq [OF assms, of "unat n" key], of set]
    by (simp add: lessThan_atLeast0)
  moreover have "cursors_ok (snd (next_claim_index cursors key n))"
    using next_claim_index_ok(1) [OF assms] by (metis prod.collapse)
  ultimately show ?thesis
    using bij by (simp add: distinct_map bij_betw_def cursors_ok_def)
qed

theorem round_robin_fair_witness:
  "unat ` set (selections 3 (\<lambda>_. None) ''h'' 3) = {..<3}"
  using round_robin_fair [of "\<lambda>_. None" 3 "''h''"] by (simp add: cursors_ok_def)

text \<open>C10: exactly one client wins. When a public connection is settled, the winner claimed this very
  connection; among the acknowledgements published at most one is an acceptance, and it answers the
  winner's claim; every other one tells its claim that it lost, with the reason; and the request
  preceding them carries the connection id, the callback address and the inbox the claims were
  read from.\<close>

theorem one_winner:
  assumes "\<And>v. from_text (to_text v) = Some v"
    and "broadcast_and_wait_for_claim to_text from_text config nats now cursors connection_id hostname
      client_ip tls = (Inr winner, cursors', messages)"
    and "length (ne_claims nats) < 2 ^ 64"
  shows "cc_connection_id winner = connection_id \<and>
    length (filter (accepts from_text) (tl messages)) \<le> 1 \<and>
    (\<forall>m\<in>set (tl messages). \<exists>claim. decode_json from_text de_connection_claim_ack (snd (snd m)) =
       Inr (claim_ack (accepts from_text m) claim) \<and> (accepts from_text m \<longrightarrow> claim = winner)) \<and>
    decode_json from_text de_connection_request (snd (snd (hd messages))) =
      Inr (connection_request_for config (ne_inbox nats) now connection_id hostname client_ip tls)"
proof -
  obtain request msgs acks where
    msgs: "collect_claims (ic_claim_timeout_ms config) (ne_claims nats) = Inr msgs"
    and settle: "settle_claims to_text from_text (ne_publish nats) cursors connection_id hostname msgs =
      (Inr winner, cursors', acks)"
    and messages: "messages = request # acks"
    and request: "snd (snd request) = encode_json to_text ser_connection_request
      (connection_request_for config (ne_inbox nats) now connection_id hostname client_ip tls)"
    using assms(2) by (auto simp: broadcast_and_wait_for_claim_def Let_def res_simps
        split: sum.splits prod.splits)
  have more: "length (more_claims es) \<le> length es" for es
    by (induction es rule: more_claims.induct) auto
  have "msgs \<noteq> []" "length msgs \<le> length (ne_claims nats)"
    using msgs more by (auto simp: collect_claims_def bail_def Suc_le_mono split: list.splits claim_event.splits)
  then have len: "length msgs < 2 ^ 64" using assms(3) by linarith
  obtain claims and w :: usize where c: "collect_res (decode_claim from_text connection_id) msgs = Inr claims"
    "unat w < length claims" "winner = fst (sort_claims claims ! unat w)"
    "acks = filter_map (ack_message to_text (unat w)) (enumerate 0 (sort_claims claims))"
    by (rule settle_claims_InrD [OF settle \<open>msgs \<noteq> []\<close> len]) blast
  have "sort_claims claims ! unat w \<in> set claims"
    using c(2) by (metis length_sort_claims nth_mem set_sort_claims)
  then have "cc_connection_id winner = connection_id"
    using decode_claims_connection [OF c(1)] c(3) by blast
  moreover have "length (filter (accepts from_text) acks) \<le> 1"
    using accepted_acks [OF assms(1), of "unat w"] filter_enumerate_one c(4) by simp
  moreover have "\<exists>claim. decode_json from_text de_connection_claim_ack (snd (snd m)) =
      Inr (claim_ack (accepts from_text m) claim) \<and> (accepts from_text m \<longrightarrow> claim = winner)"
    if "m \<in> set acks" for m
  proof -
    from that c(4) obtain ic where ic: "ic \<in> set (enumerate 0 (sort_claims claims))"
      "ack_message to_text (unat w) ic = Some m"
      by (auto simp: filter_map_eq)
    moreover have "fst (snd ic) = winner" if "fst ic = unat w"
      using ic(1) c(3) that by (auto simp: in_set_enumerate_eq)
    ultimately show ?thesis
      using decode_ack_message [OF assms(1) ic(2)] accepts_ack_message [OF assms(1) ic(2)] by auto
  qed
  moreover have "decode_json from_text de_connection_request (snd (snd request)) =
      Inr (connection_request_for config (ne_inbox nats) now connection_id hostname client_ip tls)"
    using request by (simp add: decode_encode_json assms(1))
  ultimately show ?thesis using messages by simp
qed

text \<open>An ingress with two clients claiming one connection.\<close>

definition example_ingress :: ingress_config where
  "example_ingress =
     \<lparr>ic_public_listen = ''p'', ic_data_listen = ''d'', ic_advertised_data_addr = None,
      ic_nats_url = ''n'', ic_nats_token_file = None, ic_relay_mode = Auto,
      ic_request_subject = default_request_subject, ic_domain_subject_routing = False,
      ic_claim_timeout_ms = default_claim_timeout_ms, ic_pending_timeout_ms = default_pending_timeout_ms,
      ic_ingress_handshake_timeout_ms = default_ingress_handshake_timeout_ms,
      ic_callback_handshake_timeout_ms = default_callback_handshake_timeout_ms,
      ic_max_ingress_connections = 0, ic_max_callback_handshakes = 0,
      ic_sni_passthrough_routes = []\<rparr>"

definition example_claim :: "string \<Rightarrow> bytes" where
  "example_claim client_id = encode_json unary_text ser_connection_claim
     \<lparr>cc_client_id = client_id, cc_connection_id = ''c''\<rparr>"

definition example_nats :: nats_env where
  "example_nats =
     \<lparr>ne_state = Connected, ne_flush = Inr (), ne_reconnect = Inr (), ne_flush_again = Inr (),
      ne_inbox = ''inbox'', ne_subscribe = Inr (), ne_publish = (\<lambda>_. Inr ()),
      ne_claims = [Claim_message (example_claim ''b'') (Some ''rb''),
                   Claim_message (example_claim ''a'') (Some ''ra''), Window_end]\<rparr>"

lemma decode_example_claim:
  "decode_claim unary_parse ''c'' (example_claim i, r) =
     Inr (\<lparr>cc_client_id = i, cc_connection_id = ''c''\<rparr>, r)"
  by (simp add: decode_claim_def example_claim_def decode_encode_json)

lemma example_broadcast:
  "\<exists>winner cursors' messages. broadcast_and_wait_for_claim unary_text unary_parse example_ingress
     example_nats 0 (\<lambda>_. None) ''c'' None ''1.2.3.4'' False = (Inr winner, cursors', messages)"
  by (simp add: broadcast_and_wait_for_claim_def example_nats_def example_ingress_def
      ensure_nats_ready_def request_subject_for_def collect_claims_def default_claim_timeout_ms_def
      settle_claims_def decode_example_claim next_claim_index_def Let_def sort_claims_def)

theorem one_winner_witness:
  "\<exists>winner cursors' messages. broadcast_and_wait_for_claim unary_text unary_parse example_ingress
     example_nats 0 (\<lambda>_. None) ''c'' None ''1.2.3.4'' False = (Inr winner, cursors', messages) \<and>
     cc_connection_id winner = ''c'' \<and> length (filter (accepts unary_parse) (tl messages)) \<le> 1"
proof -
  obtain winner cursors' messages where b: "broadcast_and_wait_for_claim unary_text unary_parse
      example_ingress example_nats 0 (\<lambda>_. None) ''c'' None ''1.2.3.4'' False = (Inr winner, cursors', messages)"
    using example_broadcast by blast
  from one_winner [OF _ b] b show ?thesis by (simp add: example_nats_def)
qed

text \<open>The winner does not depend on the order in which the claims arrive, only on who claimed
  and on the cursor: two arrival orders of the same claims choose the same client and leave
  the same cursor.\<close>

theorem winner_arrival_order:
  assumes "\<And>m. publish m = Inr ()"
    and "collect_res (decode_claim from_text connection_id) msgs = Inr claims"
    and "collect_res (decode_claim from_text connection_id) msgs' = Inr claims'"
    and "mset claims = mset claims'" "claims \<noteq> []" "length claims < 2 ^ 64"
  shows "fst (settle_claims to_text from_text publish cursors connection_id hostname msgs) =
      fst (settle_claims to_text from_text publish cursors connection_id hostname msgs') \<and>
    fst (snd (settle_claims to_text from_text publish cursors connection_id hostname msgs)) =
      fst (snd (settle_claims to_text from_text publish cursors connection_id hostname msgs'))"
proof -
  let ?n = "of_nat (length claims) :: usize"
  have len: "length claims' = length claims" using assms(4) by (metis size_mset)
  obtain w cs where w: "next_claim_index cursors (route_key_for hostname) ?n = (w, cs)" by force
  have n: "unat ?n = length claims"
    using assms(6) by (simp add: unat_of_nat take_bit_nat_eq_self)
  have "unat w < length claims"
    using w n assms(5) by (auto simp: next_claim_index_def Let_def unat_mod_distrib)
  moreover have "map (\<lambda>c. cc_client_id (fst c)) (sort_claims claims) =
      map (\<lambda>c. cc_client_id (fst c)) (sort_claims claims')"
    unfolding sort_claims_ids using assms(4) by (intro properties_for_sort) simp_all
  ultimately have id: "cc_client_id (fst (sort_claims claims ! unat w)) =
      cc_client_id (fst (sort_claims claims' ! unat w))"
    using len by (metis length_map length_sort_claims nth_map)
  have "cc_connection_id (fst (sort_claims xs ! unat w)) = connection_id"
    if "collect_res (decode_claim from_text connection_id) ms = Inr xs" "unat w < length xs" for xs ms
    using decode_claims_connection [OF that(1)] that(2) by (metis length_sort_claims nth_mem set_sort_claims)
  with id \<open>unat w < length claims\<close> have "fst (sort_claims claims ! unat w) = fst (sort_claims claims' ! unat w)"
    using assms(2,3) len by simp
  moreover obtain as where "publish_acks to_text publish (unat w) 0 (sort_claims claims) = (Inr (), as)"
    using publish_acks_total assms(1) by metis
  moreover obtain as' where "publish_acks to_text publish (unat w) 0 (sort_claims claims') = (Inr (), as')"
    using publish_acks_total assms(1) by metis
  ultimately show ?thesis
    using assms(2,3) w len by (simp add: settle_claims_def)
qed

theorem winner_arrival_order_witness:
  "fst (settle_claims unary_text unary_parse (\<lambda>_. Inr ()) (\<lambda>_. None) ''c'' None
      [(example_claim ''b'', None), (example_claim ''a'', None)]) =
   fst (settle_claims unary_text unary_parse (\<lambda>_. Inr ()) (\<lambda>_. None) ''c'' None
      [(example_claim ''a'', None), (example_claim ''b'', None)])"
  using winner_arrival_order [of "\<lambda>_. Inr ()" unary_parse "''c''"
      "[(example_claim ''b'', None), (example_claim ''a'', None)]"
      "[(\<lparr>cc_client_id = ''b'', cc_connection_id = ''c''\<rparr>, None), (\<lparr>cc_client_id = ''a'', cc_connection_id = ''c''\<rparr>, None)]"
      "[(example_claim ''a'', None), (example_claim ''b'', None)]"
      "[(\<lparr>cc_client_id = ''a'', cc_connection_id = ''c''\<rparr>, None), (\<lparr>cc_client_id = ''b'', cc_connection_id = ''c''\<rparr>, None)]"
      unary_text "\<lambda>_. None" None]
  by (simp add: decode_example_claim)

text \<open>One claim that does not parse, or that names another connection, fails the whole public
  connection: nobody is acknowledged, not even the clients that claimed correctly, and the
  round-robin cursor stays where it was.\<close>

theorem bad_claim_fails_connection:
  assumes "m \<in> set msgs" "decode_claim from_text connection_id m = Inl e"
  shows "\<exists>e'. settle_claims to_text from_text publish cursors connection_id hostname msgs =
    (Inl e', cursors, [])"
proof (cases "collect_res (decode_claim from_text connection_id) msgs")
  case (Inl e')
  then show ?thesis by (simp add: settle_claims_def)
next
  case (Inr claims)
  then have "\<exists>c. decode_claim from_text connection_id m = Inr c"
    using assms(1) by (auto simp: collect_res_Inr_iff list_all2_conv_all_nth in_set_conv_nth)
  with assms(2) show ?thesis by simp
qed

theorem bad_claim_fails_connection_witness:
  "\<exists>e. settle_claims unary_text unary_parse (\<lambda>_. Inr ()) (\<lambda>_. None) ''c'' None
     [(example_claim ''a'', Some ''ra''), ([], None)] = (Inl e, \<lambda>_. None, [])"
  by (rule bad_claim_fails_connection [of "([], None)"])
    (simp_all add: decode_claim_def decode_json_def unary_parse_def serde_error_def)

end
