(* ===== verification/Ingress_Pairing.thy ===== *)
theory Ingress_Pairing
  imports Ingress_Detect Ingress_Claims
begin

text \<open>
  The shared state of the ingress and its tasks (\<^verbatim>\<open>ingress/src/lib.rs\<close>): the two semaphores, the
  table of pending connections, and the handlers that move a public connection from the
  accept loop through the table into a relay. Tasks interleave only at their \<^verbatim>\<open>await\<close>s, so each
  rule of the step relation \<open>ingress_step\<close> is one critical section. A semaphore is its number
  of free permits, \<open>None\<close> when the limit is zero (unlimited); a permit follows the public
  socket, first in its handler, then in the table, then in the relay.
\<close>

section \<open>Capacity\<close>

type_synonym capacity = "nat option"

text \<open>\<^verbatim>\<open>Semaphore::MAX_PERMITS\<close> is \<^verbatim>\<open>usize::MAX >> 3\<close>; \<^verbatim>\<open>Semaphore::new\<close> panics above it.\<close>

definition MAX_PERMITS :: nat where
  "MAX_PERMITS = 2305843009213693951"

definition capacity_new :: "usize \<Rightarrow> capacity res" where
  "capacity_new n =
     (if n = 0 then Inr None
      else if unat n \<le> MAX_PERMITS then Inr (Some (unat n)) else Inl [Ext_cause ''panic''])"

text \<open>The \<^verbatim>\<open>match\<close> of the accept loops: \<open>None\<close> rejects the connection.\<close>

fun try_acquire :: "capacity \<Rightarrow> capacity option" where
  "try_acquire None = Some None"
| "try_acquire (Some 0) = None"
| "try_acquire (Some (Suc k)) = Some (Some k)"

definition release :: "capacity \<Rightarrow> capacity" where
  "release c = map_option Suc c"

section \<open>State\<close>

record pending_connection =
  pc_ingress :: socket
  pc_preface :: bytes
  pc_client_id :: string
  pc_expires_at :: nat

record ingress_state =
  is_pending :: "string \<Rightarrow> pending_connection option"
  is_cursors :: cursors
  is_ingress_capacity :: capacity
  is_callback_capacity :: capacity
  is_handling :: nat
  is_relaying :: nat
  is_handshaking :: nat

text \<open>The start of \<^verbatim>\<open>run\<close>: its checks, and the state it builds once it is connected and listening.\<close>

definition ingress_checks :: "ingress_config \<Rightarrow> unit res" where
  "ingress_checks config =
     and_then (ensure (0 < ic_ingress_handshake_timeout_ms config)
       ''ingress_handshake_timeout_ms must be greater than zero'') (\<lambda>_.
       ensure (0 < ic_callback_handshake_timeout_ms config)
         ''callback_handshake_timeout_ms must be greater than zero'')"

definition app_state :: "ingress_config \<Rightarrow> ingress_state res" where
  "app_state config =
     and_then (capacity_new (ic_max_ingress_connections config)) (\<lambda>ingress_capacity.
     and_then (capacity_new (ic_max_callback_handshakes config)) (\<lambda>callback_handshake_capacity.
       Inr \<lparr>is_pending = (\<lambda>_. None), is_cursors = (\<lambda>_. None), is_ingress_capacity = ingress_capacity,
            is_callback_capacity = callback_handshake_capacity,
            is_handling = 0, is_relaying = 0, is_handshaking = 0\<rparr>))"

definition ingress_init :: "ingress_config \<Rightarrow> ingress_state res" where
  "ingress_init config = and_then (ingress_checks config) (\<lambda>_. app_state config)"

lemma capacity_new_Inr:
  "capacity_new n = Inr c \<longleftrightarrow> c = (if n = 0 then None else Some (unat n)) \<and> (n = 0 \<or> unat n \<le> MAX_PERMITS)"
  by (auto simp: capacity_new_def)

lemmas ingress_init_defs = ingress_init_def ingress_checks_def app_state_def capacity_new_Inr

section \<open>Operations\<close>

definition accept_public :: "ingress_state \<Rightarrow> ingress_state" where
  "accept_public s = (case try_acquire (is_ingress_capacity s) of
      None \<Rightarrow> s
    | Some c \<Rightarrow> s\<lparr>is_ingress_capacity := c, is_handling := is_handling s + 1\<rparr>)"

definition accept_data :: "ingress_state \<Rightarrow> ingress_state" where
  "accept_data s = (case try_acquire (is_callback_capacity s) of
      None \<Rightarrow> s
    | Some c \<Rightarrow> s\<lparr>is_callback_capacity := c, is_handshaking := is_handshaking s + 1\<rparr>)"

text \<open>A public socket is dropped, and its permit with it.\<close>

definition drop_ingress :: "ingress_state \<Rightarrow> ingress_state" where
  "drop_ingress s = s\<lparr>is_ingress_capacity := release (is_ingress_capacity s)\<rparr>"

text \<open>\<^verbatim>\<open>drop(handshake_permit)\<close>, explicitly or at the end of the handler.\<close>

definition drop_handshake :: "ingress_state \<Rightarrow> ingress_state" where
  "drop_handshake s = s\<lparr>is_callback_capacity := release (is_callback_capacity s),
     is_handshaking := is_handshaking s - 1\<rparr>"

text \<open>\<^verbatim>\<open>HashMap::insert\<close>: an entry already there is dropped.\<close>

definition insert_pending :: "string \<Rightarrow> pending_connection \<Rightarrow> ingress_state \<Rightarrow> ingress_state" where
  "insert_pending connection_id entry s =
     (let s' = s\<lparr>is_pending := (is_pending s)(connection_id \<mapsto> entry)\<rparr> in
      if is_pending s connection_id \<noteq> None then drop_ingress s' else s')"

datatype ingress_outcome =
    Passthrough string bytes socket
  | Awaiting_callback string

text \<open>\<^verbatim>\<open>handle_ingress\<close>. \<open>net\<close> holds the outcomes of dialing a passthrough backend, of writing to it
  and of the relay; the \<open>Passthrough\<close> outcome is the backend's address, the bytes written to it
  first, and the rest of the public stream.\<close>

record passthrough_net =
  pn_connect :: "string \<Rightarrow> unit res"
  pn_write :: "string \<Rightarrow> bytes \<Rightarrow> unit res"
  pn_copy :: "string \<Rightarrow> socket \<Rightarrow> unit res"

definition handle_ingress ::
    "(sval \<Rightarrow> bytes) \<Rightarrow> (bytes \<Rightarrow> sval option) \<Rightarrow> (bytes \<Rightarrow> bytes option res) \<Rightarrow> passthrough_net \<Rightarrow>
     ingress_config \<Rightarrow> nats_env \<Rightarrow> u64 \<Rightarrow> nat \<Rightarrow> string \<Rightarrow> string \<Rightarrow> socket \<Rightarrow> ingress_state \<Rightarrow>
     ingress_outcome res \<times> ingress_state \<times> message list" where
  "handle_ingress to_text from_text parse_hello net config nats unix_ms now connection_id client_ip stream s =
     (case detect_hostname_before parse_hello stream of
        (Inl e, _) \<Rightarrow> (Inl e, s, [])
      | (Inr (hostname, tls, preface), stream') \<Rightarrow>
          (case select_sni_passthrough (ic_sni_passthrough_routes config) hostname of
             Some route \<Rightarrow>
               (and_then (add_context (''connect SNI passthrough backend '' @ sp_backend_addr route)
                  (pn_connect net (sp_backend_addr route))) (\<lambda>_.
                and_then (add_context ''forward SNI passthrough preface''
                  (pn_write net (sp_backend_addr route) preface)) (\<lambda>_.
                and_then (add_context ''copy SNI passthrough stream''
                  (pn_copy net (sp_backend_addr route) stream')) (\<lambda>_.
                  Inr (Passthrough (sp_backend_addr route) preface stream')))), s, [])
           | None \<Rightarrow>
               (case broadcast_and_wait_for_claim to_text from_text config nats unix_ms (is_cursors s)
                   connection_id hostname client_ip tls of
                  (Inl e, cursors', messages) \<Rightarrow> (Inl e, s\<lparr>is_cursors := cursors'\<rparr>, messages)
                | (Inr claim, cursors', messages) \<Rightarrow>
                    (Inr (Awaiting_callback connection_id),
                     insert_pending connection_id
                       \<lparr>pc_ingress = stream', pc_preface = preface, pc_client_id = cc_client_id claim,
                        pc_expires_at = now + unat (ic_pending_timeout_ms config)\<rparr>
                       (s\<lparr>is_cursors := cursors'\<rparr>), messages))))"

text \<open>The body of the cleanup task once its sleep is over.\<close>

definition pending_cleanup :: "nat \<Rightarrow> string \<Rightarrow> ingress_state \<Rightarrow> ingress_state" where
  "pending_cleanup now connection_id s = (case is_pending s connection_id of
      Some entry \<Rightarrow>
        if pc_expires_at entry \<le> now
        then drop_ingress (s\<lparr>is_pending := (is_pending s)(connection_id := None)\<rparr>) else s
    | None \<Rightarrow> s)"

text \<open>The critical section of \<^verbatim>\<open>handle_client_data\<close>.\<close>

definition bind_callback ::
    "prefix_envelope \<Rightarrow> ingress_state \<Rightarrow> pending_connection res \<times> ingress_state" where
  "bind_callback pfx s = (case is_pending s (pe_connection_id pfx) of
      None \<Rightarrow> (bail ''unknown or expired connection id'', drop_handshake s)
    | Some entry \<Rightarrow>
        let s' = s\<lparr>is_pending := (is_pending s)(pe_connection_id pfx := None)\<rparr> in
        if pc_client_id entry \<noteq> pe_client_id pfx then
          (bail (''prefix client_id '' @ pe_client_id pfx @ '' does not match winning client '' @
             pc_client_id entry), drop_ingress (drop_handshake s'))
        else (Inr entry, drop_handshake (s'\<lparr>is_relaying := is_relaying s + 1\<rparr>)))"

definition relay_streams :: "(bytes \<Rightarrow> unit res) \<Rightarrow> 'a res \<Rightarrow> bytes \<Rightarrow> unit res" where
  "relay_streams write_all copy ingress_preface =
     and_then (add_context ''forward ingress preface'' (write_all ingress_preface)) (\<lambda>_.
     and_then (add_context ''copy_bidirectional failed'' copy) (\<lambda>_. Inr ()))"

text \<open>\<^verbatim>\<open>handle_client_data\<close> up to its relay: the pending connection it is bound to and the rest
  of the callback stream, which \<open>relay_streams\<close> then joins.\<close>

definition handle_client_data ::
    "(bytes \<Rightarrow> sval option) \<Rightarrow> (bytes \<Rightarrow> bytes option) \<Rightarrow> socket \<Rightarrow> ingress_state \<Rightarrow>
     (pending_connection \<times> socket) res \<times> ingress_state" where
  "handle_client_data from_text b64_decode stream s =
     (case read_prefix_before from_text b64_decode stream of
        (Inl e, _) \<Rightarrow> (Inl e, drop_handshake s)
      | (Inr pfx, stream') \<Rightarrow> (case bind_callback pfx s of
            (r, s') \<Rightarrow> (and_then r (\<lambda>entry. Inr (entry, stream')), s')))"

section \<open>Steps\<close>

datatype label =
    Public_accepted
  | Data_accepted
  | Claimed string string
  | Ingress_ended
  | Cleaned string
  | Bound string string
  | Refused string
  | Callback_ended
  | Relay_ended

inductive ingress_step :: "ingress_state \<Rightarrow> label \<Rightarrow> ingress_state \<Rightarrow> bool" where
  Accept_public: "ingress_step s Public_accepted (accept_public s)"
| Accept_data: "ingress_step s Data_accepted (accept_data s)"
| Ingress_claims: "\<lbrakk>0 < is_handling s; pc_client_id entry = client_id\<rbrakk> \<Longrightarrow>
    ingress_step s (Claimed connection_id client_id)
      (insert_pending connection_id entry
        (s\<lparr>is_cursors := cursors', is_handling := is_handling s - 1\<rparr>))"
| Ingress_ends: "0 < is_handling s \<Longrightarrow>
    ingress_step s Ingress_ended
      (drop_ingress (s\<lparr>is_cursors := cursors', is_handling := is_handling s - 1\<rparr>))"
| Cleanup: "ingress_step s (Cleaned connection_id) (pending_cleanup now connection_id s)"
| Callback_binds: "\<lbrakk>0 < is_handshaking s; bind_callback pfx s = (Inr entry, s')\<rbrakk> \<Longrightarrow>
    ingress_step s (Bound (pe_connection_id pfx) (pe_client_id pfx)) s'"
| Callback_refused: "\<lbrakk>0 < is_handshaking s; bind_callback pfx s = (Inl e, s')\<rbrakk> \<Longrightarrow>
    ingress_step s (Refused (pe_connection_id pfx)) s'"
| Callback_ends: "0 < is_handshaking s \<Longrightarrow> ingress_step s Callback_ended (drop_handshake s)"
| Relay_ends: "0 < is_relaying s \<Longrightarrow>
    ingress_step s Relay_ended (drop_ingress (s\<lparr>is_relaying := is_relaying s - 1\<rparr>))"

inductive_cases ingress_stepE: "ingress_step s l s'"

inductive ingress_run :: "ingress_state \<Rightarrow> label list \<Rightarrow> ingress_state \<Rightarrow> bool" where
  Run_init: "ingress_run s [] s"
| Run_step: "\<lbrakk>ingress_run s ls s'; ingress_step s' l s''\<rbrakk> \<Longrightarrow> ingress_run s (ls @ [l]) s''"

lemma ingress_run_star:
  "ingress_run s ls s' \<Longrightarrow> (\<lambda>a b. \<exists>l. ingress_step a l b)\<^sup>*\<^sup>* s s'"
  by (induction rule: ingress_run.induct) (auto intro: rtranclp.rtrancl_into_rtrancl)

section \<open>The contract of a permit pool\<close>

text \<open>\<open>free\<close> are the permits left (\<open>None\<close>: no limit) and \<open>held\<close> counts the tasks that own one. A
  system whose every step moves permits between the two keeps to its limit.\<close>

locale permit_pool =
  fixes step :: "'st \<Rightarrow> 'l \<Rightarrow> 'st \<Rightarrow> bool" and free :: "'st \<Rightarrow> nat option"
    and held :: "'st \<Rightarrow> nat" and well_formed :: "'st \<Rightarrow> bool"
  assumes step_well_formed: "well_formed s \<Longrightarrow> step s l s' \<Longrightarrow> well_formed s'"
    and step_conserves: "well_formed s \<Longrightarrow> step s l s' \<Longrightarrow> free s = Some k \<Longrightarrow>
      \<exists>k'. free s' = Some k' \<and> k' + held s' = k + held s"
    and step_unlimited: "step s l s' \<Longrightarrow> free s = None \<Longrightarrow> free s' = None"
begin

abbreviation steps :: "'st \<Rightarrow> 'st \<Rightarrow> bool" where
  "steps \<equiv> (\<lambda>a b. \<exists>l. step a l b)\<^sup>*\<^sup>*"

lemma steps_conserve:
  assumes "steps s s'" "well_formed s" "free s = Some k"
  shows "well_formed s' \<and> (\<exists>k'. free s' = Some k' \<and> k' + held s' = k + held s)"
  using assms
proof (induction rule: rtranclp_induct)
  case base
  then show ?case by simp
next
  case (step b c)
  then obtain k' l where "free b = Some k'" "k' + held b = k + held s" "well_formed b" "step b l c"
    by blast
  with step_conserves [of b l c k'] step_well_formed [of b l c] show ?case by auto
qed

lemma steps_unlimited: "steps s s' \<Longrightarrow> free s = None \<Longrightarrow> free s' = None"
  by (induction rule: rtranclp_induct) (auto dest: step_unlimited)

lemma within_limit:
  assumes "steps s s'" "well_formed s" "free s = Some n" "held s = 0"
  shows "held s' \<le> n"
  using steps_conserve [OF assms(1-3)] assms(4) by auto

end

text \<open>The public connections that own a permit.\<close>

definition held_ingress :: "ingress_state \<Rightarrow> nat" where
  "held_ingress s = is_handling s + card (dom (is_pending s)) + is_relaying s"

lemma try_acquire_cases:
  "try_acquire c = None \<longleftrightarrow> c = Some 0"
  "try_acquire c = Some c' \<longleftrightarrow> (c = None \<and> c' = None) \<or> (\<exists>k. c = Some (Suc k) \<and> c' = Some k)"
  by (induction c rule: try_acquire.induct) auto

lemma release_simps [simp]: "release None = None" "release (Some k) = Some (Suc k)"
  by (simp_all add: release_def)

lemma card_dom_remove:
  "finite (dom m) \<Longrightarrow> m k = Some v \<Longrightarrow> Suc (card (dom m - {k})) = card (dom m)"
  by (rule card_Suc_Diff1) auto

lemmas op_defs = accept_public_def accept_data_def drop_ingress_def drop_handshake_def
  insert_pending_def pending_cleanup_def bind_callback_def bail_def Let_def

lemma insert_pending_permits:
  assumes "finite (dom (is_pending s))"
  shows "is_ingress_capacity (insert_pending i e s) = None \<longleftrightarrow> is_ingress_capacity s = None"
    "is_ingress_capacity s = Some k \<Longrightarrow> \<exists>k'. is_ingress_capacity (insert_pending i e s) = Some k' \<and>
       k' + held_ingress (insert_pending i e s) = k + held_ingress s + 1"
  using assms by (auto simp: insert_pending_def drop_ingress_def Let_def held_ingress_def release_def
      card_insert_if domIff)

lemma bind_callback_cases:
  assumes "bind_callback pfx s = (r, s')"
  obtains (unknown) "is_pending s (pe_connection_id pfx) = None" "s' = drop_handshake s"
      "r = bail ''unknown or expired connection id''"
  | (foreign) entry e where "is_pending s (pe_connection_id pfx) = Some entry"
      "pc_client_id entry \<noteq> pe_client_id pfx" "r = Inl e"
      "s' = drop_ingress (drop_handshake (s\<lparr>is_pending := (is_pending s)(pe_connection_id pfx := None)\<rparr>))"
  | (bound) entry where "is_pending s (pe_connection_id pfx) = Some entry"
      "pc_client_id entry = pe_client_id pfx" "r = Inr entry"
      "s' = drop_handshake (s\<lparr>is_pending := (is_pending s)(pe_connection_id pfx := None),
         is_relaying := is_relaying s + 1\<rparr>)"
  using assms by (auto simp: bind_callback_def bail_def Let_def split: option.splits if_splits)

lemma ingress_step_finite:
  "finite (dom (is_pending s)) \<Longrightarrow> ingress_step s l s' \<Longrightarrow> finite (dom (is_pending s'))"
  by (erule ingress_stepE)
    (auto simp: op_defs split: option.splits if_splits)

lemma ingress_step_ingress_permits:
  assumes "finite (dom (is_pending s))" "ingress_step s l s'" "is_ingress_capacity s = Some k"
  shows "\<exists>k'. is_ingress_capacity s' = Some k' \<and> k' + held_ingress s' = k + held_ingress s"
  using assms(2)
proof (cases rule: ingress_step.cases)
  case Accept_public
  then show ?thesis using assms(3)
    by (cases k) (auto simp: accept_public_def held_ingress_def)
next
  case Accept_data
  then show ?thesis using assms(3)
    by (auto simp: accept_data_def held_ingress_def split: option.splits)
next
  case (Ingress_claims entry client_id connection_id cursors')
  with insert_pending_permits(2) [of "s\<lparr>is_cursors := cursors', is_handling := is_handling s - 1\<rparr>" k
      connection_id entry] assms(1,3) show ?thesis
    by (auto simp: held_ingress_def)
next
  case (Cleanup i now)
  then show ?thesis using assms(1,3) card_dom_remove [of "is_pending s" i]
    by (auto simp: pending_cleanup_def drop_ingress_def held_ingress_def split: option.splits)
next
  case (Callback_binds pfx entry)
  from Callback_binds(3) show ?thesis
    using assms(1,3) card_dom_remove [of "is_pending s" "pe_connection_id pfx"]
    by (cases rule: bind_callback_cases)
      (auto simp: drop_ingress_def drop_handshake_def held_ingress_def bail_def)
next
  case (Callback_refused pfx e)
  from Callback_refused(3) show ?thesis
    using assms(1,3) card_dom_remove [of "is_pending s" "pe_connection_id pfx"]
    by (cases rule: bind_callback_cases)
      (auto simp: drop_ingress_def drop_handshake_def held_ingress_def bail_def)
qed (use assms(3) in \<open>auto simp: drop_ingress_def drop_handshake_def held_ingress_def\<close>)

interpretation public: permit_pool ingress_step is_ingress_capacity held_ingress
    "\<lambda>s. finite (dom (is_pending s))"
proof
  show "is_ingress_capacity s' = None" if "ingress_step s l s'" "is_ingress_capacity s = None" for s l s'
    using that by (auto elim!: ingress_stepE simp: op_defs split: option.splits if_splits)
qed (auto dest: ingress_step_finite ingress_step_ingress_permits)

interpretation callback: permit_pool ingress_step is_callback_capacity is_handshaking "\<lambda>_. True"
proof
  show "\<exists>k'. is_callback_capacity s' = Some k' \<and> k' + is_handshaking s' = k + is_handshaking s"
    if "ingress_step s l s'" "is_callback_capacity s = Some k" for s l s' k
    using that by (auto elim!: ingress_stepE simp: op_defs split: option.splits if_splits)
      (cases k; simp)
  show "is_callback_capacity s' = None" if "ingress_step s l s'" "is_callback_capacity s = None" for s l s'
    using that by (auto elim!: ingress_stepE simp: op_defs split: option.splits if_splits)
qed simp

section \<open>Traces\<close>

text \<open>Along a run, every binding and the entry still pending are paid for by a claim of the same
  connection, and a pending entry carries the client of a claim made for it.\<close>

definition claims_of :: "string \<Rightarrow> label list \<Rightarrow> nat" where
  "claims_of i ls = length (filter (\<lambda>l. \<exists>c. l = Claimed i c) ls)"

definition bindings_of :: "string \<Rightarrow> label list \<Rightarrow> nat" where
  "bindings_of i ls = length (filter (\<lambda>l. \<exists>c. l = Bound i c) ls)"

definition trace_ok :: "label list \<Rightarrow> ingress_state \<Rightarrow> bool" where
  "trace_ok ls s \<longleftrightarrow>
     (\<forall>i. bindings_of i ls + (if is_pending s i = None then 0 else 1) \<le> claims_of i ls) \<and>
     (\<forall>i e. is_pending s i = Some e \<longrightarrow> Claimed i (pc_client_id e) \<in> set ls) \<and>
     (\<forall>i c. Bound i c \<in> set ls \<longrightarrow> Claimed i c \<in> set ls)"

lemma claims_of_snoc [simp]:
  "claims_of i (ls @ [l]) = claims_of i ls + (if \<exists>c. l = Claimed i c then 1 else 0)"
  by (simp add: claims_of_def)

lemma bindings_of_snoc [simp]:
  "bindings_of i (ls @ [l]) = bindings_of i ls + (if \<exists>c. l = Bound i c then 1 else 0)"
  by (simp add: bindings_of_def)

text \<open>Steps that neither claim nor bind can only remove entries.\<close>

lemma trace_ok_shrink:
  assumes "trace_ok ls s" "\<And>i. is_pending s' i = None \<or> is_pending s' i = is_pending s i"
    "\<And>i c. l \<noteq> Bound i c"
  shows "trace_ok (ls @ [l]) s'"
  unfolding trace_ok_def
proof (intro conjI allI impI)
  fix i
  have "bindings_of i ls + (if is_pending s i = None then 0 else 1) \<le> claims_of i ls"
    using assms(1) by (simp add: trace_ok_def)
  then show "bindings_of i (ls @ [l]) + (if is_pending s' i = None then 0 else 1) \<le> claims_of i (ls @ [l])"
    using assms(2) [of i] assms(3) by (auto split: if_splits)
next
  fix i e assume "is_pending s' i = Some e"
  then show "Claimed i (pc_client_id e) \<in> set (ls @ [l])"
    using assms(1) assms(2) [of i] by (auto simp: trace_ok_def)
next
  fix i c assume "Bound i c \<in> set (ls @ [l])"
  then show "Claimed i c \<in> set (ls @ [l])"
    using assms(1,3) by (auto simp: trace_ok_def)
qed

lemma trace_ok_claim:
  assumes "trace_ok ls s" "pc_client_id entry = c"
    "is_pending s' = (is_pending s)(i \<mapsto> entry)"
  shows "trace_ok (ls @ [Claimed i c]) s'"
  unfolding trace_ok_def
proof (intro conjI allI impI)
  fix j
  have "bindings_of j ls + (if is_pending s j = None then 0 else 1) \<le> claims_of j ls"
    using assms(1) by (simp add: trace_ok_def)
  then show "bindings_of j (ls @ [Claimed i c]) + (if is_pending s' j = None then 0 else 1)
      \<le> claims_of j (ls @ [Claimed i c])"
    using assms(3) by (auto split: if_splits)
qed (use assms in \<open>auto simp: trace_ok_def split: if_splits\<close>)

lemma trace_ok_bind:
  assumes "trace_ok ls s" "is_pending s i = Some entry" "pc_client_id entry = c"
    "is_pending s' = (is_pending s)(i := None)"
  shows "trace_ok (ls @ [Bound i c]) s'"
  unfolding trace_ok_def
proof (intro conjI allI impI)
  fix j
  have "bindings_of j ls + (if is_pending s j = None then 0 else 1) \<le> claims_of j ls"
    using assms(1) by (simp add: trace_ok_def)
  then show "bindings_of j (ls @ [Bound i c]) + (if is_pending s' j = None then 0 else 1)
      \<le> claims_of j (ls @ [Bound i c])"
    using assms(2,4) by (auto split: if_splits)
qed (use assms in \<open>auto simp: trace_ok_def split: if_splits\<close>)

lemma trace_ok_step:
  assumes "trace_ok ls s" "ingress_step s l s'"
  shows "trace_ok (ls @ [l]) s'"
  using assms(2)
proof (cases rule: ingress_step.cases)
  case (Ingress_claims entry client_id connection_id cursors')
  then show ?thesis
    using assms(1) by (auto intro!: trace_ok_claim simp: insert_pending_def drop_ingress_def Let_def)
next
  case (Callback_binds pfx entry)
  from Callback_binds(3) show ?thesis
    using assms(1) Callback_binds(1)
    by (cases rule: bind_callback_cases) (auto intro!: trace_ok_bind simp: drop_handshake_def bail_def)
qed (use assms(1) in \<open>auto intro!: trace_ok_shrink [of ls s] simp: op_defs split: option.splits if_splits\<close>)

lemma run_trace_ok:
  "ingress_run s ls s' \<Longrightarrow> is_pending s = (\<lambda>_. None) \<Longrightarrow> trace_ok ls s'"
proof (induction rule: ingress_run.induct)
  case (Run_init s)
  then show ?case by (simp add: trace_ok_def claims_of_def bindings_of_def)
next
  case (Run_step s ls s' l s'')
  then show ?case using trace_ok_step by blast
qed

section \<open>Properties\<close>

text \<open>C8: capacity is never exceeded, whatever the interleaving of accepts, claims, callbacks,
  expiries and failures: with a limit set, the public connections being handled, waiting
  for a callback or relayed, together with the free permits, are always exactly the limit
  (so no permit leaks and none is forged), and likewise for the callback handshakes; with
  the limit zero there is no bound to reach.\<close>

theorem capacity_conserved:
  assumes "ingress_init config = Inr s0" "ingress_run s0 ls s"
  shows "(if ic_max_ingress_connections config = 0 then is_ingress_capacity s = None
     else \<exists>free. is_ingress_capacity s = Some free \<and>
       free + is_handling s + card (dom (is_pending s)) + is_relaying s =
         unat (ic_max_ingress_connections config)) \<and>
    (if ic_max_callback_handshakes config = 0 then is_callback_capacity s = None
     else \<exists>free. is_callback_capacity s = Some free \<and>
       free + is_handshaking s = unat (ic_max_callback_handshakes config)) \<and>
    finite (dom (is_pending s))"
proof -
  note run = ingress_run_star [OF assms(2)]
  have s0: "is_pending s0 = (\<lambda>_. None)" "held_ingress s0 = 0" "is_handshaking s0 = 0"
    "is_ingress_capacity s0 = (if ic_max_ingress_connections config = 0 then None else Some (unat (ic_max_ingress_connections config)))"
    "is_callback_capacity s0 = (if ic_max_callback_handshakes config = 0 then None else Some (unat (ic_max_callback_handshakes config)))"
    using assms(1) by (auto simp: ingress_init_defs res_simps held_ingress_def)
  have fin: "finite (dom (is_pending s0))" by (simp add: s0)
  have "finite (dom (is_pending s))"
    using run by (induction rule: rtranclp_induct) (use fin ingress_step_finite in blast)+
  then show ?thesis
    using public.steps_conserve [OF run fin] public.steps_unlimited [OF run]
      callback.steps_conserve [OF run] callback.steps_unlimited [OF run] s0
    by (auto simp: held_ingress_def)
qed

theorem capacity_conserved_witness:
  "\<exists>s0. ingress_init (example_ingress\<lparr>ic_max_ingress_connections := 1\<rparr>) = Inr s0 \<and>
     (\<exists>free. is_ingress_capacity (accept_public (accept_public s0)) = Some free \<and>
        free + is_handling (accept_public (accept_public s0)) +
          card (dom (is_pending (accept_public (accept_public s0)))) +
          is_relaying (accept_public (accept_public s0)) = 1)"
proof -
  let ?c = "example_ingress\<lparr>ic_max_ingress_connections := 1\<rparr>"
  obtain s0 where i: "ingress_init ?c = Inr s0"
    by (simp add: ingress_init_def ingress_checks_def app_state_def capacity_new_def MAX_PERMITS_def example_ingress_def
        default_ingress_handshake_timeout_ms_def default_callback_handshake_timeout_ms_def)
  have "ingress_run s0 (([] @ [Public_accepted]) @ [Public_accepted]) (accept_public (accept_public s0))"
    by (rule Run_step [OF Run_step [OF Run_init Accept_public] Accept_public])
  from capacity_conserved [OF i this] i show ?thesis by auto
qed

text \<open>C9: a callback is joined to a public connection only by the client that won its claim, and
  at most once per claim. Along every run, each binding of a connection by a client is
  preceded by a claim of that connection by that client, and a connection is bound at most
  as often as it was claimed, so with fresh connection ids at most once; a binding removes
  the entry, so repeating the same prefix is refused.\<close>

theorem callback_pairing:
  assumes "ingress_init config = Inr s0" "ingress_run s0 ls s"
  shows "(\<forall>i c. Bound i c \<in> set ls \<longrightarrow> Claimed i c \<in> set ls) \<and>
    (\<forall>i. bindings_of i ls \<le> claims_of i ls) \<and>
    (\<forall>pfx entry s' r s''. bind_callback pfx s = (Inr entry, s') \<longrightarrow> bind_callback pfx s' = (r, s'') \<longrightarrow>
       Claimed (pe_connection_id pfx) (pe_client_id pfx) \<in> set ls \<and>
       r = bail ''unknown or expired connection id'')"
proof -
  have "is_pending s0 = (\<lambda>_. None)" using assms(1) by (auto simp: ingress_init_defs res_simps)
  from run_trace_ok [OF assms(2) this] have ok: "trace_ok ls s" .
  then have "bindings_of i ls \<le> claims_of i ls" for i
    unfolding trace_ok_def by (metis add_leD1)
  moreover have "Claimed (pe_connection_id pfx) (pe_client_id pfx) \<in> set ls \<and>
      r = bail ''unknown or expired connection id''"
    if b: "bind_callback pfx s = (Inr entry, s')" and again: "bind_callback pfx s' = (r, s'')"
    for pfx entry s' r s''
    using b
  proof (cases rule: bind_callback_cases)
    case (bound e)
    then have "is_pending s' (pe_connection_id pfx) = None" by (simp add: drop_handshake_def)
    then have "r = bail ''unknown or expired connection id''"
      using again by (simp add: bind_callback_def)
    moreover have "Claimed (pe_connection_id pfx) (pc_client_id e) \<in> set ls"
      using ok bound(1) unfolding trace_ok_def by blast
    ultimately show ?thesis using bound(2) by simp
  qed (simp_all add: bail_def)
  ultimately show ?thesis using ok by (auto simp: trace_ok_def)
qed

text \<open>A run in which a connection is accepted, claimed by a client and bound by its callback.\<close>

definition bound_run :: "label list" where
  "bound_run = [Public_accepted, Data_accepted, Claimed ''c'' ''a'', Bound ''c'' ''a'']"

theorem callback_pairing_witness:
  "\<exists>s0 s. ingress_init example_ingress = Inr s0 \<and> ingress_run s0 bound_run s \<and>
     bindings_of ''c'' bound_run = 1 \<and> bindings_of ''c'' bound_run \<le> claims_of ''c'' bound_run \<and>
     Claimed ''c'' ''a'' \<in> set bound_run"
proof -
  let ?entry = "\<lparr>pc_ingress = [], pc_preface = [], pc_client_id = ''a'', pc_expires_at = 0\<rparr>"
  let ?init = "\<lparr>is_pending = (\<lambda>_. None), is_cursors = (\<lambda>_. None), is_ingress_capacity = None,
    is_callback_capacity = None, is_handling = 0, is_relaying = 0, is_handshaking = 0\<rparr>"
  let ?accepted = "?init\<lparr>is_handling := 1, is_handshaking := 1\<rparr>"
  let ?waiting = "?init\<lparr>is_handshaking := 1, is_pending := [''c'' \<mapsto> ?entry]\<rparr>"
  have i: "ingress_init example_ingress = Inr ?init"
    by (simp add: ingress_init_def ingress_checks_def app_state_def capacity_new_def example_ingress_def
        default_ingress_handshake_timeout_ms_def default_callback_handshake_timeout_ms_def)
  have step: "ingress_run a ls b \<Longrightarrow> ingress_step b l c \<Longrightarrow> c = d \<Longrightarrow> ingress_run a (ls @ [l]) d" for a ls b l c d
    by (auto intro: Run_step)
  have "ingress_run ?init ([] @ [Public_accepted] @ [Data_accepted]) ?accepted"
    unfolding append_assoc [symmetric]
    by (rule step [OF step [OF Run_init Accept_public refl] Accept_data]) (simp add: accept_public_def accept_data_def)
  then have "ingress_run ?init (([] @ [Public_accepted] @ [Data_accepted]) @ [Claimed ''c'' ''a'']) ?waiting"
    by (rule step [OF _ Ingress_claims [where entry = ?entry and cursors' = "\<lambda>_. None"]])
      (simp_all add: insert_pending_def)
  moreover have "ingress_step ?waiting (Bound ''c'' ''a'') (?init\<lparr>is_relaying := 1\<rparr>)"
    using Callback_binds [of ?waiting "prefix_new ''a'' ''c''" ?entry "?init\<lparr>is_relaying := 1\<rparr>"]
    by (simp add: bind_callback_def prefix_new_def drop_handshake_def)
  ultimately have run: "ingress_run ?init bound_run (?init\<lparr>is_relaying := 1\<rparr>)"
    unfolding bound_run_def using Run_step by fastforce
  have "bindings_of ''c'' bound_run = 1" "Bound ''c'' ''a'' \<in> set bound_run"
    by (simp_all add: bindings_of_def bound_run_def)
  with callback_pairing [OF i run] i run show ?thesis by blast
qed

text \<open>C21: a public connection that gets a winner is put into the table by one claim step: the entry
  belongs to the winner of its claims, and its preface and the rest of its socket are
  together exactly the bytes the peer sent, so nothing is lost when they are relayed.\<close>

theorem handle_ingress_step:
  assumes "handle_ingress to_text from_text parse_hello net config nats unix_ms now connection_id
      client_ip stream s = (Inr (Awaiting_callback cid), s', messages)" and "0 < is_handling s"
  shows "\<exists>entry hostname tls winner cursors'. is_pending s' cid = Some entry \<and>
    broadcast_and_wait_for_claim to_text from_text config nats unix_ms (is_cursors s) connection_id
      hostname client_ip tls = (Inr winner, cursors', messages) \<and>
    pc_client_id entry = cc_client_id winner \<and>
    stream_bytes stream = pc_preface entry @ stream_bytes (pc_ingress entry) \<and>
    ingress_step s (Claimed cid (cc_client_id winner)) (s'\<lparr>is_handling := is_handling s - 1\<rparr>)"
proof -
  obtain d stream' where d: "detect_hostname_before parse_hello stream = (d, stream')" by force
  then obtain hostname tls preface where d': "d = Inr (hostname, tls, preface)"
    using assms(1) by (cases d) (auto simp: handle_ingress_def)
  note detect = d [unfolded d']
  have sni: "select_sni_passthrough (ic_sni_passthrough_routes config) hostname = None"
    using assms(1) by (cases "select_sni_passthrough (ic_sni_passthrough_routes config) hostname")
      (auto simp: handle_ingress_def detect res_simps)
  obtain b cursors' ms where b: "broadcast_and_wait_for_claim to_text from_text config nats unix_ms
      (is_cursors s) connection_id hostname client_ip tls = (b, cursors', ms)"
    using prod_cases3 by blast
  note h = assms(1) [unfolded handle_ingress_def detect prod.case sum.case sni option.case b]
  then obtain claim where claim: "b = Inr claim" "ms = messages" and id: "cid = connection_id"
    and s': "s' = insert_pending connection_id
      \<lparr>pc_ingress = stream', pc_preface = preface, pc_client_id = cc_client_id claim,
       pc_expires_at = now + unat (ic_pending_timeout_ms config)\<rparr> (s\<lparr>is_cursors := cursors'\<rparr>)"
    by (cases b) auto
  define entry where "entry = \<lparr>pc_ingress = stream', pc_preface = preface,
    pc_client_id = cc_client_id claim, pc_expires_at = now + unat (ic_pending_timeout_ms config)\<rparr>"
  have "detect_loop parse_hello [] stream = Ready (Inr (hostname, tls, preface), stream')"
    using detect by (auto simp: detect_hostname_before_def detect_hostname_def timeout_context_def
        split: poll.splits)
  then have bytes: "stream_bytes stream = preface @ stream_bytes stream'"
    using detect_loop_preface by fastforce
  have "s'\<lparr>is_handling := is_handling s - 1\<rparr> = insert_pending connection_id entry
      (s\<lparr>is_cursors := cursors', is_handling := is_handling s - 1\<rparr>)"
    by (simp add: s' entry_def insert_pending_def drop_ingress_def Let_def)
  then have step: "ingress_step s (Claimed cid (cc_client_id claim)) (s'\<lparr>is_handling := is_handling s - 1\<rparr>)"
    using Ingress_claims [OF assms(2), of entry] id by (simp add: entry_def)
  have "is_pending s' cid = Some entry"
    by (simp add: s' id entry_def insert_pending_def drop_ingress_def Let_def)
  with b [unfolded claim] bytes step show ?thesis
    by (intro exI [of _ entry] exI [of _ hostname] exI [of _ tls] exI [of _ claim] exI [of _ cursors'])
      (simp add: entry_def)
qed

text \<open>An ingress with one public connection accepted and one callback at its handshake.\<close>

definition example_state :: ingress_state where
  "example_state =
     \<lparr>is_pending = (\<lambda>_. None), is_cursors = (\<lambda>_. None), is_ingress_capacity = None,
      is_callback_capacity = None, is_handling = 1, is_relaying = 0, is_handshaking = 1\<rparr>"

lemma example_state_counts: "is_handling example_state = 1" "is_handshaking example_state = 1"
  by (simp_all add: example_state_def)

theorem handle_ingress_step_witness:
  "\<exists>entry s'. is_pending s' ''c'' = Some entry \<and>
     stream_bytes [Data ''SSH-2.0'', Data ''xyz''] = pc_preface entry @ stream_bytes (pc_ingress entry) \<and>
     ingress_step example_state (Claimed ''c'' (pc_client_id entry)) (s'\<lparr>is_handling := 0\<rparr>)"
proof -
  have "extract_http_host ''SSH-2.0'' = None" "\<not> looks_like_http_prefix ''SSH-2.0''" by code_simp+
  then have d: "detect_hostname_before (\<lambda>_. Inr None) [Data ''SSH-2.0'', Data ''xyz''] =
      (Inr (None, False, ''SSH-2.0''), [Data ''xyz''])"
    by (simp add: detect_hostname_before_def detect_hostname_def timeout_context_def detect_loop.simps
        inspect_preface_def MAX_PREFACE_BYTES_def)
  obtain s' messages where "handle_ingress unary_text unary_parse (\<lambda>_. Inr None)
      \<lparr>pn_connect = (\<lambda>_. Inr ()), pn_write = (\<lambda>_ _. Inr ()), pn_copy = (\<lambda>_ _. Inr ())\<rparr> example_ingress
      example_nats 0 0 ''c'' ''1.2.3.4'' [Data ''SSH-2.0'', Data ''xyz''] example_state =
      (Inr (Awaiting_callback ''c''), s', messages)"
    using example_broadcast
    by (auto simp: handle_ingress_def d select_sni_passthrough_def example_state_def split: prod.splits)
  moreover have "0 < is_handling example_state" by (simp add: example_state_counts)
  ultimately have "\<exists>entry hostname tls winner cursors'. is_pending s' ''c'' = Some entry \<and>
    broadcast_and_wait_for_claim unary_text unary_parse example_ingress example_nats 0
      (is_cursors example_state) ''c'' hostname ''1.2.3.4'' tls = (Inr winner, cursors', messages) \<and>
    pc_client_id entry = cc_client_id winner \<and>
    stream_bytes [Data ''SSH-2.0'', Data ''xyz''] = pc_preface entry @ stream_bytes (pc_ingress entry) \<and>
    ingress_step example_state (Claimed ''c'' (cc_client_id winner))
      (s'\<lparr>is_handling := is_handling example_state - 1\<rparr>)"
    by (rule handle_ingress_step)
  then obtain entry and winner :: connection_claim where
    "is_pending s' ''c'' = Some entry" "pc_client_id entry = cc_client_id winner"
    "stream_bytes [Data ''SSH-2.0'', Data ''xyz''] = pc_preface entry @ stream_bytes (pc_ingress entry)"
    "ingress_step example_state (Claimed ''c'' (cc_client_id winner)) (s'\<lparr>is_handling := 0\<rparr>)"
    unfolding example_state_counts diff_self_eq_0 by blast
  then show ?thesis by metis
qed

text \<open>A callback that gets through its handshake is one binding step: the prefix it sent names
  the pending connection and the client that won it, and the relay joins exactly that
  connection with the rest of the callback stream.\<close>

theorem handle_client_data_step:
  assumes "handle_client_data from_text b64_decode callback s = (Inr (entry, rest), s')"
    "0 < is_handshaking s"
  shows "\<exists>pfx. read_prefix_before from_text b64_decode callback = (Inr pfx, rest) \<and>
    is_pending s (pe_connection_id pfx) = Some entry \<and> pc_client_id entry = pe_client_id pfx \<and>
    ingress_step s (Bound (pe_connection_id pfx) (pe_client_id pfx)) s'"
proof -
  obtain pfx where pfx: "read_prefix_before from_text b64_decode callback = (Inr pfx, rest)"
    "bind_callback pfx s = (Inr entry, s')"
    using assms(1) by (auto simp: handle_client_data_def res_simps split: prod.splits sum.splits)
  from pfx(2) have "is_pending s (pe_connection_id pfx) = Some entry \<and> pc_client_id entry = pe_client_id pfx"
    by (cases rule: bind_callback_cases) (auto simp: bail_def)
  with pfx Callback_binds [OF assms(2)] show ?thesis by blast
qed

definition example_pending :: pending_connection where
  "example_pending = \<lparr>pc_ingress = [], pc_preface = ''GET'', pc_client_id = ''a'', pc_expires_at = 10\<rparr>"

theorem handle_client_data_step_witness:
  "\<exists>s'. ingress_step (example_state\<lparr>is_pending := [''b'' \<mapsto> example_pending]\<rparr>) (Bound ''b'' ''a'') s'"
proof -
  have e: "encode_line one_text hex_encode (prefix_new ''a'' ''b'') = ''21'' @ [CHR 0x0A]"
  proof -
    have "hex_encode ''!'' = ''21''" by code_simp
    then show ?thesis by (simp only: encode_line_def one_text_def if_True simp_thms)
  qed
  obtain r where r: "read_line_loop [] [Data (''21'' @ [CHR 0x0A])] = Ready (Inr (''21'' @ [CHR 0x0A]), r)"
    using read_line_loop_line [of "[Data (''21'' @ [CHR 0x0A])]" "''21''" "[]" "[]"] by auto
  have "decode_line one_parse hex_decode (''21'' @ [CHR 0x0A]) = Inr (prefix_new ''a'' ''b'')"
    using decode_encode_line [of one_parse one_text hex_decode hex_encode "prefix_new ''a'' ''b''"]
    unfolding e by (simp add: one_parse_text one_text_nonempty hex_encode_alphabet hex_encode_nonempty
        prefix_new_def)
  with r have p: "read_prefix_before one_parse hex_decode [Data (''21'' @ [CHR 0x0A])] =
      (Inr (prefix_new ''a'' ''b''), r)"
    by (simp add: read_prefix_before_def read_prefix_def timeout_context_def)
  obtain s' where "handle_client_data one_parse hex_decode [Data (''21'' @ [CHR 0x0A])]
      (example_state\<lparr>is_pending := [''b'' \<mapsto> example_pending]\<rparr>) = (Inr (example_pending, r), s')"
    unfolding handle_client_data_def p
    by (simp add: bind_callback_def prefix_new_def example_pending_def Let_def)
  from handle_client_data_step [OF this] obtain pfx where
    "read_prefix_before one_parse hex_decode [Data (''21'' @ [CHR 0x0A])] = (Inr pfx, r)"
    "ingress_step (example_state\<lparr>is_pending := [''b'' \<mapsto> example_pending]\<rparr>)
      (Bound (pe_connection_id pfx) (pe_client_id pfx)) s'"
    by (auto simp: example_state_counts)
  with p show ?thesis by (auto simp: prefix_new_def)
qed

text \<open>A callback that knows the connection id but not the winning client is refused, and the
  pending connection is lost with it: the entry is gone and its permit is free, so the
  rightful client's callback comes too late.\<close>

theorem wrong_client_destroys_pending:
  assumes "is_pending s (pe_connection_id wrong) = Some entry"
    "pe_client_id wrong \<noteq> pc_client_id entry" "pe_connection_id right = pe_connection_id wrong"
  shows "\<exists>e s'. bind_callback wrong s = (Inl e, s') \<and> is_pending s' (pe_connection_id wrong) = None \<and>
    is_ingress_capacity s' = release (is_ingress_capacity s) \<and>
    fst (bind_callback right s') = bail ''unknown or expired connection id''"
  using assms by (auto simp: bind_callback_def drop_ingress_def drop_handshake_def bail_def Let_def)

theorem wrong_client_destroys_pending_witness:
  "\<exists>e s'. bind_callback (prefix_new ''mallory'' ''b'') (example_state\<lparr>is_pending := [''b'' \<mapsto> example_pending]\<rparr>) =
     (Inl e, s') \<and> fst (bind_callback (prefix_new ''a'' ''b'') s') = bail ''unknown or expired connection id''"
  using wrong_client_destroys_pending [of "example_state\<lparr>is_pending := [''b'' \<mapsto> example_pending]\<rparr>"
      "prefix_new ''mallory'' ''b''" example_pending "prefix_new ''a'' ''b''"]
  by (auto simp: prefix_new_def example_pending_def)

text \<open>A pending connection does not outlive its deadline: the cleanup task that runs once the
  pending timeout has passed removes the entry and frees its permit, and a cleanup that runs
  early, or for another connection, leaves it alone.\<close>

theorem pending_expires:
  assumes "is_pending s cid = Some entry"
  shows "(pc_expires_at entry \<le> now \<longrightarrow> is_pending (pending_cleanup now cid s) cid = None \<and>
      is_ingress_capacity (pending_cleanup now cid s) = release (is_ingress_capacity s)) \<and>
    (now < pc_expires_at entry \<longrightarrow> pending_cleanup now cid s = s) \<and>
    (other \<noteq> cid \<longrightarrow> is_pending (pending_cleanup now other s) cid = Some entry)"
  using assms by (auto simp: pending_cleanup_def drop_ingress_def split: option.splits)

theorem pending_expires_witness:
  "is_pending (pending_cleanup 10 ''b'' (example_state\<lparr>is_pending := [''b'' \<mapsto> example_pending]\<rparr>)) ''b'' = None"
  using pending_expires [of "example_state\<lparr>is_pending := [''b'' \<mapsto> example_pending]\<rparr>" "''b''" example_pending 10]
  by (simp add: example_pending_def)

end
