(* ===== verification/Http_Types.thy ===== *)
theory Http_Types
  imports Rust_Str
begin

text \<open>
  The part of the \<^verbatim>\<open>http\<close> crate's data model that the proxy and the authorization layer work on:
  header maps (names are lower case, several values per name in order), request targets and
  responses. The locale \<open>header_store\<close> is the contract of a header map; everything said about
  forwarded headers rests on it.
\<close>

type_synonym header_map = "(string \<times> bytes) list"

definition hget :: "string \<Rightarrow> header_map \<Rightarrow> bytes option" where
  "hget name h = map_of h name"

definition hget_all :: "string \<Rightarrow> header_map \<Rightarrow> bytes list" where
  "hget_all name h = map snd (filter (\<lambda>e. fst e = name) h)"

definition hcontains :: "string \<Rightarrow> header_map \<Rightarrow> bool" where
  "hcontains name h \<longleftrightarrow> (\<exists>e\<in>set h. fst e = name)"

definition hremove :: "string \<Rightarrow> header_map \<Rightarrow> header_map" where
  "hremove name h = filter (\<lambda>e. fst e \<noteq> name) h"

definition hinsert :: "string \<Rightarrow> bytes \<Rightarrow> header_map \<Rightarrow> header_map" where
  "hinsert name v h = hremove name h @ [(name, v)]"

definition happend :: "string \<Rightarrow> bytes \<Rightarrow> header_map \<Rightarrow> header_map" where
  "happend name v h = h @ [(name, v)]"

record uri =
  uri_path :: string
  uri_query :: "string option"
  uri_path_and_query :: "string option"

record http_response =
  resp_status :: nat
  resp_headers :: header_map
  resp_body :: bytes

section \<open>The contract of a header map\<close>

definition opt_list :: "'a option \<Rightarrow> 'a list" where
  "opt_list x = (case x of None \<Rightarrow> [] | Some v \<Rightarrow> [v])"

lemma opt_list_simps [simp]: "opt_list None = []" "opt_list (Some v) = [v]"
  by (simp_all add: opt_list_def)

locale header_store =
  fixes vals :: "'n \<Rightarrow> 'h \<Rightarrow> 'v list" and remove :: "'n \<Rightarrow> 'h \<Rightarrow> 'h" and put :: "'n \<Rightarrow> 'v \<Rightarrow> 'h \<Rightarrow> 'h"
  assumes vals_remove: "vals n (remove m h) = (if n = m then [] else vals n h)"
    and vals_put: "vals n (put m v h) = (if n = m then [v] else vals n h)"
begin

text \<open>Removing a list of names, as a loop over a constant array does.\<close>

lemma vals_remove_all:
  "vals n (fold remove names h) = (if n \<in> set names then [] else vals n h)"
  by (induction names arbitrary: h) (simp_all add: vals_remove)

lemma vals_put_all:
  "vals n (fold (\<lambda>(m, v). put m v) ps h) =
     (case map_of (rev ps) n of None \<Rightarrow> vals n h | Some v \<Rightarrow> [v])"
  by (induction ps arbitrary: h) (auto simp: vals_put map_add_def split: option.splits)

text \<open>A list of removals followed by a list of insertions leaves, under a removed name, exactly what
  was inserted.\<close>

lemma vals_replaced:
  assumes "n \<in> set names"
  shows "vals n (fold (\<lambda>(m, v). put m v) ps (fold remove names h)) = opt_list (map_of (rev ps) n)"
  using assms by (simp add: vals_put_all vals_remove_all opt_list_def split: option.splits)

end

lemma hget_all_hremove: "hget_all n (hremove m h) = (if n = m then [] else hget_all n h)"
  by (induction h) (auto simp: hget_all_def hremove_def)

lemma hget_all_hinsert: "hget_all n (hinsert m v h) = (if n = m then [v] else hget_all n h)"
  using hget_all_hremove [of n m h] by (auto simp: hget_all_def hinsert_def)

interpretation headers: header_store hget_all hremove hinsert
  by unfold_locales (simp_all add: hget_all_hremove hget_all_hinsert)

lemma hget_all_hget: "hget n h = (case hget_all n h of [] \<Rightarrow> None | v # _ \<Rightarrow> Some v)"
  by (induction h) (auto simp: hget_def hget_all_def)

lemma hcontains_hget_all: "hcontains n h \<longleftrightarrow> hget_all n h \<noteq> []"
  by (induction h) (auto simp: hcontains_def hget_all_def)

end
