(* ===== verification/Authorization.thy ===== *)
theory Authorization
  imports Http_Types Config_Expand
begin

text \<open>
  Fail-closed authorization of HTTP requests (\<^verbatim>\<open>client/src/authorization.rs\<close>): bearer tokens against
  a cached key set, browser sessions in encrypted cookies, role checks, and the responses of
  the layer. Third-party code is a field of \<open>auth_env\<close> or a parameter: token decoding
  (\<^verbatim>\<open>jsonwebtoken\<close>), cookie encryption (\<^verbatim>\<open>cookie\<close>), the OpenID Connect exchange
  (\<^verbatim>\<open>openidconnect\<close>), HTTP fetches, and the validity of header values. The two clocks count nanoseconds, the time of a session seconds.
\<close>

datatype algorithm = HS256 | HS384 | HS512 | ES256 | ES384 | RS256 | RS384 | RS512
  | PS256 | PS384 | PS512 | EdDSA

record discovery_document =
  dd_issuer :: string
  dd_jwks_uri :: string

record authenticated_identity =
  ai_subject :: string
  ai_username :: string
  ai_name :: "string option"
  ai_email :: "string option"
  ai_groups :: "string list"
  ai_expires_unix :: u64

datatype authorization_decision =
    Allow "authenticated_identity option"
  | Respond http_response

datatype denial = Unauthorized anyhow | Forbidden anyhow

record oidc_flow =
  fl_state :: string
  fl_nonce :: string
  fl_pkce_verifier :: string
  fl_return_to :: string
  fl_expires_unix :: u64

record jwk =
  jwk_kid :: "string option"
  jwk_use_signature :: "bool option"
  jwk_algorithm :: "algorithm option option"
  jwk_material :: bytes

record key_state =
  ks_set :: "jwk list"
  ks_obtained_at :: nat

record validation =
  va_algorithm :: algorithm
  va_leeway :: u64
  va_validate_nbf :: bool
  va_issuer :: "string list"
  va_audience :: "string list"
  va_required :: "string list"

text \<open>The state of a bearer authorizer: its policy, its allowlist, the keys and the time of the
  last refresh attempt.\<close>

record jwt_authorizer =
  ja_config :: client_authorization_config
  ja_algorithms :: "algorithm list"
  ja_keys :: key_state
  ja_last_attempt :: nat

record oidc_authorizer =
  oz_config :: client_authorization_config
  oz_hostname :: string
  oz_client_secret :: "string option"
  oz_cookie_key :: bytes
  oz_flow_cookie :: string
  oz_session_cookie :: string

record authorizer =
  au_config :: client_authorization_config
  au_bearer :: "jwt_authorizer option"
  au_oidc :: "oidc_authorizer option"

text \<open>What the OpenID Connect library is configured with, and what its token endpoint answers.\<close>

record oidc_client =
  oc_client_id :: string
  oc_client_secret :: "string option"
  oc_redirect_uri :: string

record token_response =
  tk_access_token :: string
  tk_id_token :: "string option"

text \<open>A cookie with the attributes the code sets; its age is an \<^verbatim>\<open>i64\<close>.\<close>

datatype same_site = Strict | Lax | No_restriction

record private_cookie =
  ck_name :: string
  ck_value :: string
  ck_path :: string
  ck_secure :: bool
  ck_http_only :: bool
  ck_same_site :: same_site
  ck_max_age :: int

text \<open>The ways a GET of a JSON document ends: it cannot be sent, has an error status, cannot be
  decoded, or is decoded.\<close>

datatype 'a fetched = Send_failed anyhow | Status_failed anyhow | Decode_failed anyhow | Fetched 'a

text \<open>The answers of third-party code and of the clocks at one request: \<open>en_now\<close> is the system time,
  \<open>en_instant\<close> the monotonic clock, \<open>en_error_text\<close> the text of an error. Private cookies
  (\<^verbatim>\<open>cookie::CookieJar\<close>) encrypt a value under a key and the name of the cookie; the text of a cookie
  is its \<^verbatim>\<open>Display\<close>. The exchange of a code and the hash of an access token fail with the contexts
  that the source gives their stages.\<close>

record auth_env =
  en_now :: nat
  en_instant :: nat
  en_error_text :: "anyhow \<Rightarrow> string"
  en_http_client :: "unit res"
  en_unix_now :: u64
  en_get_discovery :: "string \<Rightarrow> discovery_document fetched"
  en_get_jwks :: "string \<Rightarrow> jwk list fetched"
  en_persist_jwks :: "string \<Rightarrow> jwk list \<Rightarrow> unit res"
  en_decode_header :: "string \<Rightarrow> (algorithm \<times> string option) res"
  en_decode :: "string \<Rightarrow> jwk \<Rightarrow> validation \<Rightarrow> sval res"
  en_key_usable :: "jwk \<Rightarrow> bool"
  en_header_ok :: "bytes \<Rightarrow> bool"
  en_header_text :: "bytes \<Rightarrow> bool"
  en_to_json :: "sval \<Rightarrow> bytes res"
  en_b64url_encode :: "bytes \<Rightarrow> string"
  en_encrypt :: "bytes \<Rightarrow> string \<Rightarrow> string \<Rightarrow> string"
  en_decrypt :: "bytes \<Rightarrow> string \<Rightarrow> string \<Rightarrow> string option"
  en_cookie_text :: "private_cookie \<Rightarrow> string"
  en_url_ok :: "string \<Rightarrow> bool"
  en_begin_login :: "oidc_client \<Rightarrow> string list \<Rightarrow> string \<times> string \<times> string \<times> string"
  en_form_parse :: "string \<Rightarrow> (string \<times> string) list"
  en_exchange :: "oidc_client \<Rightarrow> string \<Rightarrow> string \<Rightarrow> token_response res"
  en_verify_id_token :: "oidc_client \<Rightarrow> string \<Rightarrow> string \<Rightarrow> string option res"
  en_access_token_hash :: "oidc_client \<Rightarrow> string \<Rightarrow> string \<Rightarrow> string res"
  en_b64url_decode :: "string \<Rightarrow> bytes res"
  en_from_json :: "bytes \<Rightarrow> sval res"

section \<open>Responses\<close>

definition json_response :: "nat \<Rightarrow> bytes \<Rightarrow> http_response" where
  "json_response status body =
     \<lparr>resp_status = status,
      resp_headers = hinsert ''cache-control'' ''no-store'' (hinsert ''content-type'' ''application/json'' []),
      resp_body = body\<rparr>"

definition unauthorized_response :: http_response where
  "unauthorized_response =
     (let response = json_response 401 (''{\"error\":\"unauthorized\"}'' @ [CHR 0x0A]) in
      response\<lparr>resp_headers := hinsert ''www-authenticate'' ''Bearer realm=\"lfp-pipe\"''
        (resp_headers response)\<rparr>)"

definition forbidden_response :: http_response where
  "forbidden_response = json_response 403 (''{\"error\":\"forbidden\"}'' @ [CHR 0x0A])"

definition internal_error_response :: http_response where
  "internal_error_response =
     json_response 500 (''{\"error\":\"authentication unavailable\"}'' @ [CHR 0x0A])"

definition method_not_allowed_response :: http_response where
  "method_not_allowed_response =
     json_response 405 (''{\"error\":\"method not allowed\"}'' @ [CHR 0x0A])"

definition clear_cookie :: "string \<Rightarrow> string" where
  "clear_cookie name = name @ ''=; Path=/; HttpOnly; SameSite=Lax; Secure; Max-Age=0''"

fun append_cookies :: "(bytes \<Rightarrow> bool) \<Rightarrow> string list \<Rightarrow> header_map \<Rightarrow> header_map res" where
  "append_cookies header_ok [] h = Inr h"
| "append_cookies header_ok (cookie # cookies) h =
     and_then (ensure (header_ok cookie) ''invalid Set-Cookie value'') (\<lambda>_.
       append_cookies header_ok cookies (happend ''set-cookie'' cookie h))"

definition redirect_response ::
    "(bytes \<Rightarrow> bool) \<Rightarrow> nat \<Rightarrow> string \<Rightarrow> string list \<Rightarrow> http_response res" where
  "redirect_response header_ok status location cookies =
     and_then (ensure (header_ok location) ''invalid redirect location'') (\<lambda>_.
     and_then (append_cookies header_ok cookies
       (hinsert ''cache-control'' ''no-store'' (hinsert ''location'' location []))) (\<lambda>h.
       Inr \<lparr>resp_status = status, resp_headers = h, resp_body = []\<rparr>))"

section \<open>Claims and roles\<close>

fun value_get :: "string \<Rightarrow> sval \<Rightarrow> sval option" where
  "value_get key (SMap m) = map_of m key"
| "value_get key _ = None"

fun value_as_str :: "sval \<Rightarrow> string option" where
  "value_as_str (SStr s) = Some s"
| "value_as_str _ = None"

fun value_as_u64 :: "sval \<Rightarrow> u64 option" where
  "value_as_u64 (SInt i) = (if 0 \<le> i \<and> i < 2 ^ 64 then Some (word_of_int i) else None)"
| "value_as_u64 _ = None"

fun claim_at :: "string list \<Rightarrow> sval \<Rightarrow> sval res" where
  "claim_at [] v = Inr v"
| "claim_at (component # components) v =
     and_then (ensure (component \<noteq> []) ''roles_claim contains an empty path component'') (\<lambda>_.
     and_then (opt_context ''JWT role claim is missing'' (value_get component v)) (\<lambda>v.
       claim_at components v))"

text \<open>The \<^verbatim>\<open>HashSet\<close> of the source is a list without repetitions.\<close>

definition claim_strings :: "sval \<Rightarrow> string \<Rightarrow> string list res" where
  "claim_strings claims path = and_then (claim_at (split_on (CHR ''.'') path) claims) (\<lambda>v.
     case v of
       SStr role \<Rightarrow> Inr [role]
     | SSeq roles \<Rightarrow> and_then (collect_res (\<lambda>role.
           opt_context ''JWT role claim array must contain strings'' (value_as_str role)) roles) (\<lambda>vs.
           Inr (remdups vs))
     | _ \<Rightarrow> bail ''JWT role claim must be a string or string array'')"

definition validate_roles :: "sval \<Rightarrow> client_authorization_config \<Rightarrow> denial + unit" where
  "validate_roles claims config =
     (if az_required_roles config = [] then Inr ()
      else (case claim_strings claims (az_roles_claim config) of
          Inl e \<Rightarrow> Inl (Forbidden e)
        | Inr roles \<Rightarrow>
            let role_ok = (case az_role_match config of
                Any \<Rightarrow> \<exists>required\<in>set (az_required_roles config). required \<in> set roles
              | All \<Rightarrow> \<forall>required\<in>set (az_required_roles config). required \<in> set roles) in
            if \<not> role_ok then Inl (Forbidden [Msg ''required JWT role is missing'']) else Inr ()))"

definition claim_value_strings :: "sval \<Rightarrow> string list res" where
  "claim_value_strings v = (case v of
      SStr s \<Rightarrow> Inr [s]
    | SSeq vs \<Rightarrow> collect_res (\<lambda>x.
        opt_context ''identity claim array must contain strings'' (value_as_str x)) vs
    | _ \<Rightarrow> bail ''identity claim must be a string or string array'')"

definition str_claim :: "string \<Rightarrow> sval \<Rightarrow> string option" where
  "str_claim name claims = Option.bind (value_get name claims) value_as_str"

definition has_newline :: "string \<Rightarrow> bool" where
  "has_newline s \<longleftrightarrow> CHR 0x0D \<in> set s \<or> CHR 0x0A \<in> set s"

definition identity_groups :: "sval \<Rightarrow> string \<Rightarrow> string list res" where
  "identity_groups claims roles_claim = (case claim_strings claims roles_claim of
      Inr vs \<Rightarrow> Inr vs
    | Inl _ \<Rightarrow> (case value_get ''groups'' claims of
          None \<Rightarrow> Inr []
        | Some v \<Rightarrow> claim_value_strings v))"

definition identity_from_claims :: "sval \<Rightarrow> string \<Rightarrow> authenticated_identity res" where
  "identity_from_claims claims roles_claim =
     and_then (opt_context ''identity token has no string sub claim'' (str_claim ''sub'' claims)) (\<lambda>subject.
     let email = str_claim ''email'' claims;
         name = str_claim ''name'' claims;
         username = unwrap_or subject
           (or_else (find_map (\<lambda>n. str_claim n claims) [''preferred_username'', ''name'']) email) in
     and_then (identity_groups claims roles_claim) (\<lambda>unsorted.
     let groups = sort unsorted;
         expires_unix = unwrap_or 0 (Option.bind (value_get ''exp'' claims) value_as_u64) in
     and_then (for_each_res (\<lambda>v. ensure (\<not> has_newline v) ''identity claim contains a newline'')
       ([subject, username] @ (case name of None \<Rightarrow> [] | Some n \<Rightarrow> [n]) @
        (case email of None \<Rightarrow> [] | Some e \<Rightarrow> [e]) @ groups)) (\<lambda>_.
       Inr \<lparr>ai_subject = subject, ai_username = username, ai_name = name, ai_email = email,
            ai_groups = groups, ai_expires_unix = expires_unix\<rparr>)))"

section \<open>Bearer tokens\<close>

definition parse_algorithm :: "(string \<Rightarrow> algorithm option) \<Rightarrow> string \<Rightarrow> algorithm res" where
  "parse_algorithm from_str v =
     and_then (case from_str v of
         None \<Rightarrow> Inl [Msg (''unsupported JWT algorithm '' @ v), Ext_cause ''InvalidAlgorithmName'']
       | Some a \<Rightarrow> Inr a) (\<lambda>algorithm.
     and_then (ensure (algorithm \<notin> {HS256, HS384, HS512})
       ''symmetric JWT algorithms are not accepted for JWKS authorization'') (\<lambda>_.
       Inr algorithm))"

text \<open>\<^verbatim>\<open>Duration::from_secs\<close>, in nanoseconds.\<close>

definition from_secs :: "u64 \<Rightarrow> nat" where
  "from_secs seconds = unat seconds * 1000000000"

definition ensure_cache_age :: "client_authorization_config \<Rightarrow> nat \<Rightarrow> nat \<Rightarrow> unit res" where
  "ensure_cache_age config now obtained_at =
     (if az_jwks_max_stale_seconds config = 0 then Inr ()
      else ensure (now - obtained_at \<le> from_secs (az_jwks_max_stale_seconds config))
        ''cached JWKS exceeds jwks_max_stale_seconds'')"

fun get_json :: "string \<Rightarrow> string \<Rightarrow> string \<Rightarrow> 'a fetched \<Rightarrow> 'a res" where
  "get_json sent status decoded (Send_failed e) = add_context sent (Inl e)"
| "get_json sent status decoded (Status_failed e) = add_context status (Inl e)"
| "get_json sent status decoded (Decode_failed e) = add_context decoded (Inl e)"
| "get_json sent status decoded (Fetched x) = Inr x"

definition fetch_jwks :: "auth_env \<Rightarrow> client_authorization_config \<Rightarrow> jwk list res" where
  "fetch_jwks env config =
     and_then (case az_jwks_uri config of
         Some uri \<Rightarrow> Inr uri
       | None \<Rightarrow>
           and_then (get_json ''fetch OIDC discovery document'' ''OIDC discovery endpoint returned an error''
             ''decode OIDC discovery document'' (en_get_discovery env (trim_end_matches (CHR ''/'') (az_issuer config) @
               ''/.well-known/openid-configuration''))) (\<lambda>discovery.
           and_then (ensure (dd_issuer discovery = az_issuer config)
             ''OIDC discovery issuer does not exactly match configuration'') (\<lambda>_.
             Inr (dd_jwks_uri discovery)))) (\<lambda>jwks_uri.
     and_then (get_json ''fetch JWKS'' ''JWKS endpoint returned an error'' ''decode JWKS''
       (en_get_jwks env jwks_uri)) (\<lambda>keys.
     and_then (ensure (keys \<noteq> []) ''JWKS contains no keys'') (\<lambda>_. Inr keys)))"

text \<open>\<open>modified\<close> is the age stamp of a file and \<open>contents\<close> its keys.\<close>

definition load_cached_jwks ::
    "nat \<Rightarrow> (string \<Rightarrow> nat res) \<Rightarrow> (string \<Rightarrow> jwk list res) \<Rightarrow> client_authorization_config \<Rightarrow> key_state res" where
  "load_cached_jwks now modified contents config =
     and_then (modified (az_jwks_cache_file config)) (\<lambda>obtained_at.
     and_then (ensure_cache_age config now obtained_at) (\<lambda>_.
     and_then (contents (az_jwks_cache_file config)) (\<lambda>keys.
     and_then (ensure (keys \<noteq> []) ''cached JWKS contains no keys'') (\<lambda>_.
       Inr \<lparr>ks_set = keys, ks_obtained_at = obtained_at\<rparr>))))"

definition jwt_load ::
    "auth_env \<Rightarrow> (string \<Rightarrow> algorithm option) \<Rightarrow> (string \<Rightarrow> string res) \<Rightarrow> (string \<Rightarrow> nat res) \<Rightarrow>
     (string \<Rightarrow> jwk list res) \<Rightarrow> client_authorization_config \<Rightarrow> jwt_authorizer res" where
  "jwt_load env from_str expand_home modified contents config =
     and_then (expand_home (az_jwks_cache_file config)) (\<lambda>cache_file.
     let config = config\<lparr>az_jwks_cache_file := cache_file\<rparr> in
     and_then (collect_res (parse_algorithm from_str) (az_algorithms config)) (\<lambda>algorithms.
     and_then (ensure (algorithms \<noteq> []) ''JWT algorithm allowlist cannot be empty'') (\<lambda>_.
     and_then (add_context ''construct JWT key HTTP client'' (en_http_client env)) (\<lambda>_.
     and_then (case fetch_jwks env config of
         Inr keys \<Rightarrow> and_then (en_persist_jwks env (az_jwks_cache_file config) keys) (\<lambda>_.
           Inr \<lparr>ks_set = keys, ks_obtained_at = en_now env\<rparr>)
       | Inl remote_error \<Rightarrow> add_context (''identity provider unavailable ('' @ en_error_text env remote_error @
             '') and JWKS cache is unusable'') (load_cached_jwks (en_now env) modified contents config)) (\<lambda>state.
       Inr \<lparr>ja_config = config, ja_algorithms = algorithms, ja_keys = state,
            ja_last_attempt = en_instant env\<rparr>)))))"

definition refresh_if_due :: "auth_env \<Rightarrow> bool \<Rightarrow> jwt_authorizer \<Rightarrow> unit res \<times> jwt_authorizer" where
  "refresh_if_due env force ja =
     (let minimum_interval = (if force then from_secs 10 else from_secs (az_jwks_refresh_seconds (ja_config ja))) in
      if en_instant env - ja_last_attempt ja < minimum_interval then (Inr (), ja)
      else
        let ja' = ja\<lparr>ja_last_attempt := en_instant env\<rparr> in
        case fetch_jwks env (ja_config ja) of
          Inr jwks \<Rightarrow> (case en_persist_jwks env (az_jwks_cache_file (ja_config ja)) jwks of
              Inl e \<Rightarrow> (Inl e, ja')
            | Inr _ \<Rightarrow> (Inr (), ja'\<lparr>ja_keys := \<lparr>ks_set = jwks, ks_obtained_at = en_now env\<rparr>\<rparr>))
        | Inl _ \<Rightarrow> (ensure_cache_age (ja_config ja) (en_now env) (ks_obtained_at (ja_keys ja)), ja'))"

definition key_for :: "auth_env \<Rightarrow> jwt_authorizer \<Rightarrow> string \<Rightarrow> algorithm \<Rightarrow> jwk res" where
  "key_for env ja kid algorithm =
     and_then (ensure_cache_age (ja_config ja) (en_now env) (ks_obtained_at (ja_keys ja))) (\<lambda>_.
     and_then (opt_context ''JWT signing key was not found''
       (find (\<lambda>k. jwk_kid k = Some kid) (ks_set (ja_keys ja)))) (\<lambda>jwk.
     and_then (case jwk_use_signature jwk of
         None \<Rightarrow> Inr () | Some signature \<Rightarrow> ensure signature ''JWK is not a signing key'') (\<lambda>_.
     and_then (case jwk_algorithm jwk of
         None \<Rightarrow> Inr ()
       | Some a \<Rightarrow> ensure (a = Some algorithm) ''JWK algorithm does not match JWT header'') (\<lambda>_.
     and_then (ensure (en_key_usable env jwk) ''construct JWT verification key'') (\<lambda>_. Inr jwk)))))"

definition token_validation :: "client_authorization_config \<Rightarrow> algorithm \<Rightarrow> validation" where
  "token_validation config algorithm =
     \<lparr>va_algorithm = algorithm, va_leeway = az_leeway_seconds config, va_validate_nbf = True,
      va_issuer = [az_issuer config], va_audience = az_audiences config,
      va_required = [''exp'', ''iss'', ''aud'']\<rparr>"

definition denied :: "'a res \<Rightarrow> denial + 'a" where
  "denied r = (case r of Inl e \<Rightarrow> Inl (Unauthorized e) | Inr x \<Rightarrow> Inr x)"

text \<open>\<^verbatim>\<open>anyhow!\<close> with the text of an error at its end.\<close>

definition said :: "(anyhow \<Rightarrow> string) \<Rightarrow> string \<Rightarrow> 'a res \<Rightarrow> 'a res" where
  "said error_text message r = (case r of Inl e \<Rightarrow> Inl [Msg (message @ error_text e)] | Inr x \<Rightarrow> Inr x)"

text \<open>The part of \<^verbatim>\<open>authorize_token\<close> behind the key lookup.\<close>

definition check_token ::
    "auth_env \<Rightarrow> jwt_authorizer \<Rightarrow> string \<Rightarrow> algorithm \<Rightarrow> jwk \<Rightarrow> denial + sval" where
  "check_token env ja token algorithm key =
     and_then (denied (said (en_error_text env) ''JWT validation failed: ''
       (en_decode env token key (token_validation (ja_config ja) algorithm)))) (\<lambda>claims.
     and_then (validate_roles claims (ja_config ja)) (\<lambda>_. Inr claims))"

definition authorize_token ::
    "auth_env \<Rightarrow> string \<Rightarrow> jwt_authorizer \<Rightarrow> (denial + sval) \<times> jwt_authorizer" where
  "authorize_token env token ja =
     (case refresh_if_due env False ja of
        (Inl e, ja1) \<Rightarrow> (Inl (Unauthorized e), ja1)
      | (Inr _, ja1) \<Rightarrow>
          (case denied (said (en_error_text env) ''invalid JWT header: '' (en_decode_header env token)) of
             Inl d \<Rightarrow> (Inl d, ja1)
           | Inr (alg, kid) \<Rightarrow>
               if alg \<notin> set (ja_algorithms ja1) then
                 (Inl (Unauthorized [Msg ''JWT algorithm is not allowed'']), ja1)
               else (case kid of
                   None \<Rightarrow> (Inl (Unauthorized [Msg ''JWT header is missing kid'']), ja1)
                 | Some kid \<Rightarrow> (case key_for env ja1 kid alg of
                       Inr key \<Rightarrow> (check_token env ja1 token alg key, ja1)
                     | Inl _ \<Rightarrow> (case refresh_if_due env True ja1 of
                           (Inl e, ja2) \<Rightarrow> (Inl (Unauthorized e), ja2)
                         | (Inr _, ja2) \<Rightarrow> (and_then (denied (key_for env ja2 kid alg))
                             (check_token env ja2 token alg), ja2))))))"

definition authorize_headers ::
    "auth_env \<Rightarrow> header_map \<Rightarrow> jwt_authorizer \<Rightarrow> (denial + sval) \<times> jwt_authorizer" where
  "authorize_headers env headers ja =
     (case hget ''authorization'' headers of
        None \<Rightarrow> (Inl (Unauthorized [Msg ''Authorization header is required'']), ja)
      | Some raw \<Rightarrow>
          if \<not> en_header_text env raw then
            (Inl (Unauthorized [Msg (''Authorization header is invalid: '' @ en_error_text env [Ext_cause ''ToStrError''])]), ja)
          else (case split_once (CHR '' '') (trim raw) of
              None \<Rightarrow> (Inl (Unauthorized [Msg ''Authorization header must use Bearer'']), ja)
            | Some (scheme, token) \<Rightarrow>
                if \<not> eq_ignore_ascii_case scheme ''Bearer'' \<or> blank token then
                  (Inl (Unauthorized [Msg ''Authorization header must use Bearer'']), ja)
                else authorize_token env (trim token) ja))"

section \<open>Browser sessions\<close>

definition ser_authenticated_identity :: "authenticated_identity \<Rightarrow> sval" where
  "ser_authenticated_identity i = SMap
     [(''subject'', SStr (ai_subject i)), (''username'', SStr (ai_username i)),
      (''name'', ser_option SStr (ai_name i)), (''email'', ser_option SStr (ai_email i)),
      (''groups'', SSeq (map SStr (ai_groups i))), (''expires_unix'', ser_word (ai_expires_unix i))]"

definition de_authenticated_identity :: "authenticated_identity decoder" where
  "de_authenticated_identity v =
     and_then (struct_fields [(''subject'', False), (''username'', False), (''name'', True),
         (''email'', False), (''groups'', False), (''expires_unix'', False)] v) (\<lambda>m.
     and_then (req_field ''subject'' de_string m) (\<lambda>subject.
     and_then (req_field ''username'' de_string m) (\<lambda>username.
     and_then (opt_field ''name'' de_string m) (\<lambda>name.
     and_then (opt_field ''email'' de_string m) (\<lambda>email.
     and_then (req_field ''groups'' (de_vec de_string) m) (\<lambda>groups.
     and_then (req_field ''expires_unix'' de_word m) (\<lambda>expires_unix.
       Inr \<lparr>ai_subject = subject, ai_username = username, ai_name = name, ai_email = email,
            ai_groups = groups, ai_expires_unix = expires_unix\<rparr>)))))))"

definition ser_oidc_flow :: "oidc_flow \<Rightarrow> sval" where
  "ser_oidc_flow f = SMap
     [(''state'', SStr (fl_state f)), (''nonce'', SStr (fl_nonce f)),
      (''pkce_verifier'', SStr (fl_pkce_verifier f)), (''return_to'', SStr (fl_return_to f)),
      (''expires_unix'', ser_word (fl_expires_unix f))]"

definition de_oidc_flow :: "oidc_flow decoder" where
  "de_oidc_flow v =
     and_then (struct_fields [(''state'', False), (''nonce'', False), (''pkce_verifier'', False),
         (''return_to'', False), (''expires_unix'', False)] v) (\<lambda>m.
     and_then (req_field ''state'' de_string m) (\<lambda>state.
     and_then (req_field ''nonce'' de_string m) (\<lambda>nonce.
     and_then (req_field ''pkce_verifier'' de_string m) (\<lambda>pkce_verifier.
     and_then (req_field ''return_to'' de_string m) (\<lambda>return_to.
     and_then (req_field ''expires_unix'' de_word m) (\<lambda>expires_unix.
       Inr \<lparr>fl_state = state, fl_nonce = nonce, fl_pkce_verifier = pkce_verifier,
            fl_return_to = return_to, fl_expires_unix = expires_unix\<rparr>))))))"

text \<open>\<^verbatim>\<open>u64::saturating_add\<close>\<close>

definition saturating_add :: "u64 \<Rightarrow> u64 \<Rightarrow> u64" where
  "saturating_add a b = (if unat a + unat b < 2 ^ 64 then a + b else - 1)"

definition request_cookie :: "(bytes \<Rightarrow> bool) \<Rightarrow> header_map \<Rightarrow> string \<Rightarrow> string option" where
  "request_cookie header_text headers name =
     find_map (\<lambda>(candidate, v). if candidate = name then Some v else None)
       (filter_map (\<lambda>pair. split_once (CHR ''='') (trim pair))
         (concat (map (split_on (CHR '';'')) (filter header_text (hget_all ''cookie'' headers)))))"

definition cookie_max_age :: "u64 \<Rightarrow> int" where
  "cookie_max_age seconds = min (uint seconds) (2 ^ 63 - 1)"

definition encrypt_cookie :: "auth_env \<Rightarrow> oidc_authorizer \<Rightarrow> string \<Rightarrow> sval \<Rightarrow> u64 \<Rightarrow> string res" where
  "encrypt_cookie env oz name v max_age_seconds =
     and_then (en_to_json env v) (\<lambda>bytes.
     let encoded = en_b64url_encode env bytes;
         cookie = \<lparr>ck_name = name, ck_value = encoded, ck_path = ''/'', ck_secure = True, ck_http_only = True,
           ck_same_site = Lax, ck_max_age = cookie_max_age max_age_seconds\<rparr>;
         output = en_cookie_text env (cookie\<lparr>ck_value := en_encrypt env (oz_cookie_key oz) name encoded\<rparr>) in
     and_then (ensure (length output \<le> 4096) ''encrypted OIDC cookie exceeds 4096 bytes'') (\<lambda>_.
       Inr output))"

definition decrypt_cookie ::
    "auth_env \<Rightarrow> oidc_authorizer \<Rightarrow> 'a decoder \<Rightarrow> header_map \<Rightarrow> string \<Rightarrow> 'a option res" where
  "decrypt_cookie env oz de headers name =
     (case request_cookie (en_header_text env) headers name of
        None \<Rightarrow> Inr None
      | Some raw \<Rightarrow> (case en_decrypt env (oz_cookie_key oz) name raw of
            None \<Rightarrow> Inr None
          | Some encoded \<Rightarrow>
              and_then (add_context ''decode encrypted cookie'' (en_b64url_decode env encoded)) (\<lambda>decoded.
              and_then (add_context ''decode OIDC cookie payload'' (and_then (en_from_json env decoded) de)) (\<lambda>x.
                Inr (Some x)))))"

text \<open>What a cookie of a request holds once it is decrypted and decoded.\<close>

definition cookie_opens :: "auth_env \<Rightarrow> oidc_authorizer \<Rightarrow> string \<Rightarrow> string \<Rightarrow> sval \<Rightarrow> bool" where
  "cookie_opens env oz name raw v \<longleftrightarrow>
     (case en_decrypt env (oz_cookie_key oz) name raw of
        None \<Rightarrow> False
      | Some encoded \<Rightarrow> and_then (en_b64url_decode env encoded) (en_from_json env) = Inr v)"

definition oidc_session :: "auth_env \<Rightarrow> oidc_authorizer \<Rightarrow> header_map \<Rightarrow> authenticated_identity option res" where
  "oidc_session env oz headers =
     and_then (decrypt_cookie env oz de_authenticated_identity headers (oz_session_cookie oz)) (\<lambda>identity.
     case identity of
       None \<Rightarrow> Inr None
     | Some identity \<Rightarrow>
         if ai_expires_unix identity \<le> en_unix_now env then Inr None else Inr (Some identity))"

definition safe_return_to :: "uri \<Rightarrow> string" where
  "safe_return_to u =
     (let v = unwrap_or ''/'' (uri_path_and_query u) in
      if starts_with ''/'' v \<and> \<not> starts_with ''//'' v \<and> length v \<le> 1024 then v else ''/'')"

definition oidc_client_for :: "auth_env \<Rightarrow> oidc_authorizer \<Rightarrow> oidc_client res" where
  "oidc_client_for env oz =
     (let redirect = ''https://'' @ oz_hostname oz @ az_oidc_callback_path (oz_config oz) in
      and_then (opt_context ''OIDC client ID is missing'' (az_oidc_client_id (oz_config oz))) (\<lambda>client_id.
      and_then (if en_url_ok env redirect then Inr () else Inl [Msg ''parse OIDC redirect URL'', Ext_cause ''url'']) (\<lambda>_.
        Inr \<lparr>oc_client_id = client_id, oc_client_secret = oz_client_secret oz, oc_redirect_uri = redirect\<rparr>)))"

definition login_inner :: "auth_env \<Rightarrow> oidc_authorizer \<Rightarrow> uri \<Rightarrow> http_response res" where
  "login_inner env oz u =
     and_then (oidc_client_for env oz) (\<lambda>c.
     let (url, state, nonce, verifier) = en_begin_login env c
           (filter (\<lambda>scope. \<not> eq_ignore_ascii_case scope ''openid'') (az_oidc_scopes (oz_config oz)));
         flow = \<lparr>fl_state = state, fl_nonce = nonce, fl_pkce_verifier = verifier,
           fl_return_to = safe_return_to u, fl_expires_unix = saturating_add (en_unix_now env) (10 * 60)\<rparr> in
     and_then (encrypt_cookie env oz (oz_flow_cookie oz) (ser_oidc_flow flow) (10 * 60)) (\<lambda>cookie.
       redirect_response (en_header_ok env) 302 url [cookie]))"

definition oidc_login :: "auth_env \<Rightarrow> oidc_authorizer \<Rightarrow> uri \<Rightarrow> http_response" where
  "oidc_login env oz u = (case login_inner env oz u of Inr r \<Rightarrow> r | Inl _ \<Rightarrow> internal_error_response)"

definition decode_verified_claims :: "auth_env \<Rightarrow> string \<Rightarrow> sval res" where
  "decode_verified_claims env token =
     and_then (case split_on (CHR ''.'') token of
         _ # payload # _ \<Rightarrow> Inr payload
       | _ \<Rightarrow> bail ''verified ID token has no payload'') (\<lambda>payload.
     and_then (add_context ''decode verified ID token payload'' (en_b64url_decode env payload)) (\<lambda>bytes.
       add_context ''decode verified ID token claims'' (en_from_json env bytes)))"

definition callback_inner :: "auth_env \<Rightarrow> oidc_authorizer \<Rightarrow> uri \<Rightarrow> header_map \<Rightarrow> http_response res" where
  "callback_inner env oz u headers =
     and_then (decrypt_cookie env oz de_oidc_flow headers (oz_flow_cookie oz)) (\<lambda>flow.
     and_then (opt_context ''OIDC flow cookie is missing or invalid'' flow) (\<lambda>flow.
     and_then (ensure (en_unix_now env < fl_expires_unix flow) ''OIDC flow expired'') (\<lambda>_.
     and_then (opt_context ''OIDC callback query is missing'' (uri_query u)) (\<lambda>query.
     let params = map_of (rev (en_form_parse env query)) in
     and_then (ensure (params ''error'' = None) ''OIDC provider returned an error'') (\<lambda>_.
     and_then (opt_context ''OIDC state is missing'' (params ''state'')) (\<lambda>state.
     and_then (ensure (state = fl_state flow) ''OIDC state does not match'') (\<lambda>_.
     and_then (opt_context ''OIDC code is missing'' (params ''code'')) (\<lambda>code.
     and_then (oidc_client_for env oz) (\<lambda>c.
     and_then (en_exchange env c code (fl_pkce_verifier flow)) (\<lambda>token_response.
     and_then (opt_context ''OIDC response has no ID token'' (tk_id_token token_response)) (\<lambda>id_token.
     and_then (add_context ''verify OIDC ID token'' (en_verify_id_token env c id_token (fl_nonce flow))) (\<lambda>access_token_hash.
     and_then (case access_token_hash of
         None \<Rightarrow> Inr ()
       | Some expected \<Rightarrow>
           and_then (en_access_token_hash env c (tk_access_token token_response) id_token) (\<lambda>actual.
             ensure (actual = expected) ''OIDC access-token hash does not match'')) (\<lambda>_.
     and_then (decode_verified_claims env id_token) (\<lambda>raw_claims.
     and_then (case validate_roles raw_claims (oz_config oz) of
         Inr _ \<Rightarrow> Inr ()
       | Inl (Unauthorized e) \<Rightarrow> Inl e
       | Inl (Forbidden e) \<Rightarrow> Inl e) (\<lambda>_.
     and_then (identity_from_claims raw_claims (az_roles_claim (oz_config oz))) (\<lambda>identity.
     let identity = identity\<lparr>ai_expires_unix :=
           saturating_add (en_unix_now env) (az_oidc_session_ttl_seconds (oz_config oz))\<rparr> in
     and_then (encrypt_cookie env oz (oz_session_cookie oz) (ser_authenticated_identity identity)
       (az_oidc_session_ttl_seconds (oz_config oz))) (\<lambda>session.
       redirect_response (en_header_ok env) 303 (fl_return_to flow)
         [session, clear_cookie (oz_flow_cookie oz)])))))))))))))))))"

definition oidc_callback :: "auth_env \<Rightarrow> oidc_authorizer \<Rightarrow> string \<Rightarrow> uri \<Rightarrow> header_map \<Rightarrow> http_response" where
  "oidc_callback env oz meth u headers =
     (if meth \<noteq> ''GET'' then method_not_allowed_response
      else (case callback_inner env oz u headers of Inr r \<Rightarrow> r | Inl _ \<Rightarrow> unauthorized_response))"

definition oidc_logout :: "auth_env \<Rightarrow> oidc_authorizer \<Rightarrow> string \<Rightarrow> http_response" where
  "oidc_logout env oz meth =
     (if meth \<noteq> ''GET'' \<and> meth \<noteq> ''POST'' then method_not_allowed_response
      else (case redirect_response (en_header_ok env) 303 ''/''
            [clear_cookie (oz_session_cookie oz), clear_cookie (oz_flow_cookie oz)] of
          Inr r \<Rightarrow> r | Inl _ \<Rightarrow> internal_error_response))"

section \<open>The authorizer\<close>

definition forward_authorization :: "authorizer \<Rightarrow> bool" where
  "forward_authorization au = az_forward_authorization (au_config au)"

text \<open>The header limit and the header timeout in milliseconds.\<close>

definition authorizer_request_limits :: "authorizer \<Rightarrow> usize \<times> u64" where
  "authorizer_request_limits au = (az_max_header_bytes (au_config au), az_header_timeout_ms (au_config au))"

definition handles_endpoint :: "authorizer \<Rightarrow> string \<Rightarrow> bool" where
  "handles_endpoint au path \<longleftrightarrow> au_oidc au \<noteq> None \<and>
     (path = az_oidc_callback_path (au_config au) \<or> path = az_oidc_logout_path (au_config au))"

definition authorize_bearer ::
    "auth_env \<Rightarrow> header_map \<Rightarrow> authorizer \<Rightarrow> authorization_decision \<times> authorizer" where
  "authorize_bearer env headers au = (case au_bearer au of
      None \<Rightarrow> (Respond unauthorized_response, au)
    | Some ja \<Rightarrow> (case authorize_headers env headers ja of
        (r, ja') \<Rightarrow>
          (case r of
             Inr claims \<Rightarrow> Allow (case identity_from_claims claims (az_roles_claim (au_config au)) of
                 Inr i \<Rightarrow> Some i | Inl _ \<Rightarrow> None)
           | Inl (Forbidden _) \<Rightarrow> Respond forbidden_response
           | Inl (Unauthorized _) \<Rightarrow> Respond unauthorized_response,
           au\<lparr>au_bearer := Some ja'\<rparr>)))"

definition authorize ::
    "auth_env \<Rightarrow> string \<Rightarrow> uri \<Rightarrow> header_map \<Rightarrow> authorizer \<Rightarrow> authorization_decision \<times> authorizer" where
  "authorize env meth u headers au =
     (case au_oidc au of
        Some oz \<Rightarrow>
          if uri_path u = az_oidc_callback_path (au_config au) then
            (Respond (oidc_callback env oz meth u headers), au)
          else if uri_path u = az_oidc_logout_path (au_config au) then
            (Respond (oidc_logout env oz meth), au)
          else if hcontains ''authorization'' headers then authorize_bearer env headers au
          else (case oidc_session env oz headers of
              Inr (Some identity) \<Rightarrow> (Allow (Some identity), au)
            | _ \<Rightarrow> (Respond (oidc_login env oz u), au))
      | None \<Rightarrow>
          if hcontains ''authorization'' headers then authorize_bearer env headers au
          else (Respond unauthorized_response, au))"

text \<open>\<^verbatim>\<open>OidcAuthorizer::load\<close>: \<open>http_client\<close> builds the client, \<open>discover\<close> returns the issuer of the provider's metadata, \<open>load_key\<close>
  the cookie key of a file, and \<open>namespace_of\<close> is the hash of the standard library in
  hexadecimal.\<close>

definition oidc_load ::
    "unit res \<Rightarrow> (string \<Rightarrow> unit res) \<Rightarrow> (string \<Rightarrow> string res) \<Rightarrow> (string \<Rightarrow> string res) \<Rightarrow> (string \<Rightarrow> string res) \<Rightarrow> (string \<Rightarrow> bytes res) \<Rightarrow>
     (string \<times> string option \<times> string \<Rightarrow> string) \<Rightarrow>
     client_authorization_config \<Rightarrow> string \<Rightarrow> oidc_authorizer res" where
  "oidc_load http_client parse_issuer expand_home read_secret discover load_key namespace_of config hostname =
     and_then (case opt_filter (\<lambda>path. \<not> blank path) (az_oidc_client_secret_file config) of
         None \<Rightarrow> Inr None
       | Some path \<Rightarrow>
           and_then (expand_home path) (\<lambda>secret_path.
           and_then (add_context (''read OIDC client secret '' @ secret_path) (read_secret secret_path)) (\<lambda>raw.
           and_then (ensure (\<not> blank raw) ''OIDC client secret file is empty'') (\<lambda>_.
             Inr (Some (trim raw)))))) (\<lambda>client_secret.
     and_then (add_context ''construct OIDC HTTP client'' http_client) (\<lambda>_.
     and_then (add_context ''parse OIDC issuer'' (parse_issuer (az_issuer config))) (\<lambda>_.
     and_then (add_context ''discover OIDC provider'' (discover (az_issuer config))) (\<lambda>issuer.
     and_then (ensure (issuer = az_issuer config)
       ''OIDC discovery issuer does not exactly match configuration'') (\<lambda>_.
     and_then (expand_home (az_oidc_session_key_file config)) (\<lambda>key_path.
     and_then (load_key key_path) (\<lambda>cookie_key.
     let namespace = namespace_of (az_issuer config, az_oidc_client_id config, hostname) in
       Inr \<lparr>oz_config = config, oz_hostname = hostname, oz_client_secret = client_secret,
            oz_cookie_key = cookie_key, oz_flow_cookie = ''__Host-lfp_flow_'' @ namespace,
            oz_session_cookie = ''__Host-lfp_session_'' @ namespace\<rparr>)))))))"

definition authorizer_load ::
    "jwt_authorizer res \<Rightarrow> oidc_authorizer res \<Rightarrow> client_authorization_config \<Rightarrow> authorizer res" where
  "authorizer_load bearer_load oidc_loaded config =
     and_then (if bearer_enabled config then and_then bearer_load (\<lambda>b. Inr (Some b)) else Inr None) (\<lambda>bearer.
     and_then (if oidc_enabled config then and_then oidc_loaded (\<lambda>z. Inr (Some z)) else Inr None) (\<lambda>oidc.
       Inr \<lparr>au_config = config, au_bearer = bearer, au_oidc = oidc\<rparr>))"

section \<open>Lemmas\<close>

lemma de_strings: "collect_res de_string (map SStr xs) = Inr xs"
  by (induction xs) simp_all

lemma de_ser_authenticated_identity [simp]:
  "de_authenticated_identity (ser_authenticated_identity i) = Inr i"
  by (cases "ai_name i"; cases "ai_email i")
    (simp_all add: de_authenticated_identity_def ser_authenticated_identity_def struct_fields_def
      field_defs ser_option_def de_strings ser_word_def [symmetric])

lemma de_ser_oidc_flow [simp]: "de_oidc_flow (ser_oidc_flow f) = Inr f"
  by (simp add: de_oidc_flow_def ser_oidc_flow_def struct_fields_def field_defs ser_word_def [symmetric])

lemma denied_eq_Inr [simp]: "denied r = Inr x \<longleftrightarrow> r = Inr x"
  by (cases r) (simp_all add: denied_def)

lemma said_Inr [simp]: "said error_text message r = Inr x \<longleftrightarrow> r = Inr x"
  by (cases r) (simp_all add: said_def)

lemma said_simps [simp]:
  "said error_text message (Inr x) = Inr x" "said error_text message (Inl e) = Inl [Msg (message @ error_text e)]"
  by (simp_all add: said_def)

lemma refresh_keeps_policy:
  assumes "refresh_if_due env force ja = (r, ja')"
  shows "ja_config ja' = ja_config ja" "ja_algorithms ja' = ja_algorithms ja"
  using assms by (auto simp: refresh_if_due_def Let_def split: if_splits sum.splits)

lemma key_for_fresh:
  assumes "key_for env ja kid alg = Inr key"
  shows "az_jwks_max_stale_seconds (ja_config ja) = 0 \<or>
      en_now env - ks_obtained_at (ja_keys ja) \<le> from_secs (az_jwks_max_stale_seconds (ja_config ja))"
    "find (\<lambda>k. jwk_kid k = Some kid) (ks_set (ja_keys ja)) = Some key" "jwk_use_signature key \<noteq> Some False"
    "jwk_algorithm key \<in> {None, Some (Some alg)}" "en_key_usable env key"
  using assms
  by (auto simp: key_for_def ensure_cache_age_def res_simps split: if_splits option.splits)

text \<open>The keys that an authorizer holds after a request: those it held before, or a set that was just
  fetched from the provider and stored.\<close>

definition keys_current :: "auth_env \<Rightarrow> jwt_authorizer \<Rightarrow> key_state \<Rightarrow> bool" where
  "keys_current env ja keys \<longleftrightarrow> keys = ja_keys ja \<or>
     (\<exists>jwks. fetch_jwks env (ja_config ja) = Inr jwks \<and>
        en_persist_jwks env (az_jwks_cache_file (ja_config ja)) jwks = Inr () \<and>
        keys = \<lparr>ks_set = jwks, ks_obtained_at = en_now env\<rparr>)"

text \<open>What a token went through before its claims were returned: its header names an algorithm of
  the allowlist and the first key of that name among the authorizer's keys, which are young
  enough, and the key may verify signatures of that algorithm; it was decoded with this key
  under the configured conditions, and its roles were accepted.\<close>

definition token_accepted :: "auth_env \<Rightarrow> jwt_authorizer \<Rightarrow> key_state \<Rightarrow> string \<Rightarrow> sval \<Rightarrow> bool" where
  "token_accepted env ja keys token claims \<longleftrightarrow>
     (\<exists>alg kid key. en_decode_header env token = Inr (alg, Some kid) \<and> alg \<in> set (ja_algorithms ja) \<and>
        find (\<lambda>k. jwk_kid k = Some kid) (ks_set keys) = Some key \<and>
        jwk_use_signature key \<noteq> Some False \<and> jwk_algorithm key \<in> {None, Some (Some alg)} \<and> en_key_usable env key \<and>
        (az_jwks_max_stale_seconds (ja_config ja) = 0 \<or>
         en_now env - ks_obtained_at keys \<le> from_secs (az_jwks_max_stale_seconds (ja_config ja))) \<and>
        en_decode env token key (token_validation (ja_config ja) alg) = Inr claims \<and>
        validate_roles claims (ja_config ja) = Inr ())"

lemma refresh_keys_current:
  assumes "refresh_if_due env force ja = (r, ja')" "keys_current env ja0 (ja_keys ja)" "ja_config ja = ja_config ja0"
  shows "keys_current env ja0 (ja_keys ja')"
  using assms by (auto simp: refresh_if_due_def keys_current_def Let_def split: if_splits sum.splits)

lemma check_token_accepted:
  assumes "check_token env ja' token alg key = Inr claims" "key_for env ja' kid alg = Inr key"
    "en_decode_header env token = Inr (alg, Some kid)" "alg \<in> set (ja_algorithms ja)"
    "ja_config ja' = ja_config ja"
  shows "token_accepted env ja (ja_keys ja') token claims"
  using assms key_for_fresh [OF assms(2)]
  by (auto simp: check_token_def token_accepted_def res_simps)

lemma authorize_token_accepted:
  assumes "authorize_token env token ja = (Inr claims, ja')"
  shows "token_accepted env ja (ja_keys ja') token claims" "keys_current env ja (ja_keys ja')"
proof -
  obtain r1 ja1 where r1: "refresh_if_due env False ja = (r1, ja1)" by force
  note same1 = refresh_keeps_policy [OF r1]
  have now1: "keys_current env ja (ja_keys ja1)"
    using refresh_keys_current [OF r1, of ja] by (simp add: keys_current_def)
  have r1': "r1 = Inr ()" using assms r1 by (cases r1) (auto simp: authorize_token_def)
  obtain alg kid where hdr: "en_decode_header env token = Inr (alg, Some kid)"
    and alg: "alg \<in> set (ja_algorithms ja)"
    using assms r1 same1
    by (auto simp: authorize_token_def res_simps denied_def split: sum.splits if_splits option.splits prod.splits)
  have "token_accepted env ja (ja_keys ja') token claims \<and> keys_current env ja (ja_keys ja')"
  proof (cases "key_for env ja1 kid alg")
    case (Inr key)
    with assms r1 r1' hdr alg same1 have "check_token env ja1 token alg key = Inr claims" "ja' = ja1"
      by (auto simp: authorize_token_def denied_def)
    with check_token_accepted [OF _ Inr hdr alg same1(1)] now1 show ?thesis by simp
  next
    case (Inl e)
    obtain r2 ja2 where r2: "refresh_if_due env True ja1 = (r2, ja2)" by force
    note same2 = refresh_keeps_policy [OF r2]
    have h: "(case r2 of Inl e \<Rightarrow> (Inl (Unauthorized e), ja2)
        | Inr _ \<Rightarrow> (and_then (denied (key_for env ja2 kid alg)) (check_token env ja2 token alg), ja2)) =
        (Inr claims, ja')"
      using assms alg same1 by (simp add: authorize_token_def r1 r1' hdr denied_def Inl r2)
    then obtain u where "r2 = Inr u" by (cases r2) simp_all
    note h' = h [unfolded this sum.case prod.inject]
    obtain key where "key_for env ja2 kid alg = Inr key"
      "check_token env ja2 token alg key = Inr claims"
      using conjunct1 [OF h'] unfolding and_then_eq_Inr denied_eq_Inr by blast
    with check_token_accepted [of env ja2 token alg key claims kid ja] hdr alg same1 same2
    have "token_accepted env ja (ja_keys ja2) token claims" by simp
    moreover have "keys_current env ja (ja_keys ja2)"
      using refresh_keys_current [OF r2 now1] same1 by simp
    ultimately show ?thesis using h' by blast
  qed
  then show "token_accepted env ja (ja_keys ja') token claims" "keys_current env ja (ja_keys ja')" by simp_all
qed

lemma authorize_headers_accepted:
  assumes "authorize_headers env headers ja = (Inr claims, ja')"
  obtains raw scheme token where "hget ''authorization'' headers = Some raw"
    "split_once (CHR '' '') (trim raw) = Some (scheme, token)" "eq_ignore_ascii_case scheme ''Bearer''"
    "\<not> blank token" "token_accepted env ja (ja_keys ja') (trim token) claims" "keys_current env ja (ja_keys ja')"
  using assms authorize_token_accepted
  by (auto simp: authorize_headers_def simp del: split_once_Some split: option.splits if_splits prod.splits)

lemma decrypt_cookie_Some:
  "decrypt_cookie env oz de headers name = Inr (Some x) \<longleftrightarrow>
   (\<exists>raw v. request_cookie (en_header_text env) headers name = Some raw \<and>
      cookie_opens env oz name raw v \<and> de v = Inr x)"
  by (auto simp: decrypt_cookie_def cookie_opens_def res_simps split: option.splits)

lemma oidc_session_valid:
  assumes "oidc_session env oz headers = Inr (Some i)"
  obtains raw v where "request_cookie (en_header_text env) headers (oz_session_cookie oz) = Some raw"
    "cookie_opens env oz (oz_session_cookie oz) raw v"
    "de_authenticated_identity v = Inr i" "en_unix_now env < ai_expires_unix i"
  using assms
  by (auto simp: oidc_session_def decrypt_cookie_Some res_simps not_le split: option.splits if_splits)

lemma authorize_cases:
  assumes "authorize env meth u headers au = (Allow identity, au')"
  obtains (bearer) ja ja' claims where "au_bearer au = Some ja"
      "authorize_headers env headers ja = (Inr claims, ja')" "hcontains ''authorization'' headers"
      "\<not> handles_endpoint au (uri_path u)" "au' = au\<lparr>au_bearer := Some ja'\<rparr>"
      "identity = (case identity_from_claims claims (az_roles_claim (au_config au)) of Inr i \<Rightarrow> Some i | Inl _ \<Rightarrow> None)"
  | (session) oz i where "au_oidc au = Some oz" "identity = Some i"
      "oidc_session env oz headers = Inr (Some i)" "\<not> hcontains ''authorization'' headers"
      "\<not> handles_endpoint au (uri_path u)" "au' = au"
  using assms
  by (auto simp: authorize_def authorize_bearer_def handles_endpoint_def
      split: option.splits if_splits sum.splits denial.splits prod.splits)

lemma authorize_token_keeps_policy:
  "ja_config (snd (authorize_token env token ja)) = ja_config ja \<and>
   ja_algorithms (snd (authorize_token env token ja)) = ja_algorithms ja"
proof -
  obtain r1 ja1 where r1: "refresh_if_due env False ja = (r1, ja1)" by force
  obtain r2 ja2 where r2: "refresh_if_due env True ja1 = (r2, ja2)" by force
  have "snd (authorize_token env token ja) \<in> {ja1, ja2}"
    unfolding authorize_token_def r1 r2 prod.case by (auto simp: r2 split: sum.split option.split)
  then show ?thesis using refresh_keeps_policy [OF r1] refresh_keeps_policy [OF r2] by auto
qed

lemma validate_roles_Inr:
  "validate_roles claims c = Inr () \<longleftrightarrow> az_required_roles c = [] \<or>
     (\<exists>roles. claim_strings claims (az_roles_claim c) = Inr roles \<and>
        (case az_role_match c of
           Any \<Rightarrow> set (az_required_roles c) \<inter> set roles \<noteq> {}
         | All \<Rightarrow> set (az_required_roles c) \<subseteq> set roles))"
  by (cases "claim_strings claims (az_roles_claim c)"; cases "az_role_match c")
    (auto simp: validate_roles_def)

lemma stale_refresh:
  assumes "fetch_jwks env (ja_config ja) = Inl e" "refresh_if_due env force ja = (r, ja')"
  shows "ja_keys ja' = ja_keys ja" "ja_config ja' = ja_config ja"
  using assms by (auto simp: refresh_if_due_def Let_def split: if_splits)

lemma stale_key_for:
  assumes "az_jwks_max_stale_seconds (ja_config ja) \<noteq> 0"
    "from_secs (az_jwks_max_stale_seconds (ja_config ja)) < en_now env - ks_obtained_at (ja_keys ja)"
  shows "key_for env ja kid alg = Inl [Msg ''cached JWKS exceeds jwks_max_stale_seconds'']"
  using assms by (simp add: key_for_def ensure_cache_age_def)

section \<open>The contract of a request guard\<close>

text \<open>What the proxy relies on: a guard answers the requests to its reserved endpoints itself, and no
  request changes its policy, on which alone the endpoints depend.\<close>

locale request_guard =
  fixes decide :: "'r \<Rightarrow> 'g \<Rightarrow> authorization_decision \<times> 'g"
    and reserved :: "'r \<Rightarrow> 'g \<Rightarrow> bool" and policy :: "'g \<Rightarrow> 'p"
  assumes reserved_answered: "decide r g = (Allow i, g') \<Longrightarrow> \<not> reserved r g"
    and policy_kept: "policy (snd (decide r g)) = policy g"
    and reserved_policy: "policy g = policy g' \<Longrightarrow> reserved r g = reserved r g'"
begin

lemma reserved_respond: "reserved r g \<Longrightarrow> \<exists>response. fst (decide r g) = Respond response"
  using reserved_answered [of r g] by (cases "decide r g"; cases "fst (decide r g)") auto

text \<open>Several guards in one store: serving a request leaves every policy in place.\<close>

lemma store_policies: "map policy (gs[k := snd (decide r (gs ! k))]) = map policy gs"
proof (cases "k < length gs")
  case True
  then show ?thesis by (simp add: map_update policy_kept list_update_same_conv)
qed (simp add: list_update_beyond)

lemma store_reserved:
  "map policy gs = map policy gs' \<Longrightarrow> k < length gs \<Longrightarrow> reserved r (gs ! k) = reserved r (gs' ! k)"
  by (rule reserved_policy) (metis length_map nth_map)

end

text \<open>The part of an authorizer that requests cannot change: everything but the keys and the time
  of the last refresh.\<close>

definition authorizer_policy ::
    "authorizer \<Rightarrow> client_authorization_config \<times> (client_authorization_config \<times> algorithm list) option \<times>
     oidc_authorizer option" where
  "authorizer_policy au =
     (au_config au, map_option (\<lambda>ja. (ja_config ja, ja_algorithms ja)) (au_bearer au), au_oidc au)"

lemma authorize_headers_keeps_policy:
  "ja_config (snd (authorize_headers env headers ja)) = ja_config ja \<and>
   ja_algorithms (snd (authorize_headers env headers ja)) = ja_algorithms ja"
  using authorize_token_keeps_policy
  by (auto simp: authorize_headers_def simp del: split_once_Some split: option.split)

lemma authorize_bearer_policy:
  "authorizer_policy (snd (authorize_bearer env headers au)) = authorizer_policy au"
  using authorize_headers_keeps_policy [of env headers]
  by (auto simp: authorize_bearer_def authorizer_policy_def split: option.split prod.split)
    (metis snd_conv)+

lemma authorize_policy: "authorizer_policy (snd (authorize env meth u headers au)) = authorizer_policy au"
  by (auto simp: authorize_def authorize_bearer_policy split: option.split sum.split)

interpretation guard: request_guard
    "\<lambda>(env, meth, u, headers) au. authorize env meth u headers au"
    "\<lambda>(env, meth, u, headers) au. handles_endpoint au (uri_path u)" authorizer_policy
proof
  show "\<not> (case r of (env, meth, u, headers) \<Rightarrow> \<lambda>au. handles_endpoint au (uri_path u)) g"
    if "(case r of (env, meth, u, headers) \<Rightarrow> \<lambda>au. authorize env meth u headers au) g = (Allow i, g')"
    for r g i g'
    using that by (cases r) (auto elim: authorize_cases)
  show "authorizer_policy (snd ((case r of (env, meth, u, headers) \<Rightarrow> \<lambda>au. authorize env meth u headers au) g)) =
      authorizer_policy g" for r g
    by (cases r) (simp add: authorize_policy)
qed (simp add: handles_endpoint_def authorizer_policy_def split: prod.split)

section \<open>Properties\<close>

text \<open>C4: authorization is fail-closed. A request is let through only with a credential that was
  verified. Either its bearer token names a key of the set that the authorizer holds, which it
  held before or has just fetched from the provider and stored, and which is young enough; the
  key is a signing key for the token's algorithm, which is in the allowlist; the token was decoded
  with it for the configured issuer and audiences; its roles were accepted; and the identity is
  that of its claims. Or, without any \<^verbatim>\<open>Authorization\<close> header, its session cookie was opened with
  the cookie key and has not expired. The reserved login endpoints are never let through.\<close>

theorem authorize_fail_closed:
  assumes "authorize env meth u headers au = (Allow identity, au')"
  shows "\<not> handles_endpoint au (uri_path u) \<and>
    (if hcontains ''authorization'' headers
     then \<exists>ja ja' raw scheme token claims. au_bearer au = Some ja \<and> au' = au\<lparr>au_bearer := Some ja'\<rparr> \<and>
       hget ''authorization'' headers = Some raw \<and>
       trim raw = scheme @ '' '' @ token \<and> eq_ignore_ascii_case scheme ''Bearer'' \<and>
       keys_current env ja (ja_keys ja') \<and> token_accepted env ja (ja_keys ja') (trim token) claims \<and>
       identity = (case identity_from_claims claims (az_roles_claim (au_config au)) of Inr i \<Rightarrow> Some i | Inl _ \<Rightarrow> None)
     else \<exists>oz raw v i. au_oidc au = Some oz \<and> au' = au \<and> identity = Some i \<and>
       request_cookie (en_header_text env) headers (oz_session_cookie oz) = Some raw \<and>
       cookie_opens env oz (oz_session_cookie oz) raw v \<and>
       de_authenticated_identity v = Inr i \<and> en_unix_now env < ai_expires_unix i)"
  using assms
proof (cases rule: authorize_cases)
  case (bearer ja ja' claims)
  from bearer(2) obtain raw scheme token where "hget ''authorization'' headers = Some raw"
    "split_once (CHR '' '') (trim raw) = Some (scheme, token)" "eq_ignore_ascii_case scheme ''Bearer''"
    "token_accepted env ja (ja_keys ja') (trim token) claims" "keys_current env ja (ja_keys ja')"
    by (rule authorize_headers_accepted)
  then have "hget ''authorization'' headers = Some raw \<and> trim raw = scheme @ '' '' @ token \<and>
      eq_ignore_ascii_case scheme ''Bearer'' \<and> keys_current env ja (ja_keys ja') \<and>
      token_accepted env ja (ja_keys ja') (trim token) claims"
    by simp
  with bearer show ?thesis by auto
next
  case (session oz i)
  from session(3) show ?thesis
    by (rule oidc_session_valid) (use session in auto)
qed

text \<open>A policy, an environment and an authorizer for the witnesses.\<close>

definition example_policy :: client_authorization_config where
  "example_policy =
     \<lparr>az_bearer = Some True, az_oidc = Some True, az_issuer = ''i'', az_audiences = [''u''],
      az_jwks_uri = Some ''k'', az_jwks_cache_file = default_jwks_cache_file,
      az_roles_claim = ''groups'', az_required_roles = [''admin''], az_forward_authorization = True,
      az_role_match = Any, az_algorithms = default_jwt_algorithms,
      az_leeway_seconds = default_jwt_leeway_seconds,
      az_jwks_refresh_seconds = default_jwks_refresh_seconds,
      az_jwks_max_stale_seconds = default_jwks_max_stale_seconds,
      az_header_timeout_ms = default_auth_header_timeout_ms,
      az_max_header_bytes = default_auth_max_header_bytes, az_oidc_client_id = Some ''c'',
      az_oidc_client_secret_file = None, az_oidc_scopes = default_browser_oidc_scopes,
      az_oidc_callback_path = default_oidc_callback_path,
      az_oidc_logout_path = default_oidc_logout_path,
      az_oidc_session_key_file = default_oidc_session_key_file,
      az_oidc_session_ttl_seconds = default_oidc_session_ttl_seconds\<rparr>"

definition example_identity :: authenticated_identity where
  "example_identity = \<lparr>ai_subject = ''s'', ai_username = ''n'', ai_name = None, ai_email = None,
     ai_groups = [''admin''], ai_expires_unix = 100\<rparr>"

definition example_key :: jwk where
  "example_key = \<lparr>jwk_kid = Some ''1'', jwk_use_signature = None, jwk_algorithm = None, jwk_material = []\<rparr>"

definition example_claims :: sval where
  "example_claims = SMap [(''sub'', SStr ''s''), (''groups'', SSeq [SStr ''admin''])]"

definition example_env :: auth_env where
  "example_env =
     \<lparr>en_now = 0, en_instant = 0, en_error_text = (\<lambda>_. ''e''), en_http_client = Inr (), en_unix_now = 0,
      en_get_discovery = (\<lambda>_. Send_failed []), en_get_jwks = (\<lambda>_. Fetched [example_key]),
      en_persist_jwks = (\<lambda>_ _. Inr ()), en_decode_header = (\<lambda>_. Inr (RS256, Some ''1'')),
      en_decode = (\<lambda>_ _ _. Inr example_claims), en_key_usable = (\<lambda>_. True),
      en_header_ok = (\<lambda>_. True), en_header_text = (\<lambda>_. True), en_to_json = (\<lambda>_. Inr ''j''),
      en_b64url_encode = (\<lambda>b. b), en_encrypt = (\<lambda>_ _ v. v), en_decrypt = (\<lambda>_ _ v. Some v),
      en_cookie_text = (\<lambda>c. ck_name c @ ''='' @ ck_value c @ '';''),
      en_url_ok = (\<lambda>_. True), en_begin_login = (\<lambda>_ _. (''u'', ''s'', ''n'', ''v'')), en_form_parse = (\<lambda>_. []),
      en_exchange = (\<lambda>_ _ _. Inl []), en_verify_id_token = (\<lambda>_ _ _. Inl []),
      en_access_token_hash = (\<lambda>_ _ _. Inl []), en_b64url_decode = Inr,
      en_from_json = (\<lambda>_. Inr (ser_authenticated_identity example_identity))\<rparr>"

definition example_jwt :: jwt_authorizer where
  "example_jwt = \<lparr>ja_config = example_policy, ja_algorithms = [RS256],
     ja_keys = \<lparr>ks_set = [example_key], ks_obtained_at = 0\<rparr>, ja_last_attempt = 0\<rparr>"

definition example_oidc :: oidc_authorizer where
  "example_oidc = \<lparr>oz_config = example_policy, oz_hostname = ''h'', oz_client_secret = None,
     oz_cookie_key = [], oz_flow_cookie = ''f'', oz_session_cookie = ''s''\<rparr>"

definition example_authorizer :: authorizer where
  "example_authorizer = \<lparr>au_config = example_policy, au_bearer = Some example_jwt, au_oidc = Some example_oidc\<rparr>"

definition example_uri :: uri where
  "example_uri = \<lparr>uri_path = ''/x'', uri_query = None, uri_path_and_query = Some ''/x''\<rparr>"

lemmas example_auth_defs = example_env_def example_authorizer_def example_jwt_def example_oidc_def
  example_policy_def example_uri_def example_identity_def

lemma trim_cookie: "trim ''s=1'' = ''s=1''"
  by (rule trim_id) (simp_all add: in_range_def byte_val_def)

lemma example_bearer:
  "authorize_headers example_env [(''authorization'', ''Bearer t'')] example_jwt = (Inr example_claims, example_jwt)"
proof -
  have t: "trim ''Bearer t'' = ''Bearer t''" "trim ''t'' = ''t''"
    by (rule trim_id; simp add: in_range_def byte_val_def)+
  have r: "refresh_if_due example_env False example_jwt = (Inr (), example_jwt)"
    by (simp add: refresh_if_due_def from_secs_def example_auth_defs default_jwks_refresh_seconds_def)
  have k: "key_for example_env example_jwt ''1'' RS256 = Inr example_key"
    by (simp add: key_for_def ensure_cache_age_def example_auth_defs example_key_def)
  have "check_token example_env example_jwt ''t'' RS256 example_key = Inr example_claims"
    by (simp add: check_token_def validate_roles_def example_auth_defs example_claims_def
        claim_strings_def denied_def)
  moreover have "en_decode_header example_env ''t'' = Inr (RS256, Some ''1'')"
    "en_header_text example_env raw" "ja_algorithms example_jwt = [RS256]"
    "eq_ignore_ascii_case ''Bearer'' ''Bearer''" for raw
    by (simp_all add: example_env_def example_jwt_def)
  ultimately show ?thesis
    by (simp add: authorize_headers_def authorize_token_def hget_def t r k denied_def)
qed

theorem authorize_fail_closed_witness:
  "\<exists>i token claims. authorize example_env ''GET'' example_uri [(''authorization'', ''Bearer t'')] example_authorizer =
       (Allow i, example_authorizer) \<and> token_accepted example_env example_jwt (ja_keys example_jwt) token claims \<and>
     authorize example_env ''GET'' example_uri [(''cookie'', ''s=1'')] example_authorizer =
       (Allow (Some example_identity), example_authorizer) \<and>
     \<not> handles_endpoint example_authorizer (uri_path example_uri)"
proof -
  have path: "uri_path example_uri = ''/x''" "au_config example_authorizer = example_policy"
    "au_bearer example_authorizer = Some example_jwt" "au_oidc example_authorizer = Some example_oidc"
    "az_oidc_callback_path example_policy \<noteq> ''/x''" "az_oidc_logout_path example_policy \<noteq> ''/x''"
    by (simp_all add: example_authorizer_def example_uri_def example_policy_def
        default_oidc_callback_path_def default_oidc_logout_path_def)
  have same: "example_authorizer = example_authorizer\<lparr>au_bearer := Some ja\<rparr> \<longleftrightarrow> ja = example_jwt" for ja
    by (auto simp: example_authorizer_def)
  have header: "hcontains ''authorization'' [(''authorization'', ''Bearer t'')]" by (simp add: hcontains_def)
  obtain i where b: "authorize example_env ''GET'' example_uri [(''authorization'', ''Bearer t'')] example_authorizer =
      (Allow i, example_authorizer)"
    using path header by (auto simp: authorize_def authorize_bearer_def example_bearer same)
  obtain ja token claims where "au_bearer example_authorizer = Some ja" "token_accepted example_env ja (ja_keys example_jwt) token claims"
    using authorize_fail_closed [OF b] unfolding if_P [OF header] same by blast
  then have token: "token_accepted example_env example_jwt (ja_keys example_jwt) token claims" using path by simp
  have c: "request_cookie (\<lambda>_. True) [(''cookie'', ''s=1'')] ''s'' = Some ''1''"
    by (simp add: request_cookie_def hget_all_def trim_cookie)
  have "oidc_session example_env example_oidc [(''cookie'', ''s=1'')] = Inr (Some example_identity)"
    by (simp add: oidc_session_def decrypt_cookie_def c example_auth_defs
        flip: example_identity_def) (simp add: example_identity_def)
  then have "authorize example_env ''GET'' example_uri [(''cookie'', ''s=1'')] example_authorizer =
     (Allow (Some example_identity), example_authorizer)"
    using path by (simp add: authorize_def hcontains_def)
  with b token authorize_fail_closed [OF this] show ?thesis by blast
qed

text \<open>C25: bearer tokens carry the configured roles. Claims are returned only when they hold one
  (or, with \<^verbatim>\<open>all\<close>, every one) of the required roles at the configured claim path, and only
  from a decoding that was told to check the configured issuer and audiences.\<close>

theorem bearer_roles_enforced:
  assumes "authorize_headers env headers ja = (Inr claims, ja')" "az_required_roles (ja_config ja) \<noteq> []"
  shows "\<exists>roles token key validation. claim_strings claims (az_roles_claim (ja_config ja)) = Inr roles \<and>
    (case az_role_match (ja_config ja) of
       Any \<Rightarrow> set (az_required_roles (ja_config ja)) \<inter> set roles \<noteq> {}
     | All \<Rightarrow> set (az_required_roles (ja_config ja)) \<subseteq> set roles) \<and>
    en_decode env token key validation = Inr claims \<and>
    va_issuer validation = [az_issuer (ja_config ja)] \<and>
    va_audience validation = az_audiences (ja_config ja) \<and> va_algorithm validation \<in> set (ja_algorithms ja)"
proof -
  from assms(1) obtain token where "token_accepted env ja (ja_keys ja') (trim token) claims"
    by (rule authorize_headers_accepted)
  then obtain alg key where a: "alg \<in> set (ja_algorithms ja)"
    "en_decode env (trim token) key (token_validation (ja_config ja) alg) = Inr claims"
    "validate_roles claims (ja_config ja) = Inr ()"
    by (auto simp: token_accepted_def)
  then obtain roles where r: "claim_strings claims (az_roles_claim (ja_config ja)) = Inr roles"
    "case az_role_match (ja_config ja) of
       Any \<Rightarrow> set (az_required_roles (ja_config ja)) \<inter> set roles \<noteq> {}
     | All \<Rightarrow> set (az_required_roles (ja_config ja)) \<subseteq> set roles"
    using assms(2) by (auto simp: validate_roles_Inr)
  show ?thesis
    by (rule exI [of _ roles], rule exI [of _ "trim token"], rule exI [of _ key],
        rule exI [of _ "token_validation (ja_config ja) alg"])
      (use a r in \<open>simp add: token_validation_def\<close>)
qed

theorem bearer_roles_enforced_witness:
  "\<exists>roles. claim_strings example_claims ''groups'' = Inr roles \<and> set [''admin''] \<inter> set roles \<noteq> {}"
  using bearer_roles_enforced [OF example_bearer] by (auto simp: example_jwt_def example_policy_def)

text \<open>C26: symmetric algorithms are impossible. A loaded bearer authorizer has a non-empty allowlist
  without HMAC algorithms, so a public key can never be used as a shared secret, and no
  request changes the allowlist or the policy.\<close>

theorem allowlist_asymmetric:
  assumes "jwt_load env from_str expand_home modified contents config = Inr ja"
  shows "ja_algorithms ja \<noteq> [] \<and> set (ja_algorithms ja) \<inter> {HS256, HS384, HS512} = {} \<and>
    ja_algorithms (snd (authorize_token env' token ja)) = ja_algorithms ja \<and>
    ja_config (snd (authorize_token env' token ja)) = ja_config ja \<and> ks_set (ja_keys ja) \<noteq> []"
proof -
  have algs: "collect_res (parse_algorithm from_str) (az_algorithms config) = Inr (ja_algorithms ja)"
    "ja_algorithms ja \<noteq> []"
    using assms by (auto simp: jwt_load_def Let_def res_simps)
  have "a \<notin> {HS256, HS384, HS512}" if "a \<in> set (ja_algorithms ja)" for a
    using algs(1) that
    by (auto simp: collect_res_Inr_iff list_all2_conv_all_nth in_set_conv_nth parse_algorithm_def res_simps)
  moreover have "ks_set (ja_keys ja) \<noteq> []"
  proof -
    have fetched: "keys \<noteq> []" if "fetch_jwks env c = Inr keys" for c keys
      using that by (auto simp: fetch_jwks_def res_simps)
    have cached: "ks_set st \<noteq> []" if "load_cached_jwks now modified contents c = Inr st" for now c st
      using that by (auto simp: load_cached_jwks_def res_simps)
    obtain c where "(case fetch_jwks env c of
        Inr keys \<Rightarrow> and_then (en_persist_jwks env (az_jwks_cache_file c) keys) (\<lambda>_. Inr \<lparr>ks_set = keys, ks_obtained_at = en_now env\<rparr>)
      | Inl remote_error \<Rightarrow> add_context (''identity provider unavailable ('' @ en_error_text env remote_error @
            '') and JWKS cache is unusable'') (load_cached_jwks (en_now env) modified contents c)) = Inr (ja_keys ja)"
      using assms by (auto simp: jwt_load_def Let_def and_then_eq_Inr)
    then show ?thesis
      by (cases "fetch_jwks env c")
        (auto simp: res_simps dest: fetched cached dest!: arg_cong [of _ _ ks_set])
  qed
  ultimately show ?thesis using algs(2) authorize_token_keeps_policy by blast
qed

theorem allowlist_asymmetric_witness:
  "\<exists>ja. jwt_load example_env (\<lambda>_. Some RS256) Inr (\<lambda>_. Inl []) (\<lambda>_. Inl []) example_policy = Inr ja \<and>
     set (ja_algorithms ja) \<inter> {HS256, HS384, HS512} = {}"
proof -
  obtain ja where "jwt_load example_env (\<lambda>_. Some RS256) Inr (\<lambda>_. Inl []) (\<lambda>_. Inl []) example_policy = Inr ja"
    by (simp add: jwt_load_def Let_def parse_algorithm_def fetch_jwks_def example_env_def
        example_policy_def default_jwt_algorithms_def)
  with allowlist_asymmetric [OF this] show ?thesis by blast
qed

text \<open>C27: stale keys are refused. When the identity provider cannot be reached and the cached keys
  are older than the configured limit, every token is refused, whatever it says.\<close>

theorem stale_keys_refused:
  assumes "fetch_jwks env (ja_config ja) = Inl e" "az_jwks_max_stale_seconds (ja_config ja) \<noteq> 0"
    "from_secs (az_jwks_max_stale_seconds (ja_config ja)) < en_now env - ks_obtained_at (ja_keys ja)"
  shows "\<exists>d ja'. authorize_token env token ja = (Inl (Unauthorized d), ja')"
proof -
  obtain r1 ja1 where r1: "refresh_if_due env False ja = (r1, ja1)" by force
  note s1 = stale_refresh [OF assms(1) r1]
  obtain r2 ja2 where r2: "refresh_if_due env True ja1 = (r2, ja2)" by force
  have s2: "ja_keys ja2 = ja_keys ja1" "ja_config ja2 = ja_config ja1"
    using stale_refresh [of env ja1 e True r2 ja2] assms(1) s1 r2 by simp_all
  have k1: "key_for env ja1 kid alg = Inl [Msg ''cached JWKS exceeds jwks_max_stale_seconds'']"
    and k2: "key_for env ja2 kid alg = Inl [Msg ''cached JWKS exceeds jwks_max_stale_seconds'']" for kid alg
    using assms(2,3) s1 s2 by (simp_all add: stale_key_for)
  show ?thesis
    unfolding authorize_token_def r1 prod.case
    by (cases r1; cases r2; cases "en_decode_header env token")
      (simp_all add: denied_def k1 k2 r2 split: prod.split option.split)
qed

theorem stale_keys_refused_witness:
  "\<exists>d ja'. authorize_token (example_env\<lparr>en_now := 604801 * 1000000000, en_get_jwks := (\<lambda>_. Send_failed [])\<rparr>) ''t'' example_jwt =
     (Inl (Unauthorized d), ja')"
  by (rule stale_keys_refused [of _ _ "[Msg ''fetch JWKS'']"])
    (simp_all add: fetch_jwks_def from_secs_def example_auth_defs default_jwks_max_stale_seconds_def)

text \<open>An identity built from claims cannot break out of a header: none of its parts contains a
  carriage return or a line feed, its groups are sorted, and its user name is one of the
  name claims, the e-mail address or the subject.\<close>

theorem identity_single_line:
  assumes "identity_from_claims claims roles_claim = Inr i"
  shows "(\<forall>v\<in>{ai_subject i, ai_username i} \<union> set_option (ai_name i) \<union> set_option (ai_email i) \<union> set (ai_groups i).
      \<not> has_newline v) \<and> sorted (ai_groups i) \<and>
    Some (ai_username i) \<in> {str_claim ''preferred_username'' claims, str_claim ''name'' claims,
      str_claim ''email'' claims, str_claim ''sub'' claims}"
  using assms
  by (cases "str_claim ''preferred_username'' claims"; cases "str_claim ''name'' claims";
      cases "str_claim ''email'' claims")
    (auto simp: identity_from_claims_def Let_def res_simps split: option.splits)

theorem identity_single_line_witness:
  "\<exists>i. identity_from_claims example_claims ''groups'' = Inr i \<and> \<not> has_newline (ai_username i)"
proof -
  obtain i where "identity_from_claims example_claims ''groups'' = Inr i"
    by (simp add: identity_from_claims_def example_claims_def str_claim_def identity_groups_def
        claim_strings_def Let_def has_newline_def)
  with identity_single_line [OF this] show ?thesis by blast
qed

text \<open>The place a login returns to is a path of at most 1024 bytes that starts with one slash,
  whatever was requested.\<close>

theorem return_to_bounded:
  "\<exists>rest. safe_return_to u = ''/'' @ rest \<and> (\<forall>r. rest \<noteq> ''/'' @ r) \<and> length (safe_return_to u) \<le> 1024"
  by (auto simp: safe_return_to_def Let_def starts_with_iff)

text \<open>A request target of a slash and a backslash is returned to as it is, although browsers read
  it as a network location on another host.\<close>

theorem return_to_backslash:
  "safe_return_to (example_uri\<lparr>uri_path_and_query := Some (''/'' @ [CHR 0x5C] @ ''attacker.example'')\<rparr>) =
   ''/'' @ [CHR 0x5C] @ ''attacker.example''"
  by (simp add: safe_return_to_def example_uri_def starts_with_iff)

text \<open>A browser session is not bound to the policy it was issued under. Two policies of one host that
  agree on issuer, OIDC client and key file accept the same session cookies, whatever roles
  each of them requires. So a session obtained through a path without required roles opens a
  path that requires some, where the documentation promises a refusal.\<close>

lemma session_shared_between_policies:
  assumes "oidc_load http_client parse_issuer expand_home read_secret discover load_key namespace_of c1 hostname = Inr z1"
    "oidc_load http_client parse_issuer expand_home read_secret discover load_key namespace_of c2 hostname = Inr z2"
    "az_issuer c1 = az_issuer c2" "az_oidc_client_id c1 = az_oidc_client_id c2"
    "az_oidc_session_key_file c1 = az_oidc_session_key_file c2"
  shows "oidc_session env z1 headers = oidc_session env z2 headers"
proof -
  have same: "oz_cookie_key z1 = oz_cookie_key z2" "oz_session_cookie z1 = oz_session_cookie z2"
    using assms by (auto simp: oidc_load_def Let_def res_simps)
  show ?thesis unfolding oidc_session_def decrypt_cookie_def same ..
qed

end
