(* ===== verification/Http_Proxy.thy ===== *)
theory Http_Proxy
  imports Authorization Routing Net
begin

text \<open>
  The request-level HTTP proxy of the client (\<^verbatim>\<open>client/src/http_proxy.rs\<close>), with the selection of a
  running backend it relies on (\<^verbatim>\<open>client/src/lib.rs\<close>). A backend refers to its authorizer by its
  index in the list of loaded authorizers, because backends with the same policy share one
  authorizer and its keys. Bodies are passed through untouched and are not modelled. The
  parsing of request targets, the network and the backend are fields of \<open>proxy_env\<close>.
\<close>

section \<open>Running backends\<close>

record backend_runtime =
  be_rule :: backend_rule
  be_authorization :: "nat option"

definition matches_hostname :: "backend_runtime \<Rightarrow> string option \<Rightarrow> bool" where
  "matches_hostname rt hostname = matches_pattern (br_pattern (be_rule rt)) hostname"

definition select_runtime_for_path ::
    "backend_runtime list \<Rightarrow> string option \<Rightarrow> string \<Rightarrow> backend_runtime option" where
  "select_runtime_for_path rules hostname path =
     or_else
       (max_by_key (\<lambda>rt. case br_path_prefix (be_rule rt) of None \<Rightarrow> 0 | Some p \<Rightarrow> length p)
         (filter (\<lambda>rt. matches_hostname rt hostname \<and>
             is_some_and (\<lambda>p. matches_path_prefix p path) (br_path_prefix (be_rule rt))) rules))
       (find (\<lambda>rt. matches_hostname rt hostname \<and> br_path_prefix (be_rule rt) = None) rules)"

definition protocol_allowed :: "bool \<Rightarrow> bool \<Rightarrow> bool" where
  "protocol_allowed http tcp_passthrough \<longleftrightarrow> http \<or> tcp_passthrough"

interpretation runtimes: path_selector "\<lambda>rules path. select_runtime_for_path rules hostname path"
    "\<lambda>rt. matches_hostname rt hostname" "\<lambda>rt. br_path_prefix (be_rule rt)" for hostname
  by (rule longest_prefix_selector) (simp add: select_runtime_for_path_def conj_commute)

text \<open>Selecting a running backend is selecting its rule.\<close>

lemma find_of_map: "find P (map f xs) = map_option f (find (\<lambda>x. P (f x)) xs)"
  by (induction xs) simp_all

lemma map_option_or_else: "map_option f (or_else a b) = or_else (map_option f a) (map_option f b)"
  by (cases a) simp_all

lemma select_runtime_rule:
  "map_option be_rule (select_runtime_for_path rules hostname path) =
   select_backend_for_path (map be_rule rules) hostname path"
  by (simp add: select_runtime_for_path_def select_backend_for_path_def matches_hostname_def
      map_option_or_else max_by_key_map find_of_map filter_map comp_def conj_commute)

section \<open>Requests\<close>

record http_request =
  rq_method :: string
  rq_uri :: uri
  rq_headers :: header_map

text \<open>The outside world of the proxy: the authorization layer's, the parser of request targets, and
  the backend's answers to connecting, to the HTTP handshake and to a request.\<close>

record proxy_env =
  px_auth :: auth_env
  px_uri_from_str :: "string \<Rightarrow> uri res"
  px_connect :: "string \<Rightarrow> unit res poll"
  px_handshake :: "string \<Rightarrow> unit res"
  px_send :: "string \<Rightarrow> http_request \<Rightarrow> http_response res"

datatype request_action = Respond_with http_response | Forward backend_runtime http_request

definition IDENTITY_HEADERS :: "string list" where
  "IDENTITY_HEADERS =
     [''x-forwarded-user'', ''x-forwarded-email'', ''x-forwarded-groups'', ''x-auth-request-user'',
      ''x-auth-request-email'', ''x-auth-request-groups'', ''x-auth-request-preferred-username'',
      ''x-authentik-uid'', ''x-authentik-username'', ''x-authentik-name'', ''x-authentik-email'',
      ''x-authentik-groups'']"

text \<open>The headers the proxy itself sets for forwarded requests.\<close>

definition FORWARDING_HEADERS :: "string list" where
  "FORWARDING_HEADERS = [''forwarded'', ''x-forwarded-for'', ''x-forwarded-proto'', ''x-forwarded-host'']"

text \<open>\<^verbatim>\<open>HeaderValue::from_str\<close>\<close>

definition header_value :: "(bytes \<Rightarrow> bool) \<Rightarrow> bytes \<Rightarrow> bytes res" where
  "header_value header_ok v = (if header_ok v then Inr v else Inl [Ext_cause ''InvalidHeaderValue''])"

definition set_header :: "(bytes \<Rightarrow> bool) \<Rightarrow> string \<Rightarrow> bytes \<Rightarrow> header_map \<Rightarrow> header_map res" where
  "set_header header_ok name v h =
     and_then (add_context (''invalid '' @ name @ '' value'') (header_value header_ok v)) (\<lambda>v.
       Inr (hinsert name v h))"

text \<open>A straight-line sequence of \<^verbatim>\<open>set_header(...)?\<close> calls.\<close>

fun set_headers :: "(bytes \<Rightarrow> bool) \<Rightarrow> (string \<times> bytes) list \<Rightarrow> header_map \<Rightarrow> header_map res" where
  "set_headers header_ok [] h = Inr h"
| "set_headers header_ok ((name, v) # rest) h =
     and_then (set_header header_ok name v h) (set_headers header_ok rest)"

definition identity_headers :: "authenticated_identity \<Rightarrow> (string \<times> bytes) list" where
  "identity_headers identity =
     [(''x-forwarded-user'', ai_username identity),
      (''x-auth-request-user'', ai_username identity),
      (''x-auth-request-preferred-username'', ai_username identity),
      (''x-authentik-uid'', ai_subject identity),
      (''x-authentik-username'', ai_username identity),
      (''x-authentik-name'', unwrap_or (ai_username identity) (ai_name identity))] @
     (case ai_email identity of
        None \<Rightarrow> []
      | Some email \<Rightarrow> [(''x-forwarded-email'', email), (''x-auth-request-email'', email),
          (''x-authentik-email'', email)]) @
     (if ai_groups identity = [] then []
      else [(''x-forwarded-groups'', join_with '','' (ai_groups identity)),
            (''x-auth-request-groups'', join_with '','' (ai_groups identity)),
            (''x-authentik-groups'', join_with ''|'' (ai_groups identity))])"

definition strip_uri_prefix :: "(string \<Rightarrow> uri res) \<Rightarrow> uri \<Rightarrow> string \<Rightarrow> uri res" where
  "strip_uri_prefix uri_from_str u p =
     (let p = trim_end_matches (CHR ''/'') p in
      and_then (opt_context ''HTTP request path does not match configured prefix''
        (opt_filter (\<lambda>v. v = [] \<or> starts_with ''/'' v) (strip_prefix p (uri_path u)))) (\<lambda>remainder.
      let rewritten = (if remainder = [] then ''/'' else remainder);
          path_and_query = (case uri_query u of
              Some query \<Rightarrow> rewritten @ ''?'' @ query
            | None \<Rightarrow> rewritten) in
      add_context ''construct rewritten request URI'' (uri_from_str path_and_query)))"

text \<open>The block of \<^verbatim>\<open>prepare_request\<close> under \<^verbatim>\<open>proxy_headers\<close>.\<close>

definition forwarding_headers ::
    "(bytes \<Rightarrow> bool) \<Rightarrow> string option \<Rightarrow> string \<Rightarrow> bytes \<Rightarrow> header_map \<Rightarrow> header_map res" where
  "forwarding_headers header_ok client_ip scheme original_host h =
     (let h = fold hremove FORWARDING_HEADERS h in
      and_then (case opt_filter (\<lambda>v. \<not> blank v) client_ip of
          None \<Rightarrow> Inr h
        | Some client_ip \<Rightarrow> set_header header_ok ''x-forwarded-for'' client_ip h) (\<lambda>h.
      and_then (add_context ''invalid forwarded scheme'' (header_value header_ok scheme)) (\<lambda>scheme.
      let h = hinsert ''x-forwarded-host'' original_host (hinsert ''x-forwarded-proto'' scheme h) in
      Inr (if hcontains ''accept-encoding'' h then h else hinsert ''accept-encoding'' ''gzip'' h))))"

definition prepare_request ::
    "proxy_env \<Rightarrow> backend_runtime \<Rightarrow> string option \<Rightarrow> string \<Rightarrow> authenticated_identity option \<Rightarrow>
     http_request \<Rightarrow> http_request res" where
  "prepare_request px backend client_ip scheme identity request =
     (let header_ok = en_header_ok (px_auth px) in
      and_then (opt_context ''HTTP request must contain a Host header''
        (hget ''host'' (rq_headers request))) (\<lambda>original_host.
      let h = fold hremove IDENTITY_HEADERS (rq_headers request) in
      and_then (case identity of
          None \<Rightarrow> Inr h | Some identity \<Rightarrow> set_headers header_ok (identity_headers identity) h) (\<lambda>h.
      and_then (if br_strip_path_prefix (be_rule backend) then
          and_then (opt_context ''missing path_prefix'' (br_path_prefix (be_rule backend)))
            (strip_uri_prefix (px_uri_from_str px) (rq_uri request))
        else Inr (rq_uri request)) (\<lambda>u.
      and_then (if br_proxy_headers (be_rule backend)
        then forwarding_headers header_ok client_ip scheme original_host h else Inr h) (\<lambda>h.
      and_then (case br_backend_host (be_rule backend) of
          None \<Rightarrow> Inr h
        | Some host \<Rightarrow>
            and_then (add_context ''invalid backend Host header'' (header_value header_ok host)) (\<lambda>host.
              Inr (hinsert ''host'' host h))) (\<lambda>h.
      Inr (request\<lparr>rq_uri := u, rq_headers := h\<rparr>)))))))"

definition canonical_prefix_redirect ::
    "(bytes \<Rightarrow> bool) \<Rightarrow> uri \<Rightarrow> backend_runtime \<Rightarrow> http_response option res" where
  "canonical_prefix_redirect header_ok u backend =
     (if \<not> br_strip_path_prefix (be_rule backend) then Inr None
      else and_then (opt_context ''missing path_prefix'' (br_path_prefix (be_rule backend))) (\<lambda>p.
      let p = trim_end_matches (CHR ''/'') p in
      if p = [] \<or> p = ''/'' \<or> uri_path u \<noteq> p then Inr None
      else
        let location = (case uri_query u of Some query \<Rightarrow> p @ ''/?'' @ query | None \<Rightarrow> p @ ''/'') in
        and_then (add_context ''invalid canonical path redirect'' (header_value header_ok location)) (\<lambda>location.
          Inr (Some \<lparr>resp_status = 308, resp_headers = hinsert ''location'' location [], resp_body = []\<rparr>))))"

section \<open>The proxy\<close>

text \<open>The limits of the HTTP server: bytes of a request head, and milliseconds for sending it.\<close>

definition proxy_request_limits :: "authorizer list \<Rightarrow> backend_runtime list \<Rightarrow> usize \<times> u64" where
  "proxy_request_limits store backends =
     fold (\<lambda>k (maximum, header_timeout).
         case authorizer_request_limits (store ! k) of (policy_maximum, policy_timeout) \<Rightarrow>
           (min maximum policy_maximum, min header_timeout policy_timeout))
       (filter_map be_authorization backends) (32 * 1024, 5000)"

text \<open>The end of \<^verbatim>\<open>handle_request_inner\<close>, once the request is let through.\<close>

definition finish_request ::
    "proxy_env \<Rightarrow> backend_runtime \<Rightarrow> string option \<Rightarrow> string \<Rightarrow> authenticated_identity option \<Rightarrow>
     http_request \<Rightarrow> request_action res" where
  "finish_request px backend client_ip scheme identity request =
     and_then (canonical_prefix_redirect (en_header_ok (px_auth px)) (rq_uri request) backend) (\<lambda>redirect.
     case redirect of
       Some response \<Rightarrow> Inr (Respond_with response)
     | None \<Rightarrow> and_then (prepare_request px backend client_ip scheme identity request) (\<lambda>request.
         Inr (Forward backend request)))"

definition authorize_request ::
    "proxy_env \<Rightarrow> http_request \<Rightarrow> nat \<Rightarrow> authorizer list \<Rightarrow> authorization_decision \<times> authorizer list" where
  "authorize_request px request k store =
     (case authorize (px_auth px) (rq_method request) (rq_uri request) (rq_headers request) (store ! k) of
        (decision, au) \<Rightarrow> (decision, store[k := au]))"

definition handle_request_inner ::
    "proxy_env \<Rightarrow> string \<Rightarrow> string option \<Rightarrow> string \<Rightarrow> backend_runtime list \<Rightarrow> http_request \<Rightarrow>
     authorizer list \<Rightarrow> request_action res \<times> authorizer list" where
  "handle_request_inner px hostname client_ip scheme backends request store =
     (let path = uri_path (rq_uri request) in
      case find (\<lambda>k. handles_endpoint (store ! k) path) (filter_map be_authorization backends) of
        Some k \<Rightarrow>
          (case authorize_request px request k store of
             (Respond response, store') \<Rightarrow> (Inr (Respond_with response), store')
           | (Allow _, store') \<Rightarrow> (bail ''OIDC endpoint was not handled'', store'))
      | None \<Rightarrow>
          (case select_runtime_for_path backends (Some hostname) path of
             None \<Rightarrow> (bail ''HTTP request has no matching backend'', store)
           | Some backend \<Rightarrow>
               (case be_authorization backend of
                  None \<Rightarrow> (finish_request px backend client_ip scheme None request, store)
                | Some k \<Rightarrow>
                    (case authorize_request px request k store of
                       (Respond response, store') \<Rightarrow> (Inr (Respond_with response), store')
                     | (Allow identity, store') \<Rightarrow>
                         let request = (if \<not> forward_authorization (store ! k)
                           then request\<lparr>rq_headers := hremove ''authorization'' (rq_headers request)\<rparr>
                           else request) in
                         (finish_request px backend client_ip scheme identity request, store')))))"

definition error_response :: "nat \<Rightarrow> string \<Rightarrow> http_response" where
  "error_response status message =
     \<lparr>resp_status = status, resp_headers = hinsert ''content-type'' ''application/json'' [],
      resp_body = ''{\"error\":\"'' @ message @ ''\"}'' @ [CHR 0x0A]\<rparr>"

text \<open>The response, the request the backend received, and whether an upgraded relay was started.\<close>

record forwarded =
  fw_response :: http_response
  fw_sent :: "(string \<times> http_request) option"
  fw_upgraded :: bool

definition answered :: "http_response \<Rightarrow> forwarded" where
  "answered response = \<lparr>fw_response = response, fw_sent = None, fw_upgraded = False\<rparr>"

definition forward_request :: "proxy_env \<Rightarrow> http_request \<Rightarrow> string \<Rightarrow> forwarded" where
  "forward_request px request backend_addr =
     (case px_connect px backend_addr of
        Pending \<Rightarrow> answered (error_response 504 ''backend timed out'')
      | Ready (Inl _) \<Rightarrow> answered (error_response 502 ''backend unavailable'')
      | Ready (Inr _) \<Rightarrow>
          (case px_handshake px backend_addr of
             Inl _ \<Rightarrow> answered (error_response 502 ''backend unavailable'')
           | Inr _ \<Rightarrow>
               let upgrading = hcontains ''upgrade'' (rq_headers request) in
               (case px_send px backend_addr request of
                  Inl _ \<Rightarrow> (answered (error_response 502 ''backend request failed''))
                    \<lparr>fw_sent := Some (backend_addr, request)\<rparr>
                | Inr response \<Rightarrow>
                    \<lparr>fw_response = response, fw_sent = Some (backend_addr, request),
                     fw_upgraded = (resp_status response = 101 \<and> upgrading)\<rparr>)))"

definition handle_http_request ::
    "proxy_env \<Rightarrow> string \<Rightarrow> string option \<Rightarrow> string \<Rightarrow> backend_runtime list \<Rightarrow> http_request \<Rightarrow>
     authorizer list \<Rightarrow> forwarded \<times> authorizer list" where
  "handle_http_request px hostname client_ip scheme backends request store =
     (case handle_request_inner px hostname client_ip scheme backends request store of
        (Inr (Respond_with response), store') \<Rightarrow> (answered response, store')
      | (Inr (Forward backend request), store') \<Rightarrow>
          (forward_request px request (resolved_http_backend_addr (be_rule backend)), store')
      | (Inl _, store') \<Rightarrow> (answered (error_response 502 ''bad gateway''), store'))"

text \<open>A connection: every request on it in turn, each in the world it arrives in. The size of the
  server's buffer and its header timeout come first.\<close>

fun serve_requests ::
    "string \<Rightarrow> string option \<Rightarrow> string \<Rightarrow> backend_runtime list \<Rightarrow> (proxy_env \<times> http_request) list \<Rightarrow>
     authorizer list \<Rightarrow> forwarded list \<times> authorizer list" where
  "serve_requests hostname client_ip scheme backends [] store = ([], store)"
| "serve_requests hostname client_ip scheme backends ((px, request) # requests) store =
     (case handle_http_request px hostname client_ip scheme backends request store of (response, store) \<Rightarrow>
      case serve_requests hostname client_ip scheme backends requests store of (responses, store) \<Rightarrow>
        (response # responses, store))"

definition serve ::
    "string \<Rightarrow> string option \<Rightarrow> string \<Rightarrow> backend_runtime list \<Rightarrow> (proxy_env \<times> http_request) list \<Rightarrow>
     authorizer list \<Rightarrow> (usize \<times> u64) \<times> forwarded list \<times> authorizer list" where
  "serve hostname client_ip scheme backends requests store =
     (case proxy_request_limits store backends of (maximum, header_timeout) \<Rightarrow>
       ((max maximum (8 * 1024), header_timeout),
        serve_requests hostname client_ip scheme backends requests store))"

section \<open>Lemmas\<close>

lemma header_value_eq_Inr [res_simps]: "header_value ok v = Inr w \<longleftrightarrow> ok v \<and> w = v"
  by (auto simp: header_value_def)

lemma set_header_eq_Inr [res_simps]: "set_header ok n v h = Inr h' \<longleftrightarrow> ok v \<and> h' = hinsert n v h"
  by (auto simp: set_header_def res_simps)

lemma set_headers_Inr:
  "set_headers ok ps h = Inr h' \<Longrightarrow> h' = fold (\<lambda>(n, v). hinsert n v) ps h"
  by (induction ok ps h rule: set_headers.induct) (auto simp: res_simps)

text \<open>What a backend must see under each identity header, given the verified identity.\<close>

definition identity_values :: "authenticated_identity option \<Rightarrow> string \<Rightarrow> bytes list" where
  "identity_values identity name = (case identity of
      None \<Rightarrow> []
    | Some i \<Rightarrow>
        if name \<in> {''x-forwarded-user'', ''x-auth-request-user'', ''x-auth-request-preferred-username'',
          ''x-authentik-username''} then [ai_username i]
        else if name = ''x-authentik-uid'' then [ai_subject i]
        else if name = ''x-authentik-name'' then [unwrap_or (ai_username i) (ai_name i)]
        else if name \<in> {''x-forwarded-email'', ''x-auth-request-email'', ''x-authentik-email''}
          then opt_list (ai_email i)
        else if ai_groups i = [] then []
        else if name = ''x-authentik-groups'' then [join_with ''|'' (ai_groups i)]
        else [join_with '','' (ai_groups i)])"

lemma identity_headers_values:
  "name \<in> set IDENTITY_HEADERS \<Longrightarrow>
     opt_list (map_of (rev (identity_headers i)) name) = identity_values (Some i) name"
  unfolding IDENTITY_HEADERS_def
  by (cases "ai_email i") (auto simp: identity_headers_def identity_values_def)

text \<open>The header map after the forwarding block.\<close>

lemma forwarding_headers_vals:
  assumes "forwarding_headers ok client_ip scheme host h = Inr h'"
  shows "hget_all n h' =
    (if n = ''forwarded'' then []
     else if n = ''x-forwarded-for'' then opt_list (opt_filter (\<lambda>v. \<not> blank v) client_ip)
     else if n = ''x-forwarded-proto'' then [scheme]
     else if n = ''x-forwarded-host'' then [host]
     else if n = ''accept-encoding'' \<and> hget_all n h = [] then [''gzip'']
     else hget_all n h)"
proof -
  let ?h = "fold hremove FORWARDING_HEADERS h"
  obtain h1 where h1: "(case opt_filter (\<lambda>v. \<not> blank v) client_ip of
      None \<Rightarrow> Inr ?h | Some ip \<Rightarrow> set_header ok ''x-forwarded-for'' ip ?h) = Inr h1"
    and h': "h' = (let h2 = hinsert ''x-forwarded-host'' host (hinsert ''x-forwarded-proto'' scheme h1) in
      if hcontains ''accept-encoding'' h2 then h2 else hinsert ''accept-encoding'' ''gzip'' h2)"
    using assms by (auto simp: forwarding_headers_def Let_def res_simps)
  have removed: "hget_all m ?h = (if m \<in> set FORWARDING_HEADERS then [] else hget_all m h)" for m
    by (rule headers.vals_remove_all)
  have "hget_all m h1 = (if m = ''x-forwarded-for'' then opt_list (opt_filter (\<lambda>v. \<not> blank v) client_ip)
      else hget_all m ?h)" for m
    using h1 removed [of "''x-forwarded-for''"] by (cases "opt_filter (\<lambda>v. \<not> blank v) client_ip")
      (simp_all add: res_simps hget_all_hinsert FORWARDING_HEADERS_def)
  note h1_vals = this [unfolded removed]
  show ?thesis
  proof (cases "n \<in> set FORWARDING_HEADERS \<union> {''accept-encoding''}")
    case True
    then consider "n = ''forwarded''" | "n = ''x-forwarded-for''" | "n = ''x-forwarded-proto''"
      | "n = ''x-forwarded-host''" | "n = ''accept-encoding''"
      unfolding FORWARDING_HEADERS_def by force
    then show ?thesis
      by cases (simp_all add: h' Let_def hget_all_hinsert hcontains_hget_all h1_vals FORWARDING_HEADERS_def)
  next
    case False
    then show ?thesis
      by (simp add: h' Let_def hget_all_hinsert hcontains_hget_all h1_vals FORWARDING_HEADERS_def)
  qed
qed

text \<open>The steps of a successful preparation.\<close>

lemma prepare_requestE:
  assumes "prepare_request px backend client_ip scheme identity request = Inr request'"
  obtains host h1 h2 u where "hget ''host'' (rq_headers request) = Some host"
    "\<And>n. hget_all n h1 = (if n \<in> set IDENTITY_HEADERS then identity_values identity n
       else hget_all n (rq_headers request))"
    "if br_proxy_headers (be_rule backend)
     then forwarding_headers (en_header_ok (px_auth px)) client_ip scheme host h1 = Inr h2 else h2 = h1"
    "request' = request\<lparr>rq_uri := u, rq_headers := (case br_backend_host (be_rule backend) of
       None \<Rightarrow> h2 | Some b \<Rightarrow> hinsert ''host'' b h2)\<rparr>"
    "if br_strip_path_prefix (be_rule backend)
     then \<exists>p. br_path_prefix (be_rule backend) = Some p \<and>
       strip_uri_prefix (px_uri_from_str px) (rq_uri request) p = Inr u
     else u = rq_uri request"
proof -
  let ?h = "fold hremove IDENTITY_HEADERS (rq_headers request)"
  let ?ok = "en_header_ok (px_auth px)"
  obtain host h1 u h2 h3 where s: "hget ''host'' (rq_headers request) = Some host"
    "(case identity of None \<Rightarrow> Inr ?h | Some i \<Rightarrow> set_headers ?ok (identity_headers i) ?h) = Inr h1"
    "(if br_strip_path_prefix (be_rule backend) then
        and_then (opt_context ''missing path_prefix'' (br_path_prefix (be_rule backend)))
          (strip_uri_prefix (px_uri_from_str px) (rq_uri request))
      else Inr (rq_uri request)) = Inr u"
    "(if br_proxy_headers (be_rule backend)
      then forwarding_headers ?ok client_ip scheme host h1 else Inr h1) = Inr h2"
    "(case br_backend_host (be_rule backend) of
        None \<Rightarrow> Inr h2
      | Some b \<Rightarrow> and_then (add_context ''invalid backend Host header'' (header_value ?ok b)) (\<lambda>b.
          Inr (hinsert ''host'' b h2))) = Inr h3"
    "request' = request\<lparr>rq_uri := u, rq_headers := h3\<rparr>"
    using assms unfolding prepare_request_def Let_def and_then_eq_Inr opt_context_eq_Inr by blast
  have v1: "hget_all n h1 = (if n \<in> set IDENTITY_HEADERS then identity_values identity n
       else hget_all n (rq_headers request))" for n
  proof (cases identity)
    case None
    with s(2) show ?thesis by (auto simp: headers.vals_remove_all identity_values_def)
  next
    case (Some i)
    with s(2) have h1: "h1 = fold (\<lambda>(n, v). hinsert n v) (identity_headers i) ?h"
      using set_headers_Inr by simp
    have keys: "fst ` set (identity_headers i) \<subseteq> set IDENTITY_HEADERS"
      by (cases "ai_email i") (auto simp: identity_headers_def IDENTITY_HEADERS_def)
    show ?thesis
    proof (cases "n \<in> set IDENTITY_HEADERS")
      case True
      then show ?thesis
        by (simp add: h1 Some headers.vals_replaced identity_headers_values)
    next
      case False
      with keys have "map_of (rev (identity_headers i)) n = None"
        by (auto simp: map_of_eq_None_iff)
      with False show ?thesis by (simp add: h1 headers.vals_put_all headers.vals_remove_all)
    qed
  qed
  from s(5) have "h3 = (case br_backend_host (be_rule backend) of None \<Rightarrow> h2 | Some b \<Rightarrow> hinsert ''host'' b h2)"
    by (auto simp: res_simps split: option.splits)
  with that [of host h1 h2 u] s v1 show thesis
    by (auto simp: res_simps split: if_splits)
qed

lemma prepare_request_identity:
  assumes "prepare_request px backend client_ip scheme identity request = Inr request'"
    "name \<in> set IDENTITY_HEADERS"
  shows "hget_all name (rq_headers request') = identity_values identity name"
  using assms(1)
proof (rule prepare_requestE)
  fix host h1 h2 u
  assume h1: "\<And>n. hget_all n h1 = (if n \<in> set IDENTITY_HEADERS then identity_values identity n
      else hget_all n (rq_headers request))"
    and h2: "if br_proxy_headers (be_rule backend)
      then forwarding_headers (en_header_ok (px_auth px)) client_ip scheme host h1 = Inr h2 else h2 = h1"
    and r: "request' = request\<lparr>rq_uri := u, rq_headers := (case br_backend_host (be_rule backend) of
      None \<Rightarrow> h2 | Some b \<Rightarrow> hinsert ''host'' b h2)\<rparr>"
  have other: "name \<notin> set FORWARDING_HEADERS" "name \<noteq> ''host''" "name \<noteq> ''accept-encoding''"
    using assms(2) by (auto simp: IDENTITY_HEADERS_def FORWARDING_HEADERS_def)
  have "hget_all name h2 = hget_all name h1"
    using h2 other forwarding_headers_vals [of _ client_ip scheme host h1 h2 name]
    by (auto simp: FORWARDING_HEADERS_def split: if_splits)
  with h1 [of name] assms(2) other show ?thesis
    by (simp add: r hget_all_hinsert split: option.split)
qed

lemma prepare_request_other:
  assumes "prepare_request px backend client_ip scheme identity request = Inr request'"
    "name \<notin> set IDENTITY_HEADERS" "name \<notin> set FORWARDING_HEADERS" "name \<noteq> ''host''" "name \<noteq> ''accept-encoding''"
  shows "hget_all name (rq_headers request') = hget_all name (rq_headers request)"
  using assms(1)
proof (rule prepare_requestE)
  fix host h1 h2 u
  assume h1: "\<And>n. hget_all n h1 = (if n \<in> set IDENTITY_HEADERS then identity_values identity n
      else hget_all n (rq_headers request))"
    and h2: "if br_proxy_headers (be_rule backend)
      then forwarding_headers (en_header_ok (px_auth px)) client_ip scheme host h1 = Inr h2 else h2 = h1"
    and r: "request' = request\<lparr>rq_uri := u, rq_headers := (case br_backend_host (be_rule backend) of
      None \<Rightarrow> h2 | Some b \<Rightarrow> hinsert ''host'' b h2)\<rparr>"
  have "hget_all name h2 = hget_all name h1"
    using h2 assms(3,5) forwarding_headers_vals [of _ client_ip scheme host h1 h2 name]
    by (auto simp: FORWARDING_HEADERS_def split: if_splits)
  with h1 [of name] assms(2,4) show ?thesis
    by (simp add: r hget_all_hinsert split: option.split)
qed

lemma authorize_request_policies:
  "map authorizer_policy (snd (authorize_request px request k store)) = map authorizer_policy store"
  using guard.store_policies [of store k
      "(px_auth px, rq_method request, rq_uri request, rq_headers request)"]
  by (simp add: authorize_request_def split: prod.split) (metis snd_conv)

lemma handle_request_inner_policies:
  "map authorizer_policy (snd (handle_request_inner px hostname client_ip scheme backends request store)) =
   map authorizer_policy store"
  using authorize_request_policies [of px request _ store]
  by (auto simp: handle_request_inner_def Let_def split: option.split prod.split authorization_decision.split)
    (metis snd_conv)+

lemma handle_http_request_policies:
  "handle_http_request px hostname client_ip scheme backends request store = (result, store') \<Longrightarrow>
   map authorizer_policy store' = map authorizer_policy store"
  using handle_request_inner_policies [of px hostname client_ip scheme backends request store]
  by (auto simp: handle_http_request_def split: prod.splits sum.splits request_action.splits)

lemma forward_request_sent: "fw_sent (forward_request px request addr) \<in> {None, Some (addr, request)}"
  by (auto simp: forward_request_def answered_def Let_def split: poll.split sum.split)

lemma handle_http_request_sent:
  assumes "handle_http_request px hostname client_ip scheme backends request store = (result, store')"
    "fw_sent result = Some (addr, sent)"
  obtains backend where
    "handle_request_inner px hostname client_ip scheme backends request store = (Inr (Forward backend sent), store')"
    "addr = resolved_http_backend_addr (be_rule backend)"
  using assms forward_request_sent
  by (auto simp: handle_http_request_def answered_def split: prod.splits sum.splits request_action.splits)
    (metis insertE option.distinct(1) option.inject prod.inject singletonD)+

lemma finish_request_Forward:
  assumes "finish_request px backend client_ip scheme identity request = Inr (Forward backend' sent)"
  shows "backend' = backend" "prepare_request px backend client_ip scheme identity request = Inr sent"
  using assms by (auto simp: finish_request_def res_simps split: option.splits)

lemma Min_insert_min:
  "finite S \<Longrightarrow> Min (insert (min a b) S) = Min (insert a (insert b S))"
  for a b :: "'a::linorder"
  by (cases "S = {}") (simp_all add: min.assoc)

lemma fold_min_pair:
  "fold (\<lambda>k (a, b). (min a (f k), min b (g k))) ks (a, b) =
     (Min (insert a (f ` set ks)), Min (insert b (g ` set ks)))"
  for f :: "'k \<Rightarrow> 'a::linorder" and g :: "'k \<Rightarrow> 'b::linorder"
  by (induction ks arbitrary: a b) (simp_all add: Min_insert_min)

lemma forward_authorized:
  assumes "handle_request_inner px hostname client_ip scheme backends request store =
    (Inr (Forward backend sent), store')"
  obtains identity request' where
    "\<forall>k\<in>set (filter_map be_authorization backends).
       \<not> handles_endpoint (store ! k) (uri_path (rq_uri request))"
    "select_runtime_for_path backends (Some hostname) (uri_path (rq_uri request)) = Some backend"
    "prepare_request px backend client_ip scheme identity request' = Inr sent"
    "case be_authorization backend of
       None \<Rightarrow> identity = None \<and> request' = request \<and> store' = store
     | Some k \<Rightarrow> authorize_request px request k store = (Allow identity, store') \<and>
         request' = (if \<not> forward_authorization (store ! k)
           then request\<lparr>rq_headers := hremove ''authorization'' (rq_headers request)\<rparr> else request)"
proof -
  let ?path = "uri_path (rq_uri request)"
  have none: "find (\<lambda>k. handles_endpoint (store ! k) ?path) (filter_map be_authorization backends) = None"
    using assms by (auto simp: handle_request_inner_def Let_def bail_def
        split: option.splits prod.splits authorization_decision.splits)
  then have free: "\<forall>k\<in>set (filter_map be_authorization backends). \<not> handles_endpoint (store ! k) ?path"
    by (auto simp: find_None_iff)
  obtain b where b: "select_runtime_for_path backends (Some hostname) ?path = Some b"
    using assms none by (cases "select_runtime_for_path backends (Some hostname) ?path")
      (auto simp: handle_request_inner_def bail_def)
  note h = assms [unfolded handle_request_inner_def Let_def none b option.case]
  show thesis
  proof (cases "be_authorization b")
    case None
    with h have "finish_request px b client_ip scheme None request = Inr (Forward backend sent)" "store' = store"
      by simp_all
    with finish_request_Forward [OF this(1)] that [of None request] free b None show thesis by auto
  next
    case (Some k)
    obtain d st where d: "authorize_request px request k store = (d, st)" by force
    from h Some d obtain identity where "d = Allow identity" "st = store'"
      and f: "finish_request px b client_ip scheme identity
        (if \<not> forward_authorization (store ! k)
         then request\<lparr>rq_headers := hremove ''authorization'' (rq_headers request)\<rparr> else request) =
        Inr (Forward backend sent)"
      by (cases d) auto
    with finish_request_Forward [OF f] that [of identity] free b Some d show thesis by simp
  qed
qed

section \<open>Properties\<close>

text \<open>C2: identity and forwarding headers cannot be forged. Whatever a peer sends, the request that
  leaves for the backend carries under each identity header exactly the value of the verified
  identity, and nothing without one; on a route with proxy headers the forwarding headers
  are those of the tunnel connection (no \<^verbatim>\<open>Forwarded\<close>, the tunnel's client address, its scheme
  and the public host). Every header outside these lists but \<^verbatim>\<open>Host\<close> and \<^verbatim>\<open>Accept-Encoding\<close> passes
  unchanged.\<close>

theorem identity_headers_unforgeable:
  assumes "prepare_request px backend client_ip scheme identity request = Inr request'"
  shows "(\<forall>name\<in>set IDENTITY_HEADERS. hget_all name (rq_headers request') = identity_values identity name) \<and>
    (br_proxy_headers (be_rule backend) \<longrightarrow>
       hget_all ''forwarded'' (rq_headers request') = [] \<and>
       hget_all ''x-forwarded-for'' (rq_headers request') = opt_list (opt_filter (\<lambda>v. \<not> blank v) client_ip) \<and>
       hget_all ''x-forwarded-proto'' (rq_headers request') = [scheme] \<and>
       hget_all ''x-forwarded-host'' (rq_headers request') = opt_list (hget ''host'' (rq_headers request))) \<and>
    (\<forall>name. name \<notin> set IDENTITY_HEADERS \<union> set FORWARDING_HEADERS \<union> {''host'', ''accept-encoding''} \<longrightarrow>
       hget_all name (rq_headers request') = hget_all name (rq_headers request)) \<and>
    rq_method request' = rq_method request"
  using assms
proof (rule prepare_requestE)
  fix host h1 h2 u
  assume host: "hget ''host'' (rq_headers request) = Some host"
    and h1: "\<And>n. hget_all n h1 = (if n \<in> set IDENTITY_HEADERS then identity_values identity n
      else hget_all n (rq_headers request))"
    and h2: "if br_proxy_headers (be_rule backend)
      then forwarding_headers (en_header_ok (px_auth px)) client_ip scheme host h1 = Inr h2 else h2 = h1"
    and r: "request' = request\<lparr>rq_uri := u, rq_headers := (case br_backend_host (be_rule backend) of
      None \<Rightarrow> h2 | Some b \<Rightarrow> hinsert ''host'' b h2)\<rparr>"
  have vals: "n \<noteq> ''host'' \<Longrightarrow> hget_all n (rq_headers request') = hget_all n h2" for n
    by (simp add: r hget_all_hinsert split: option.split)
  have "hget_all n (rq_headers request') = hget_all n (rq_headers request)"
    if "n \<notin> set IDENTITY_HEADERS \<union> set FORWARDING_HEADERS \<union> {''host'', ''accept-encoding''}" for n
    using that h1 [of n] h2 vals [of n] forwarding_headers_vals [of _ client_ip scheme host h1 h2 n]
    by (auto simp: FORWARDING_HEADERS_def split: if_splits)
  moreover have "hget_all ''forwarded'' h2 = [] \<and>
      hget_all ''x-forwarded-for'' h2 = opt_list (opt_filter (\<lambda>v. \<not> blank v) client_ip) \<and>
      hget_all ''x-forwarded-proto'' h2 = [scheme] \<and> hget_all ''x-forwarded-host'' h2 = [host]"
    if "br_proxy_headers (be_rule backend)"
    using h2 that by (simp add: forwarding_headers_vals)
  ultimately show ?thesis
    using prepare_request_identity [OF assms] host by (simp add: vals) (simp add: r)
qed

definition example_rule :: backend_rule where
  "example_rule =
     \<lparr>br_pattern = ''h'', br_path_prefix = None, br_strip_path_prefix = False, br_proxy_headers = True,
      br_backend_addr = ''127.0.0.1:80'', br_backend_host = None, br_http_backend_addr = None,
      br_authorization = None\<rparr>"

definition example_runtime :: backend_runtime where
  "example_runtime = \<lparr>be_rule = example_rule, be_authorization = Some 0\<rparr>"

definition example_proxy :: proxy_env where
  "example_proxy =
     \<lparr>px_auth = example_env, px_uri_from_str = (\<lambda>_. Inr example_uri), px_connect = (\<lambda>_. Ready (Inr ())),
      px_handshake = (\<lambda>_. Inr ()), px_send = (\<lambda>_ _. Inr (error_response 200 ''ok''))\<rparr>"

lemma example_proxy_simps:
  "px_auth example_proxy = example_env" "px_connect example_proxy a = Ready (Inr ())"
  "px_handshake example_proxy a = Inr ()" "px_send example_proxy a r = Inr (error_response 200 ''ok'')"
  "be_rule example_runtime = example_rule" "be_authorization example_runtime = Some 0"
  by (simp_all add: example_proxy_def example_runtime_def)

text \<open>A request with a session cookie and a forged identity header.\<close>

definition example_request :: http_request where
  "example_request =
     \<lparr>rq_method = ''GET'', rq_uri = example_uri,
      rq_headers = [(''host'', ''h''), (''cookie'', ''s=1''), (''x-forwarded-user'', ''root'')]\<rparr>"

lemma example_prepared:
  assumes "hget ''host'' (rq_headers request) = Some host"
  shows "\<exists>request'. prepare_request example_proxy example_runtime (Some ''1.2.3.4'') ''https'' (Some example_identity)
     request = Inr request'"
proof -
  have ok: "set_headers (\<lambda>_. True) ps h = Inr (fold (\<lambda>(n, v). hinsert n v) ps h)" for ps h
    by (induction "\<lambda>_ :: bytes. True" ps h rule: set_headers.induct) (auto simp: set_header_def header_value_def)
  show ?thesis
    using assms by (simp add: prepare_request_def example_proxy_def example_runtime_def example_rule_def
        example_env_def ok forwarding_headers_def Let_def header_value_def set_header_def
        split: option.split)
qed

lemma example_host: "hget ''host'' (rq_headers example_request) = Some ''h''"
  by (simp add: example_request_def hget_def)

theorem identity_headers_unforgeable_witness:
  "\<exists>request'. prepare_request example_proxy example_runtime (Some ''1.2.3.4'') ''https'' (Some example_identity)
      example_request = Inr request' \<and>
     hget_all ''x-forwarded-user'' (rq_headers example_request) = [''root''] \<and>
     hget_all ''x-forwarded-user'' (rq_headers request') = [''n''] \<and>
     hget_all ''x-forwarded-proto'' (rq_headers request') = [''https''] \<and>
     hget_all ''cookie'' (rq_headers request') = hget_all ''cookie'' (rq_headers example_request)"
proof -
  obtain request' where p: "prepare_request example_proxy example_runtime (Some ''1.2.3.4'') ''https''
      (Some example_identity) example_request = Inr request'"
    using example_prepared [OF example_host] by blast
  note u = identity_headers_unforgeable [OF p]
  have "hget_all ''x-forwarded-user'' (rq_headers request') = identity_values (Some example_identity) ''x-forwarded-user''"
    by (rule bspec [OF conjunct1 [OF u]]) (simp add: IDENTITY_HEADERS_def)
  moreover have "hget_all ''cookie'' (rq_headers request') = hget_all ''cookie'' (rq_headers example_request)"
    using u by (simp add: IDENTITY_HEADERS_def FORWARDING_HEADERS_def)
  ultimately show ?thesis
    using p u by (simp add: identity_values_def example_identity_def example_request_def hget_all_def
        example_runtime_def example_rule_def)
qed

text \<open>C3: only authorized requests reach a backend. When the proxy hands a request to a backend
  address, that backend is the one path selection chose for the host, no authorizer of the
  route reserves the path, and a protected backend's authorizer has allowed the request as it
  was received. The request that is sent carries the identity of that decision (none for an
  unprotected backend), and no \<^verbatim>\<open>Authorization\<close> header unless the policy forwards it.\<close>

theorem proxy_forwards_authorized:
  assumes "handle_http_request px hostname client_ip scheme backends request store = (result, store')"
    "fw_sent result = Some (addr, sent)"
  shows "\<exists>backend identity.
    select_runtime_for_path backends (Some hostname) (uri_path (rq_uri request)) = Some backend \<and>
    addr = resolved_http_backend_addr (be_rule backend) \<and>
    (\<forall>k\<in>set (filter_map be_authorization backends). \<not> handles_endpoint (store ! k) (uri_path (rq_uri request))) \<and>
    (case be_authorization backend of
       None \<Rightarrow> identity = None \<and> store' = store
     | Some k \<Rightarrow> \<exists>au. authorize (px_auth px) (rq_method request) (rq_uri request) (rq_headers request) (store ! k) =
           (Allow identity, au) \<and> store' = store[k := au] \<and>
         (forward_authorization (store ! k) \<or> hget_all ''authorization'' (rq_headers sent) = [])) \<and>
    (\<forall>name\<in>set IDENTITY_HEADERS. hget_all name (rq_headers sent) = identity_values identity name)"
proof -
  from assms obtain backend where
    f: "handle_request_inner px hostname client_ip scheme backends request store = (Inr (Forward backend sent), store')"
    and addr: "addr = resolved_http_backend_addr (be_rule backend)"
    by (rule handle_http_request_sent)
  from f obtain identity request' where
    free: "\<forall>k\<in>set (filter_map be_authorization backends).
       \<not> handles_endpoint (store ! k) (uri_path (rq_uri request))"
    and sel: "select_runtime_for_path backends (Some hostname) (uri_path (rq_uri request)) = Some backend"
    and prep: "prepare_request px backend client_ip scheme identity request' = Inr sent"
    and auth: "case be_authorization backend of
       None \<Rightarrow> identity = None \<and> request' = request \<and> store' = store
     | Some k \<Rightarrow> authorize_request px request k store = (Allow identity, store') \<and>
         request' = (if \<not> forward_authorization (store ! k)
           then request\<lparr>rq_headers := hremove ''authorization'' (rq_headers request)\<rparr> else request)"
    by (rule forward_authorized)
  have "hget_all ''authorization'' (rq_headers sent) = hget_all ''authorization'' (rq_headers request')"
    by (rule prepare_request_other [OF prep]) (simp_all add: IDENTITY_HEADERS_def FORWARDING_HEADERS_def)
  then have "case be_authorization backend of
       None \<Rightarrow> identity = None \<and> store' = store
     | Some k \<Rightarrow> \<exists>au. authorize (px_auth px) (rq_method request) (rq_uri request) (rq_headers request) (store ! k) =
           (Allow identity, au) \<and> store' = store[k := au] \<and>
         (forward_authorization (store ! k) \<or> hget_all ''authorization'' (rq_headers sent) = [])"
    using auth by (auto simp: authorize_request_def hget_all_hremove split: option.splits prod.splits)
  with sel addr free prepare_request_identity [OF prep] show ?thesis by blast
qed

lemma example_session: "authorize example_env ''GET'' example_uri (rq_headers example_request) example_authorizer =
    (Allow (Some example_identity), example_authorizer)"
proof -
  have c: "request_cookie (\<lambda>_. True) (rq_headers example_request) ''s'' = Some ''1''"
    by (simp add: request_cookie_def hget_all_def trim_cookie example_request_def)
  have "oidc_session example_env example_oidc (rq_headers example_request) = Inr (Some example_identity)"
    by (simp add: oidc_session_def decrypt_cookie_def c example_auth_defs
        flip: example_identity_def) (simp add: example_identity_def)
  then show ?thesis
    by (simp add: authorize_def example_authorizer_def example_uri_def example_policy_def hcontains_def
        default_oidc_callback_path_def default_oidc_logout_path_def example_request_def)
qed

text \<open>A request that the only authorizer allows reaches the backend.\<close>

lemma example_handled:
  assumes "authorize example_env (rq_method request) (rq_uri request) (rq_headers request) au = (Allow (Some example_identity), au')"
    "\<not> handles_endpoint au (uri_path (rq_uri request))" "forward_authorization au" "hget ''host'' (rq_headers request) = Some host"
  shows "\<exists>result sent. handle_http_request example_proxy ''h'' (Some ''1.2.3.4'') ''https'' [example_runtime] request [au] =
      (result, [au']) \<and> fw_sent result = Some (resolved_http_backend_addr example_rule, sent)"
proof -
  have auth: "authorize_request example_proxy request 0 [au] = (Allow (Some example_identity), [au'])"
    using assms(1) by (simp add: authorize_request_def example_proxy_simps)
  have sel: "select_runtime_for_path [example_runtime] (Some ''h'') path = Some example_runtime" for path
    by (simp add: select_runtime_for_path_def matches_hostname_def example_runtime_def example_rule_def
        matches_pattern_def)
  obtain sent where p: "prepare_request example_proxy example_runtime (Some ''1.2.3.4'') ''https''
      (Some example_identity) request = Inr sent"
    using example_prepared [OF assms(4)] by blast
  have fin: "finish_request example_proxy example_runtime (Some ''1.2.3.4'') ''https'' (Some example_identity)
      request = Inr (Forward example_runtime sent)"
    by (simp add: finish_request_def p canonical_prefix_redirect_def) (simp add: example_runtime_def example_rule_def)
  have "handle_request_inner example_proxy ''h'' (Some ''1.2.3.4'') ''https'' [example_runtime]
      request [au] = (Inr (Forward example_runtime sent), [au'])"
    using assms(2,3) by (simp add: handle_request_inner_def example_proxy_simps sel auth fin)
  then show ?thesis
    by (simp add: handle_http_request_def forward_request_def example_proxy_simps)
qed

theorem proxy_forwards_authorized_witness:
  "\<exists>result store' sent. handle_http_request example_proxy ''h'' (Some ''1.2.3.4'') ''https'' [example_runtime]
      example_request [example_authorizer] = (result, store') \<and>
     fw_sent result = Some (resolved_http_backend_addr example_rule, sent) \<and>
     hget_all ''x-forwarded-user'' (rq_headers sent) = [''n'']"
proof -
  have free: "\<not> handles_endpoint example_authorizer (uri_path (rq_uri example_request))"
    "forward_authorization example_authorizer"
    by (simp_all add: handles_endpoint_def forward_authorization_def example_authorizer_def example_policy_def
        default_oidc_callback_path_def default_oidc_logout_path_def example_request_def example_uri_def)
  have "authorize example_env (rq_method example_request) (rq_uri example_request) (rq_headers example_request)
      example_authorizer = (Allow (Some example_identity), example_authorizer)"
    using example_session by (simp add: example_request_def)
  from example_handled [OF this free example_host] obtain result sent where
    h: "handle_http_request example_proxy ''h'' (Some ''1.2.3.4'') ''https'' [example_runtime]
      example_request [example_authorizer] = (result, [example_authorizer])"
    and s: "fw_sent result = Some (resolved_http_backend_addr example_rule, sent)"
    by blast
  from proxy_forwards_authorized [OF h s] obtain backend identity where
    b: "select_runtime_for_path [example_runtime] (Some ''h'') (uri_path (rq_uri example_request)) = Some backend"
    and a: "case be_authorization backend of
       None \<Rightarrow> identity = None \<and> [example_authorizer] = [example_authorizer]
     | Some k \<Rightarrow> \<exists>au. authorize (px_auth example_proxy) (rq_method example_request) (rq_uri example_request)
           (rq_headers example_request) ([example_authorizer] ! k) = (Allow identity, au) \<and>
         [example_authorizer] = [example_authorizer][k := au] \<and>
         (forward_authorization ([example_authorizer] ! k) \<or> hget_all ''authorization'' (rq_headers sent) = [])"
    and i: "\<forall>name\<in>set IDENTITY_HEADERS. hget_all name (rq_headers sent) = identity_values identity name"
    by blast
  have "backend = example_runtime" using runtimes.select_in [OF b] by simp
  with a have "identity = Some example_identity"
    using example_session by (auto simp: example_runtime_def example_proxy_def example_request_def)
  with i have "hget_all ''x-forwarded-user'' (rq_headers sent) = [''n'']"
    by (simp add: IDENTITY_HEADERS_def identity_values_def example_identity_def)
  with h s show ?thesis by blast
qed

text \<open>The requests of a kept-alive connection are routed and authorized one by one. Every request
  gets exactly one response, computed from that request alone and from authorizers whose
  policies are those the connection started with, however many requests came before and
  whatever they contained.\<close>

theorem keep_alive_independent:
  assumes "serve_requests hostname client_ip scheme backends requests store = (results, store')"
  shows "length results = length requests \<and>
    map authorizer_policy store' = map authorizer_policy store \<and>
    (\<forall>i<length requests. \<exists>st st'. map authorizer_policy st = map authorizer_policy store \<and>
       handle_http_request (fst (requests ! i)) hostname client_ip scheme backends (snd (requests ! i)) st =
         (results ! i, st'))"
  using assms
proof (induction requests arbitrary: store results)
  case Nil
  then show ?case by simp
next
  case (Cons r requests)
  obtain px request where r: "r = (px, request)" by force
  obtain result st where h: "handle_http_request px hostname client_ip scheme backends request store = (result, st)"
    by force
  obtain rest st' where t: "serve_requests hostname client_ip scheme backends requests st = (rest, st')"
    by force
  from Cons.prems r h t have res: "results = result # rest" "st' = store'" by simp_all
  have same: "map authorizer_policy st = map authorizer_policy store"
    by (rule handle_http_request_policies [OF h])
  note ih = Cons.IH [OF t [unfolded res(2)], unfolded same]
  have first: "\<exists>s s'. map authorizer_policy s = map authorizer_policy store \<and>
      handle_http_request px hostname client_ip scheme backends request s = (result, s')"
    using h by blast
  have "\<exists>s s'. map authorizer_policy s = map authorizer_policy store \<and>
      handle_http_request (fst ((r # requests) ! i)) hostname client_ip scheme backends
        (snd ((r # requests) ! i)) s = (results ! i, s')" if "i < length (r # requests)" for i
    using that ih first by (cases i) (simp_all add: r res)
  with ih res show ?case by simp
qed

theorem keep_alive_independent_witness:
  "\<exists>results store'. serve_requests ''h'' None ''http'' [] [(example_proxy, example_request)] [] = (results, store') \<and>
     length results = 1"
proof -
  obtain results store' where
    s: "serve_requests ''h'' None ''http'' [] [(example_proxy, example_request)] [] = (results, store')" by force
  from keep_alive_independent [OF s] s show ?thesis by simp
qed

text \<open>A stripped path prefix is removed exactly. When a route that strips its prefix is selected
  for a request, the path is the prefix without its trailing slashes followed by nothing or
  by a slash and more; the rewritten target is that remainder (a slash when it is empty) with
  the query kept, and stripping never fails on the prefix. The bare prefix is redirected,
  once: it gets a permanent redirect to the prefix with a slash, which is matched by the same
  prefix and not redirected again.\<close>

theorem prefix_rewriting:
  assumes "select_runtime_for_path backends hostname (uri_path u) = Some backend"
    "br_path_prefix (be_rule backend) = Some p" "br_strip_path_prefix (be_rule backend)"
  shows "\<exists>rest. uri_path u = trim_end_matches (CHR ''/'') p @ rest \<and> (rest = [] \<or> starts_with ''/'' rest) \<and>
    strip_uri_prefix uri_from_str u p = add_context ''construct rewritten request URI''
      (uri_from_str ((if rest = [] then ''/'' else rest) @
         (case uri_query u of None \<Rightarrow> [] | Some query \<Rightarrow> ''?'' @ query))) \<and>
    (canonical_prefix_redirect (\<lambda>_. True) u backend =
       (if rest = [] \<and> trim_end_matches (CHR ''/'') p \<noteq> [] then
          Inr (Some \<lparr>resp_status = 308,
            resp_headers = [(''location'', trim_end_matches (CHR ''/'') p @ ''/'' @
              (case uri_query u of None \<Rightarrow> [] | Some query \<Rightarrow> ''?'' @ query))], resp_body = []\<rparr>)
        else Inr None)) \<and>
    (\<forall>u'. uri_path u' = trim_end_matches (CHR ''/'') p @ ''/'' \<longrightarrow>
       matches_path_prefix p (uri_path u') \<and> canonical_prefix_redirect (\<lambda>_. True) u' backend = Inr None)"
proof -
  let ?p = "trim_end_matches (CHR ''/'') p"
  have m: "matches_path_prefix p (uri_path u)"
    using runtimes.select_path [OF assms(1,2)] by blast
  have last: "?p = [] \<or> last ?p \<noteq> CHR ''/''"
    using trim_end_while_last [of "\<lambda>x. x = CHR ''/''" p] unfolding trim_end_matches_def .
  have slash: "?p \<noteq> ''/''" "trim_end_matches (CHR ''/'') ''/'' = []"
    using last by (fastforce, simp add: trim_end_matches_def trim_end_while_def)
  obtain rest where rest: "uri_path u = ?p @ rest" "rest = [] \<or> starts_with ''/'' rest"
    using m slash(2) by (auto simp: matches_path_prefix_def Let_def is_some_and_iff split: if_splits)
  have strip: "strip_uri_prefix uri_from_str u p = add_context ''construct rewritten request URI''
      (uri_from_str ((if rest = [] then ''/'' else rest) @
         (case uri_query u of None \<Rightarrow> [] | Some query \<Rightarrow> ''?'' @ query)))"
    using rest by (auto simp: strip_uri_prefix_def Let_def split: option.split)
  have "canonical_prefix_redirect (\<lambda>_. True) u backend =
       (if rest = [] \<and> ?p \<noteq> [] then
          Inr (Some \<lparr>resp_status = 308,
            resp_headers = [(''location'', ?p @ ''/'' @
              (case uri_query u of None \<Rightarrow> [] | Some query \<Rightarrow> ''?'' @ query))], resp_body = []\<rparr>)
        else Inr None)"
    using rest slash(1) assms(2,3)
    by (auto simp: canonical_prefix_redirect_def Let_def header_value_def hinsert_def hremove_def split: option.split)
  moreover have "matches_path_prefix p (?p @ ''/'')"
    by (simp add: matches_path_prefix_def Let_def slash(2))
  ultimately show ?thesis
    using rest strip assms(2,3) by (intro exI [of _ rest]) (auto simp: canonical_prefix_redirect_def Let_def)
qed

theorem prefix_rewriting_witness:
  "\<exists>rest. ''/x'' = trim_end_matches (CHR ''/'') ''/x/'' @ rest \<and> rest = []"
proof -
  define rt where "rt = example_runtime\<lparr>be_rule := example_rule\<lparr>br_path_prefix := Some ''/x/'',
    br_strip_path_prefix := True\<rparr>\<rparr>"
  have t: "trim_end_matches (CHR ''/'') ''/x/'' = ''/x''" by code_simp
  have m: "matches_path_prefix ''/x/'' ''/x''"
    unfolding matches_path_prefix_def Let_def t by simp
  have "select_runtime_for_path [rt] (Some ''h'') (uri_path example_uri) = Some rt"
    using m by (simp add: select_runtime_for_path_def matches_hostname_def rt_def example_rule_def
        matches_pattern_def example_uri_def)
  from prefix_rewriting [OF this, of "''/x/''"] obtain rest where
    "uri_path example_uri = trim_end_matches (CHR ''/'') ''/x/'' @ rest"
    by (auto simp: rt_def)
  then show ?thesis by (auto simp: t example_uri_def)
qed

text \<open>A connection is served under the strictest limits of its policies: the size of a request head
  and the time to send it are the least of 32 KiB and five seconds and of every policy in
  use, and the buffer of the server is that size as long as the policies allow the 8192 bytes
  that configuration validation asks for.\<close>

theorem request_limits_strictest:
  "proxy_request_limits store backends =
     (Min (insert (32 * 1024) ((\<lambda>k. az_max_header_bytes (au_config (store ! k))) ` set (filter_map be_authorization backends))),
      Min (insert 5000 ((\<lambda>k. az_header_timeout_ms (au_config (store ! k))) ` set (filter_map be_authorization backends)))) \<and>
   ((\<forall>k\<in>set (filter_map be_authorization backends). 8192 \<le> az_max_header_bytes (au_config (store ! k))) \<longrightarrow>
    fst (serve hostname client_ip scheme backends requests store) = proxy_request_limits store backends)"
proof -
  let ?ks = "filter_map be_authorization backends"
  let ?f = "\<lambda>k. az_max_header_bytes (au_config (store ! k))"
  let ?g = "\<lambda>k. az_header_timeout_ms (au_config (store ! k))"
  have limits: "proxy_request_limits store backends =
      (Min (insert (32 * 1024) (?f ` set ?ks)), Min (insert 5000 (?g ` set ?ks)))"
    unfolding proxy_request_limits_def authorizer_request_limits_def prod.case by (rule fold_min_pair)
  have "fst (serve hostname client_ip scheme backends requests store) = proxy_request_limits store backends"
    if "\<forall>k\<in>set ?ks. 8192 \<le> ?f k"
  proof -
    have "8192 \<le> Min (insert (32 * 1024) (?f ` set ?ks))"
      using that by simp
    then have "max (Min (insert (32 * 1024) (?f ` set ?ks))) (8 * 1024) = Min (insert (32 * 1024) (?f ` set ?ks))"
      by (intro max_absorb1) simp
    then show ?thesis by (simp only: serve_def limits prod.case fst_conv)
  qed
  with limits show ?thesis by blast
qed

theorem request_limits_strictest_witness:
  "fst (serve ''h'' None ''http'' [example_runtime] [] [example_authorizer]) =
   proxy_request_limits [example_authorizer] [example_runtime]"
  using request_limits_strictest [of "[example_authorizer]" "[example_runtime]" "''h''" None "''http''" "[]"]
  by (simp add: example_proxy_simps example_authorizer_def example_policy_def default_auth_max_header_bytes_def)

end
