(* ===== verification/Acme.thy ===== *)
theory Acme
  imports Http_Proxy Http_Host
begin

text \<open>
  Local TLS termination for a route (\<^verbatim>\<open>client/src/acme.rs\<close>) and the expansion of user-relative paths
  (\<^verbatim>\<open>client/src/paths.rs\<close>). Certificates and the TLS handshake are \<^verbatim>\<open>rustls-acme\<close>'s; what the client
  decides is modelled: its settings, the cache directory, and what becomes of a decrypted
  stream. Paths are Unix paths. What a tunnel ends in is a \<open>tunnel_action\<close>; the relay and the
  HTTP server that follow are those of \<open>Relay\<close> and \<open>Http_Proxy\<close>.
\<close>

section \<open>Paths\<close>

text \<open>\<^verbatim>\<open>Path::join\<close>\<close>

definition path_join :: "string \<Rightarrow> string \<Rightarrow> string" where
  "path_join root p =
     (if starts_with ''/'' p then p
      else if root = [] \<or> ends_with ''/'' root then root @ p else root @ ''/'' @ p)"

text \<open>\<^verbatim>\<open>Path::parent\<close>, for a path without \<^verbatim>\<open>.\<close> components.\<close>

definition path_parent :: "string \<Rightarrow> string option" where
  "path_parent path =
     (let path = trim_end_matches (CHR ''/'') path;
          head = rev (dropWhile (\<lambda>c. c \<noteq> CHR ''/'') (rev path));
          parent = trim_end_matches (CHR ''/'') head in
      if path = [] then None else Some (if parent = [] \<and> head \<noteq> [] then ''/'' else parent))"

definition expand_home :: "string option \<Rightarrow> string \<Rightarrow> string res" where
  "expand_home home_dir path =
     (if path = ''~'' then opt_context ''cannot resolve home directory for ~ path'' home_dir
      else (case or_else (strip_prefix ''~/'' path) (strip_prefix (''~'' @ [CHR 0x5C]) path) of
          None \<Rightarrow> Inr path
        | Some relative \<Rightarrow>
            and_then (opt_context ''cannot resolve home directory for ~ path'' home_dir) (\<lambda>home.
              Inr (path_join home relative))))"

text \<open>The loop runs over characters: the continuation bytes of a character beyond ASCII go with its
  first byte.\<close>

definition cache_component :: "string \<Rightarrow> string" where
  "cache_component domain =
     map (\<lambda>c. if is_ascii_alphanumeric c \<or> c = CHR ''.'' \<or> c = CHR ''-'' then c else CHR ''_'')
       (filter (\<lambda>c. \<not> in_range 0x80 0xBF c) domain)"

definition domain_cache_dir :: "string \<Rightarrow> string \<Rightarrow> string" where
  "domain_cache_dir root domain = path_join root (cache_component domain)"

definition prepare_cache_dir ::
    "(string \<Rightarrow> unit res) \<Rightarrow> (string \<Rightarrow> nat \<Rightarrow> unit res) \<Rightarrow> string \<Rightarrow> unit res" where
  "prepare_cache_dir create_dir_all set_permissions path =
     and_then (add_context (''failed to create ACME cache directory '' @ path) (create_dir_all path)) (\<lambda>_.
       add_context (''failed to secure ACME cache directory permissions '' @ path)
         (set_permissions path 448))"

section \<open>The certificate runtime\<close>

datatype acme_directory = Directory string | Lets_encrypt bool

record acme_settings =
  as_domains :: "string list"
  as_contacts :: "string list"
  as_directory :: acme_directory
  as_cache_dir :: string
  as_alpn :: "bytes list"

definition run_acme_settings :: "client_acme_config \<Rightarrow> string \<Rightarrow> acme_settings" where
  "run_acme_settings config cache_dir =
     \<lparr>as_domains = [ac_domain config], as_contacts = ac_contacts config,
      as_directory = (case ac_directory_url config of
          Some directory_url \<Rightarrow> Directory directory_url
        | None \<Rightarrow> Lets_encrypt (ac_production config)),
      as_cache_dir = cache_dir, as_alpn = [''http/1.1'']\<rparr>"

text \<open>The handle of a running certificate task: its settings and whether its channel is open.\<close>

record acme_runtime =
  ar_settings :: acme_settings
  ar_open :: bool

definition acme_start ::
    "string option \<Rightarrow> (string \<Rightarrow> unit res) \<Rightarrow> (string \<Rightarrow> nat \<Rightarrow> unit res) \<Rightarrow> client_acme_config \<Rightarrow>
     relay_mode \<Rightarrow> acme_runtime res" where
  "acme_start home_dir create_dir_all set_permissions config relay_mode =
     and_then (ensure (relay_mode \<noteq> Splice)
       ''automatic TLS termination cannot use splice relay mode; use auto or buffered'') (\<lambda>_.
     and_then (expand_home home_dir (ac_cache_dir config)) (\<lambda>cache_root.
     let cache_dir = domain_cache_dir cache_root (ac_domain config) in
     and_then (prepare_cache_dir create_dir_all set_permissions cache_dir) (\<lambda>_.
       Inr \<lparr>ar_settings = run_acme_settings config cache_dir, ar_open = True\<rparr>)))"

definition acme_accept :: "acme_runtime \<Rightarrow> unit res" where
  "acme_accept runtime = (if ar_open runtime then Inr () else bail ''ACME TLS runtime is not available'')"

text \<open>\<^verbatim>\<open>NonTerminatingReceiverStream::poll_next\<close>\<close>

definition non_terminating :: "'a option poll \<Rightarrow> 'a option poll" where
  "non_terminating p = (case p of Ready None \<Rightarrow> Pending | result \<Rightarrow> result)"

section \<open>Decrypted streams\<close>

datatype tunnel_action =
    Reject_protocol
  | To_acme
  | Serve_http string "string option" string
  | Relay_raw string

text \<open>Looking at the first bytes of a stream without taking them, for at most two seconds
  (\<^verbatim>\<open>TcpStream::peek\<close>, \<^verbatim>\<open>BufReader::fill_buf\<close>).\<close>

definition sock_peek :: "nat \<Rightarrow> socket \<Rightarrow> (io_kind + bytes) poll" where
  "sock_peek n es = (case sock_read n es of
      Blocked \<Rightarrow> Pending | Got d _ \<Rightarrow> Ready (Inr d) | Failed k \<Rightarrow> Ready (Inl k))"

definition peek_http :: "string \<Rightarrow> nat \<Rightarrow> socket \<Rightarrow> bool res" where
  "peek_http m n es = (case sock_peek n es of
      Pending \<Rightarrow> Inr False
    | Ready (Inr d) \<Rightarrow> Inr (d \<noteq> [] \<and> looks_like_http_prefix d)
    | Ready (Inl k) \<Rightarrow> Inl [Msg m, Io_cause k])"

definition fallback_backend :: "backend_runtime list \<Rightarrow> string option \<Rightarrow> backend_runtime res" where
  "fallback_backend backends hostname =
     opt_context ''matching route has no fallback backend''
       (find (\<lambda>b. matches_hostname b hostname \<and> br_path_prefix (be_rule b) = None) backends)"

definition needs_inspection :: "backend_runtime \<Rightarrow> bool" where
  "needs_inspection b \<longleftrightarrow> br_path_prefix (be_rule b) \<noteq> None \<or> br_proxy_headers (be_rule b) \<or>
     br_backend_host (be_rule b) \<noteq> None \<or> be_authorization b \<noteq> None"

definition bridge_tls ::
    "(string \<Rightarrow> unit res) \<Rightarrow> string \<Rightarrow> string option \<Rightarrow> backend_runtime list \<Rightarrow> bool \<Rightarrow> socket \<Rightarrow>
     tunnel_action res" where
  "bridge_tls connect hostname client_ip backends tcp_passthrough tls_stream =
     and_then (fallback_backend backends (Some hostname)) (\<lambda>fallback.
     let inspect_http = (\<not> tcp_passthrough \<or> (\<exists>b\<in>set backends. needs_inspection b)) in
     and_then (if inspect_http then peek_http ''inspect terminated TLS protocol'' (8 * 1024) tls_stream
       else Inr False) (\<lambda>http.
     if \<not> protocol_allowed http tcp_passthrough then Inr Reject_protocol
     else if \<not> http then
       let backend_addr = resolved_backend_addr (be_rule fallback) in
       and_then (add_context (''failed to connect backend '' @ backend_addr) (connect backend_addr)) (\<lambda>_.
         Inr (Relay_raw backend_addr))
     else Inr (Serve_http hostname client_ip ''https'')))"

section \<open>Lemmas\<close>

lemma non_terminating_never_ends: "non_terminating p \<noteq> Ready None"
  by (cases p) (auto simp: non_terminating_def split: option.splits)

lemma cache_component_chars:
  "c \<in> set (cache_component domain) \<Longrightarrow> is_ascii_alphanumeric c \<or> c \<in> {CHR ''.'', CHR ''-'', CHR ''_''}"
  by (auto simp: cache_component_def split: if_splits)

text \<open>The component has no separator, so the directory lies directly in the root. The name of the
  parent directory passes unchanged, though.\<close>

lemma domain_cache_dir_direct:
  assumes "root \<noteq> []" "\<not> ends_with ''/'' root"
  shows "domain_cache_dir root domain = root @ ''/'' @ cache_component domain"
    "CHR ''/'' \<notin> set (cache_component domain)"
proof -
  show no_slash: "CHR ''/'' \<notin> set (cache_component domain)"
    using cache_component_chars [of "CHR ''/''" domain]
    by (auto simp: is_ascii_alphanumeric_def is_ascii_digit_def byte_val_def)
  then have "\<not> starts_with ''/'' (cache_component domain)"
    by (auto simp: starts_with_iff)
  with assms show "domain_cache_dir root domain = root @ ''/'' @ cache_component domain"
    by (simp add: domain_cache_dir_def path_join_def)
qed

lemma domain_cache_dir_parent: "domain_cache_dir ''cache'' ''..'' = ''cache/..''"
  by code_simp

lemma expand_home_absolute: "starts_with ''/'' path \<Longrightarrow> expand_home home path = Inr path"
  by (auto simp: expand_home_def starts_with_iff)

lemma peek_http_silent: "peek_http m n [] = Inr False" if "0 < n"
  using that by (simp add: peek_http_def sock_peek_def)

lemma bridge_tls_relay:
  assumes "bridge_tls connect hostname client_ip backends tcp_passthrough es = Inr (Relay_raw addr)"
  shows "tcp_passthrough" "\<exists>b\<in>set backends. addr = resolved_backend_addr (be_rule b) \<and> matches_hostname b (Some hostname)"
  using assms
  by (auto simp: bridge_tls_def Let_def res_simps protocol_allowed_def fallback_backend_def
      dest!: find_Some_in split: if_splits)

end
