(* ===== verification/Oauth.thy ===== *)
theory Oauth
  imports Config_Types
begin

text \<open>
  The exchange of a service account's secret for a route-scoped NATS ticket
  (\<^verbatim>\<open>client/src/oauth.rs\<close>) and the time of its renewal (\<^verbatim>\<open>client/src/lib.rs\<close>, \<^verbatim>\<open>run_oauth\<close>). The file
  system, the HTTP client (a status and a body), the JSON text layer and base64 are fields of
  \<open>oauth_env\<close>. Unix times are signed 64-bit integers.
\<close>

record oauth_env =
  oe_read :: "string \<Rightarrow> bytes res"
  oe_builder :: "unit res"
  oe_post_form :: "string \<Rightarrow> (string \<times> string) list \<Rightarrow> (nat \<times> bytes) res"
  oe_post_json :: "string \<Rightarrow> string \<Rightarrow> bytes \<Rightarrow> (nat \<times> bytes) res"
  oe_to_text :: "sval \<Rightarrow> bytes"
  oe_from_text :: "bytes \<Rightarrow> sval option"
  oe_b64url_decode :: "bytes \<Rightarrow> bytes option"

definition status_success :: "nat \<Rightarrow> bool" where
  "status_success status \<longleftrightarrow> 200 \<le> status \<and> status < 300"

definition json_body :: "oauth_env \<Rightarrow> 'a decoder \<Rightarrow> bytes \<Rightarrow> 'a res" where
  "json_body env de body =
     (case oe_from_text env body of None \<Rightarrow> serde_error ''syntax'' | Some v \<Rightarrow> de v)"

definition de_oauth_token_response :: "string decoder" where
  "de_oauth_token_response v =
     and_then (struct_fields [(''access_token'', False)] v) (req_field ''access_token'' de_string)"

definition obtain_access_token ::
    "oauth_env \<Rightarrow> string \<Rightarrow> string \<Rightarrow> string \<Rightarrow> string \<Rightarrow> string list \<Rightarrow> string res" where
  "obtain_access_token env token_url provider_client_id username client_secret_file scopes =
     and_then (add_context (''failed to read OAuth client secret file '' @ client_secret_file)
       (oe_read env client_secret_file)) (\<lambda>secret.
     and_then (ensure (\<not> blank secret) ''OAuth client secret file is empty'') (\<lambda>_.
     and_then (add_context ''request Authentik OAuth token''
       (oe_post_form env token_url
          [(''grant_type'', ''client_credentials''), (''client_id'', provider_client_id),
           (''username'', username), (''password'', trim secret), (''scope'', join_with '' '' scopes)])) (\<lambda>(status, body).
     and_then (ensure (status_success status)
       (''Authentik OAuth token request returned '' @ show_nat status)) (\<lambda>_.
     and_then (add_context ''decode Authentik OAuth token response''
       (json_body env de_oauth_token_response body)) (\<lambda>access_token.
     and_then (ensure (access_token \<noteq> []) ''Authentik returned an empty token'') (\<lambda>_.
       Inr access_token))))))"

record oauth_ticket =
  ot_token :: string
  ot_expires_unix :: int
  ot_client_id :: string
  ot_request_subject :: string
  ot_nats_urls :: "string list"

record ticket_response =
  tr_token :: string
  tr_expires_unix :: "int option"
  tr_client_id :: string
  tr_request_subject :: string
  tr_nats_urls :: "string list"

definition ser_ticket_request :: "string \<Rightarrow> string \<Rightarrow> sval" where
  "ser_ticket_request hostname client_name =
     SMap [(''hostname'', SStr hostname), (''client_name'', SStr client_name)]"

definition de_ticket_response :: "ticket_response decoder" where
  "de_ticket_response v =
     and_then (struct_fields [(''token'', False), (''expires_unix'', True), (''client_id'', False),
         (''request_subject'', False), (''nats_urls'', False)] v) (\<lambda>m.
     and_then (req_field ''token'' de_string m) (\<lambda>token.
     and_then (opt_field ''expires_unix'' de_i64 m) (\<lambda>expires_unix.
     and_then (req_field ''client_id'' de_string m) (\<lambda>client_id.
     and_then (req_field ''request_subject'' de_string m) (\<lambda>request_subject.
     and_then (req_field ''nats_urls'' (de_vec de_string) m) (\<lambda>nats_urls.
       Inr \<lparr>tr_token = token, tr_expires_unix = expires_unix, tr_client_id = client_id,
            tr_request_subject = request_subject, tr_nats_urls = nats_urls\<rparr>))))))"

definition de_jwt_claims :: "int decoder" where
  "de_jwt_claims v = and_then (struct_fields [(''exp'', False)] v) (req_field ''exp'' de_i64)"

definition jwt_expiry :: "oauth_env \<Rightarrow> string \<Rightarrow> int res" where
  "jwt_expiry env token =
     and_then (case split_on (CHR ''.'') token of
         _ # payload # _ \<Rightarrow> Inr payload
       | _ \<Rightarrow> bail ''LFP Pipe ticket is not a JWT'') (\<lambda>payload.
     and_then (add_context ''decode LFP Pipe ticket JWT payload''
       (case oe_b64url_decode env payload of None \<Rightarrow> Inl [Ext_cause ''base64''] | Some d \<Rightarrow> Inr d)) (\<lambda>decoded.
       add_context ''decode LFP Pipe ticket JWT claims'' (json_body env de_jwt_claims decoded)))"

definition obtain_ticket :: "oauth_env \<Rightarrow> client_oauth_config \<Rightarrow> string \<Rightarrow> oauth_ticket res" where
  "obtain_ticket env config client_name =
     and_then (add_context ''construct OAuth HTTP client'' (oe_builder env)) (\<lambda>_.
     and_then (obtain_access_token env (oa_token_url config) (oa_provider_client_id config)
       (oa_username config) (oa_client_secret_file config) (oa_scopes config)) (\<lambda>access_token.
     and_then (add_context ''request route-scoped tunnel ticket''
       (oe_post_json env (trim_end_matches (CHR ''/'') (oa_control_plane_url config) @ ''/api/tunnel-tokens'')
          access_token (oe_to_text env (ser_ticket_request (oa_hostname config) client_name)))) (\<lambda>(status, body).
     and_then (ensure (status_success status)
       (''LFP Pipe ticket request returned '' @ show_nat status)) (\<lambda>_.
     and_then (add_context ''decode LFP Pipe ticket response''
       (json_body env de_ticket_response body)) (\<lambda>response.
     and_then (case tr_expires_unix response of
         Some expiry \<Rightarrow> Inr expiry
       | None \<Rightarrow> jwt_expiry env (tr_token response)) (\<lambda>expires_unix.
     let ticket = \<lparr>ot_token = tr_token response, ot_expires_unix = expires_unix,
           ot_client_id = tr_client_id response, ot_request_subject = tr_request_subject response,
           ot_nats_urls = tr_nats_urls response\<rparr> in
     and_then (ensure (ot_token ticket \<noteq> []) ''LFP Pipe returned an empty ticket'') (\<lambda>_.
     and_then (ensure (ot_nats_urls ticket \<noteq> []) ''LFP Pipe returned no NATS endpoints'') (\<lambda>_.
       Inr ticket))))))))"

text \<open>When to renew a ticket of the given lifetime; the additions wrap as in a release build.\<close>

definition renew_after :: "u64 \<Rightarrow> u64 \<Rightarrow> u64" where
  "renew_after renew_before_seconds lifetime =
     (if renew_before_seconds + 5 < lifetime then lifetime - renew_before_seconds
      else max (lifetime div 2) 1)"

section \<open>Lemmas\<close>

lemma de_i64_range: "de_i64 v = Inr i \<Longrightarrow> - (2 ^ 63) \<le> i \<and> i < 2 ^ 63"
  by (cases v) (auto simp: serde_error_def split: if_splits)

lemma de_ticket_expiry:
  assumes "de_ticket_response v = Inr r" "tr_expires_unix r = Some i"
  shows "- (2 ^ 63) \<le> i \<and> i < 2 ^ 63"
proof -
  obtain m where "opt_field ''expires_unix'' de_i64 m = Inr (Some i)"
    using assms by (auto simp: de_ticket_response_def res_simps)
  then obtain w where "de_i64 w = Inr i"
    by (auto simp: field_defs res_simps simp del: de_i64.simps split: option.splits sval.splits)
  then show ?thesis by (rule de_i64_range)
qed

lemma json_body_Inr:
  "json_body env de body = Inr x \<longleftrightarrow> (\<exists>v. oe_from_text env body = Some v \<and> de v = Inr x)"
  by (auto simp: json_body_def serde_error_def split: option.splits)

lemma jwt_expiry_range: "jwt_expiry env token = Inr i \<Longrightarrow> - (2 ^ 63) \<le> i \<and> i < 2 ^ 63"
  by (auto simp: jwt_expiry_def de_jwt_claims_def json_body_Inr req_field_def serde_error_def res_simps
      dest!: de_i64_range split: option.splits)

text \<open>A ticket that was obtained is usable: it has a token, an endpoint to connect to, and an expiry
  within the range of its type.\<close>

lemma obtain_ticket_usable:
  assumes "obtain_ticket env config client_name = Inr t"
  shows "ot_token t \<noteq> []" "ot_nats_urls t \<noteq> []" "- (2 ^ 63) \<le> ot_expires_unix t \<and> ot_expires_unix t < 2 ^ 63"
proof -
  obtain body response where r: "json_body env de_ticket_response body = Inr response"
    and e: "(case tr_expires_unix response of Some expiry \<Rightarrow> Inr expiry
        | None \<Rightarrow> jwt_expiry env (tr_token response)) = Inr (ot_expires_unix t)"
    and t: "ot_token t \<noteq> []" "ot_nats_urls t \<noteq> []"
    using assms by (auto simp: obtain_ticket_def Let_def res_simps)
  from r obtain v where "de_ticket_response v = Inr response" by (auto simp: json_body_Inr)
  with e show "- (2 ^ 63) \<le> ot_expires_unix t \<and> ot_expires_unix t < 2 ^ 63"
    using de_ticket_expiry jwt_expiry_range by (cases "tr_expires_unix response") auto
  from t show "ot_token t \<noteq> []" "ot_nats_urls t \<noteq> []" .
qed

lemma renew_after_bounds:
  assumes "0 < lifetime" "unat renew_before < 2 ^ 63"
  shows "0 < renew_after renew_before lifetime" "renew_after renew_before lifetime \<le> lifetime"
    "renew_after renew_before lifetime = lifetime \<longrightarrow> lifetime = 1 \<or> renew_before = 0"
proof -
  have five: "unat (renew_before + 5) = unat renew_before + 5"
    using assms(2) unat_add_lem [of renew_before 5] by simp
  have "0 < unat lifetime" using assms(1) by (simp add: word_less_nat_alt)
  have "0 < renew_after renew_before lifetime \<and> renew_after renew_before lifetime \<le> lifetime \<and>
    (renew_after renew_before lifetime = lifetime \<longrightarrow> lifetime = 1 \<or> renew_before = 0)"
  proof (cases "renew_before + 5 < lifetime")
    case True
    then have lt: "unat renew_before + 5 < unat lifetime" by (simp add: word_less_nat_alt five)
    then have sub: "unat (lifetime - renew_before) = unat lifetime - unat renew_before"
      by (intro unat_sub) (simp add: word_le_nat_alt)
    have "lifetime - renew_before = lifetime \<longrightarrow> renew_before = 0"
      by (simp add: diff_eq_eq)
    with True lt sub show ?thesis by (simp add: renew_after_def word_less_nat_alt word_le_nat_alt)
  next
    case False
    have half: "unat (lifetime div 2) = unat lifetime div 2" by (simp add: unat_div)
    have m: "unat (max (lifetime div 2) 1) = max (unat lifetime div 2) 1"
      by (simp add: max_def word_le_nat_alt half)
    have "max (lifetime div 2) 1 = lifetime \<longrightarrow> lifetime = 1"
    proof
      assume "max (lifetime div 2) 1 = lifetime"
      with m have "max (unat lifetime div 2) 1 = unat lifetime" by simp
      then have "unat lifetime = 1" using \<open>0 < unat lifetime\<close> by (auto simp: max_def split: if_splits)
      then show "lifetime = 1" by (simp add: word_unat_eq_iff)
    qed
    with False m \<open>0 < unat lifetime\<close> show ?thesis
      by (auto simp: renew_after_def word_less_nat_alt word_le_nat_alt max_def split: if_splits)
  qed
  then show "0 < renew_after renew_before lifetime" "renew_after renew_before lifetime \<le> lifetime"
    "renew_after renew_before lifetime = lifetime \<longrightarrow> lifetime = 1 \<or> renew_before = 0" by blast+
qed

end
