(* ===== verification/Relay.thy ===== *)
theory Relay
  imports Net Config_Types
begin

text \<open>
  Relaying two sockets (\<^verbatim>\<open>shared/src/io.rs\<close>, the Linux build) and the classification of the errors
  a relay ends with (\<^verbatim>\<open>shared/src/logging.rs\<close>). The system calls are answers of \<open>relay_env\<close>: the
  outcome of the probe, of an attempt to splice (refused while its pipes are set up, or the
  bytes it moved and how it ended) and of the buffered copy. The result lists the
  implementations that moved bytes, in order.
\<close>

datatype relay_path = Spliced u64 u64 | Copied

record relay_env =
  re_probe :: "unit res poll"
  re_splice :: "(u64 \<times> u64 \<times> unit res) res"
  re_copy :: "(u64 \<times> u64) res"

text \<open>\<^verbatim>\<open>SPLICE_RELAY_SUPPORTED\<close>: the probe runs once per process.\<close>

definition splice_supported :: "relay_env \<Rightarrow> bool option \<Rightarrow> bool \<times> bool option" where
  "splice_supported env cell = (case cell of
      Some b \<Rightarrow> (b, cell)
    | None \<Rightarrow>
        let b = (case re_probe env of Ready (Inr _) \<Rightarrow> True | Ready (Inl _) \<Rightarrow> False | Pending \<Rightarrow> False) in
        (b, Some b))"

definition copy_bidirectional_buffered :: "relay_env \<Rightarrow> (u64 \<times> u64) res" where
  "copy_bidirectional_buffered env = add_context ''tokio copy_bidirectional failed'' (re_copy env)"

definition buffered_copy_bidirectional :: "relay_env \<Rightarrow> (u64 \<times> u64) res \<times> relay_path list" where
  "buffered_copy_bidirectional env = (copy_bidirectional_buffered env, [Copied])"

definition splice_result :: "u64 \<Rightarrow> u64 \<Rightarrow> unit res \<Rightarrow> (u64 \<times> u64) res" where
  "splice_result tx rx r =
     and_then (add_context (''tokio-splice2 relay failed after '' @ show_nat (unat tx) @
       '' bytes left-to-right and '' @ show_nat (unat rx) @ '' bytes right-to-left'') r) (\<lambda>_. Inr (tx, rx))"

definition splice_copy_bidirectional :: "relay_env \<Rightarrow> (u64 \<times> u64) res \<times> relay_path list" where
  "splice_copy_bidirectional env =
     (case add_context ''failed to initialize tokio-splice2 relay'' (re_splice env) of
        Inl e \<Rightarrow> (Inl e, [])
      | Inr (tx, rx, r) \<Rightarrow> (splice_result tx rx r, [Spliced tx rx]))"

definition copy_bidirectional_with_mode ::
    "relay_env \<Rightarrow> relay_mode \<Rightarrow> bool option \<Rightarrow> ((u64 \<times> u64) res \<times> relay_path list) \<times> bool option" where
  "copy_bidirectional_with_mode env mode cell = (case mode of
      Buffered \<Rightarrow> (buffered_copy_bidirectional env, cell)
    | Splice \<Rightarrow> (splice_copy_bidirectional env, cell)
    | Auto \<Rightarrow>
        (case splice_supported env cell of (supported, cell') \<Rightarrow>
          (if supported then
             (case re_splice env of
                Inr (tx, rx, r) \<Rightarrow> (splice_result tx rx r, [Spliced tx rx])
              | Inl _ \<Rightarrow> buffered_copy_bidirectional env)
           else buffered_copy_bidirectional env, cell')))"

definition copy_bidirectional ::
    "relay_env \<Rightarrow> bool option \<Rightarrow> ((u64 \<times> u64) res \<times> relay_path list) \<times> bool option" where
  "copy_bidirectional env cell = copy_bidirectional_with_mode env Auto cell"

definition expected_kind :: "io_kind \<Rightarrow> bool" where
  "expected_kind k \<longleftrightarrow> k \<in> {BrokenPipe, ConnectionReset, ConnectionAborted}"

definition is_expected_disconnect :: "anyhow \<Rightarrow> bool" where
  "is_expected_disconnect error \<longleftrightarrow> (\<exists>c\<in>set error. case c of Io_cause k \<Rightarrow> expected_kind k | _ \<Rightarrow> False)"

text \<open>Targets other than Linux have the buffered copy only.\<close>

definition copy_bidirectional_portable :: "relay_env \<Rightarrow> relay_mode \<Rightarrow> (u64 \<times> u64) res \<times> relay_path list" where
  "copy_bidirectional_portable env mode = buffered_copy_bidirectional env"

section \<open>The probe\<close>

text \<open>The exchange over two loopback connections that decides whether splicing works: a step either
  succeeds or fails, and a read returns the bytes it got.\<close>

datatype probe_step =
    Bind_left | Bind_right | Address_left | Address_right | Connect_left | Accept_left | Connect_right | Accept_right
  | Write_prefix | Write_request | Write_response | Shutdown_left | Shutdown_right | Join_relay

datatype probe_read = Read_prefix | Peek_request | Read_request | Read_response

record probe_env =
  pb_do :: "probe_step \<Rightarrow> unit res"
  pb_read :: "probe_read \<Rightarrow> nat \<Rightarrow> bytes res"

definition PROBE_PREFIX :: bytes where
  "PROBE_PREFIX = ''probe-prefix'' @ [CHR 0x0A]"

definition PROBE_REQUEST :: bytes where
  "PROBE_REQUEST = ''GET /probe HTTP/1.1'' @ [CHR 0x0D, CHR 0x0A] @ ''Host: splice-probe.local'' @
     [CHR 0x0D, CHR 0x0A, CHR 0x0D, CHR 0x0A]"

definition PROBE_RESPONSE :: bytes where
  "PROBE_RESPONSE = ''HTTP/1.1 204 No Content'' @ [CHR 0x0D, CHR 0x0A] @ ''Content-Length: 0'' @
     [CHR 0x0D, CHR 0x0A, CHR 0x0D, CHR 0x0A]"

definition read_expected :: "probe_env \<Rightarrow> probe_read \<Rightarrow> bytes \<Rightarrow> string \<Rightarrow> unit res" where
  "read_expected env what expected m =
     and_then (pb_read env what (length expected)) (\<lambda>d. ensure (d = expected) m)"

definition probe_splice_relay :: "probe_env \<Rightarrow> unit res" where
  "probe_splice_relay env =
     and_then (for_each_res (pb_do env) [Bind_left, Bind_right, Address_left, Address_right]) (\<lambda>_.
     and_then (for_each_res (pb_do env) [Connect_left, Accept_left, Connect_right, Accept_right]) (\<lambda>_.
     and_then (pb_do env Write_prefix) (\<lambda>_.
     and_then (read_expected env Read_prefix PROBE_PREFIX ''splice probe prefix mismatch'') (\<lambda>_.
     and_then (pb_do env Write_request) (\<lambda>_.
     and_then (pb_read env Peek_request (length PROBE_REQUEST)) (\<lambda>peeked.
     and_then (ensure (0 < length peeked) ''splice probe request peek was empty'') (\<lambda>_.
     and_then (ensure (peeked = take (length peeked) PROBE_REQUEST) ''splice probe peek mismatch'') (\<lambda>_.
     and_then (read_expected env Read_request PROBE_REQUEST ''splice probe request mismatch'') (\<lambda>_.
     and_then (pb_do env Write_response) (\<lambda>_.
     and_then (read_expected env Read_response PROBE_RESPONSE ''splice probe response mismatch'') (\<lambda>_.
       for_each_res (pb_do env) [Shutdown_left, Shutdown_right, Join_relay])))))))))))"

lemma read_expected_Inr: "read_expected env what expected m = Inr u \<longleftrightarrow> pb_read env what (length expected) = Inr expected"
  by (auto simp: read_expected_def res_simps)

text \<open>Without an earlier answer, the automatic mode splices only after a probe in which peeked and
  consumed bytes arrived as they were sent, in both directions, and the relay ended well.\<close>

lemma splice_needs_probe:
  assumes "copy_bidirectional_with_mode (env\<lparr>re_probe := Ready (probe_splice_relay pb)\<rparr>) Auto None = ((r, paths), cell)"
    "Spliced tx rx \<in> set paths"
  shows "pb_read pb Read_request (length PROBE_REQUEST) = Inr PROBE_REQUEST"
    "pb_read pb Read_response (length PROBE_RESPONSE) = Inr PROBE_RESPONSE"
    "\<exists>peeked. pb_read pb Peek_request (length PROBE_REQUEST) = Inr peeked \<and> peeked \<noteq> [] \<and> starts_with peeked PROBE_REQUEST"
    "pb_do pb Join_relay = Inr ()" "cell = Some True"
proof -
  obtain u where p: "probe_splice_relay pb = Inr u" and cell: "cell = Some True"
    using assms by (cases "probe_splice_relay pb")
      (auto simp: copy_bidirectional_with_mode_def splice_supported_def buffered_copy_bidirectional_def)
  note chain = p [unfolded probe_splice_relay_def res_simps read_expected_Inr]
  from chain show "pb_read pb Read_request (length PROBE_REQUEST) = Inr PROBE_REQUEST"
    "pb_read pb Read_response (length PROBE_RESPONSE) = Inr PROBE_RESPONSE" "pb_do pb Join_relay = Inr ()"
    by auto
  from chain obtain peeked where "pb_read pb Peek_request (length PROBE_REQUEST) = Inr peeked" "0 < length peeked"
    "peeked = take (length peeked) PROBE_REQUEST" by blast
  moreover from this have "PROBE_REQUEST = peeked @ drop (length peeked) PROBE_REQUEST"
    by (metis append_take_drop_id)
  ultimately show "\<exists>peeked. pb_read pb Peek_request (length PROBE_REQUEST) = Inr peeked \<and> peeked \<noteq> [] \<and> starts_with peeked PROBE_REQUEST"
    by (auto simp: starts_with_iff)
  show "cell = Some True" by (rule cell)
qed

section \<open>Properties\<close>

lemma is_expected_disconnect_context:
  "add_context m r = Inl e' \<Longrightarrow> \<exists>e. r = Inl e \<and> is_expected_disconnect e' = is_expected_disconnect e"
  by (cases r) (auto simp: is_expected_disconnect_def)

text \<open>A relay moves each byte at most once. Whatever the mode and the kernel answer, at most one
  implementation moves bytes; the automatic mode falls back to the buffered copy only when
  splicing is unsupported or was refused before any byte moved, and a splice that fails on
  the way is reported and never retried. The probe is asked at most once: with its answer
  recorded, later relays do not depend on it.\<close>

theorem relay_moves_once:
  assumes "copy_bidirectional_with_mode env mode cell = ((r, paths), cell')"
  shows "length paths \<le> 1 \<and>
    (\<forall>tx rx f. re_splice env = Inr (tx, rx, f) \<longrightarrow> Spliced tx rx \<in> set paths \<longrightarrow> Copied \<notin> set paths \<and>
       (r = Inr (tx, rx) \<longleftrightarrow> f = Inr ())) \<and>
    (mode = Auto \<and> Copied \<in> set paths \<longrightarrow> cell' = Some False \<or> (\<exists>e. re_splice env = Inl e)) \<and>
    (mode = Auto \<longrightarrow> cell' \<noteq> None) \<and> (mode \<noteq> Auto \<longrightarrow> cell' = cell) \<and>
    (cell = Some b \<longrightarrow> cell' = Some b \<and>
       copy_bidirectional_with_mode (env\<lparr>re_probe := probe\<rparr>) mode cell = ((r, paths), cell'))"
proof -
  have splice: "splice_result tx rx f = Inr (tx, rx) \<longleftrightarrow> f = Inr ()" for tx rx f
    by (auto simp: splice_result_def res_simps)
  show ?thesis
    using assms
    by (cases mode; cases "re_splice env"; cases cell; cases "re_probe env")
      (auto simp: copy_bidirectional_with_mode_def splice_copy_bidirectional_def
        buffered_copy_bidirectional_def copy_bidirectional_buffered_def splice_supported_def splice Let_def
        split: if_splits sum.splits)
qed

definition example_relay :: relay_env where
  "example_relay = \<lparr>re_probe = Pending, re_splice = Inl [], re_copy = Inr (1, 2)\<rparr>"

theorem relay_moves_once_witness:
  "\<exists>r paths cell. copy_bidirectional_with_mode example_relay Auto None = ((r, paths), cell) \<and>
     length paths \<le> 1 \<and> cell \<noteq> None"
proof -
  have c: "copy_bidirectional_with_mode example_relay Auto None = ((Inr (1, 2), [Copied]), Some False)"
    by (simp add: copy_bidirectional_with_mode_def splice_supported_def buffered_copy_bidirectional_def
        copy_bidirectional_buffered_def example_relay_def)
  have "length [Copied] \<le> 1" "Some False \<noteq> None"
    using relay_moves_once [OF c] by simp_all
  with c show ?thesis by blast
qed

end
