(* ===== verification/Client_Tunnel.thy ===== *)
theory Client_Tunnel
  imports Acme Oauth Relay Prefix_Line Config_Load
begin

text \<open>
  The private side of the tunnel (\<^verbatim>\<open>client/src/lib.rs\<close>): starting a route (its authorizers, backends
  and certificate runtime), claiming a connection request, dialing the ingress back, and
  deciding what the tunnel carries. Third-party code and the operating system answer through
  records: \<open>loader_env\<close> when a route starts, \<open>claim_env\<close> for NATS, \<open>bridge_env\<close> for sockets.
\<close>

section \<open>Starting a route\<close>

record loader_env =
  le_auth :: auth_env
  le_algorithm :: "string \<Rightarrow> algorithm option"
  le_home_dir :: "string option"
  le_cache_modified :: "string \<Rightarrow> nat res"
  le_cached_jwks :: "string \<Rightarrow> jwk list res"
  le_read_secret :: "string \<Rightarrow> string res"
  le_http_client :: "unit res"
  le_parse_issuer :: "string \<Rightarrow> unit res"
  le_discover :: "string \<Rightarrow> string res"
  le_cookie_key :: "string \<Rightarrow> bytes res"
  le_namespace :: "string \<times> string option \<times> string \<Rightarrow> string"
  le_create_dir_all :: "string \<Rightarrow> unit res"
  le_set_permissions :: "string \<Rightarrow> nat \<Rightarrow> unit res"

text \<open>\<^verbatim>\<open>authorization::Authorizer::load\<close> in that world.\<close>

definition load_authorizer :: "loader_env \<Rightarrow> client_authorization_config \<Rightarrow> string \<Rightarrow> authorizer res" where
  "load_authorizer env policy hostname =
     authorizer_load
       (jwt_load (le_auth env) (le_algorithm env) (expand_home (le_home_dir env))
          (le_cache_modified env) (le_cached_jwks env) policy)
       (oidc_load (le_http_client env) (le_parse_issuer env) (expand_home (le_home_dir env)) (le_read_secret env) (le_discover env) (le_cookie_key env)
          (le_namespace env) policy hostname)
       policy"

type_synonym loaded_authorizers = "(client_authorization_config \<times> authorizer) list"

definition effective_policy :: "client_config \<Rightarrow> backend_rule \<Rightarrow> client_authorization_config option" where
  "effective_policy config rule =
     (if br_path_prefix rule \<noteq> None then br_authorization rule
      else or_else (br_authorization rule) (cl_authorization config))"

definition endpoints_clash :: "client_authorization_config \<Rightarrow> client_authorization_config \<Rightarrow> bool" where
  "endpoints_clash existing policy \<longleftrightarrow> oidc_enabled existing \<and>
     (az_oidc_callback_path existing = az_oidc_callback_path policy \<or>
      az_oidc_callback_path existing = az_oidc_logout_path policy \<or>
      az_oidc_logout_path existing = az_oidc_callback_path policy \<or>
      az_oidc_logout_path existing = az_oidc_logout_path policy)"

text \<open>The position of the first element with a property.\<close>

fun find_index :: "('a \<Rightarrow> bool) \<Rightarrow> 'a list \<Rightarrow> nat option" where
  "find_index P [] = None"
| "find_index P (x # xs) = (if P x then Some 0 else map_option Suc (find_index P xs))"

text \<open>A loaded authorizer with the same policy is shared, otherwise a new one is loaded.\<close>

definition assign_authorizer ::
    "loader_env \<Rightarrow> string option \<Rightarrow> client_authorization_config \<Rightarrow> loaded_authorizers \<Rightarrow>
     (nat \<times> loaded_authorizers) res" where
  "assign_authorizer env authorization_hostname policy authorizers =
     (case find_index (\<lambda>(existing, _). existing = policy) authorizers of
        Some k \<Rightarrow> Inr (k, authorizers)
      | None \<Rightarrow>
          and_then (if oidc_enabled policy then
              ensure (\<not> (\<exists>(existing, _)\<in>set authorizers. endpoints_clash existing policy))
                ''OIDC policies on the same client route must use distinct callback and logout paths''
            else Inr ()) (\<lambda>_.
          and_then (opt_context ''backend authorization requires an ACME hostname'' authorization_hostname) (\<lambda>hostname.
          and_then (add_context ''initialize backend authorization'' (load_authorizer env policy hostname)) (\<lambda>loaded.
            Inr (length authorizers, authorizers @ [(policy, loaded)])))))"

fun build_backends ::
    "loader_env \<Rightarrow> client_config \<Rightarrow> backend_rule list \<Rightarrow> loaded_authorizers \<Rightarrow>
     (backend_runtime list \<times> loaded_authorizers) res" where
  "build_backends env config [] authorizers = Inr ([], authorizers)"
| "build_backends env config (rule # rules) authorizers =
     and_then (case effective_policy config rule of
         None \<Rightarrow> Inr (None, authorizers)
       | Some policy \<Rightarrow>
           and_then (assign_authorizer env (map_option ac_domain (cl_acme config)) policy authorizers)
             (\<lambda>(k, authorizers). Inr (Some k, authorizers))) (\<lambda>(authorization, authorizers).
     and_then (build_backends env config rules authorizers) (\<lambda>(backends, authorizers).
       Inr (\<lparr>be_rule = rule, be_authorization = authorization\<rparr> # backends, authorizers)))"

record client_state =
  cs_config :: client_config
  cs_acme :: "acme_runtime option"
  cs_backends :: "backend_runtime list"
  cs_authorizers :: "authorizer list"

text \<open>\<^verbatim>\<open>process_messages\<close> up to its loop.\<close>

definition start_session :: "loader_env \<Rightarrow> client_config \<Rightarrow> client_state res" where
  "start_session env config =
     and_then (build_backends env config (cl_backend_rules config) []) (\<lambda>(backends, authorizers).
     and_then (case cl_acme config of
         None \<Rightarrow> Inr None
       | Some acme_config \<Rightarrow>
           and_then (ensure (backends \<noteq> [])
             ''automatic certificates require at least one backend rule per client route'') (\<lambda>_.
           and_then (ensure (list_all (\<lambda>b. eq_ignore_ascii_case (br_pattern (be_rule b)) (ac_domain acme_config)) backends)
             ''automatic certificate domain must exactly match every backend pattern'') (\<lambda>_.
           and_then (acme_start (le_home_dir env) (le_create_dir_all env) (le_set_permissions env) acme_config
             (cl_relay_mode config)) (\<lambda>runtime. Inr (Some runtime))))) (\<lambda>acme.
       Inr \<lparr>cs_config = config, cs_acme = acme, cs_backends = backends, cs_authorizers = map snd authorizers\<rparr>))"

section \<open>Claiming a connection\<close>

text \<open>A NATS message: its reply subject and its payload.\<close>

type_synonym nats_message = "string option \<times> bytes"

record claim_env =
  ce_inbox :: string
  ce_subscribe :: "unit res"
  ce_publish :: "unit res"
  ce_ack :: "nats_message option poll"

text \<open>The acknowledgement, and what was published: subject, reply subject, payload.\<close>

definition submit_claim ::
    "(sval \<Rightarrow> bytes) \<Rightarrow> (bytes \<Rightarrow> sval option) \<Rightarrow> claim_env \<Rightarrow> client_config \<Rightarrow> nats_message \<Rightarrow>
     connection_request \<Rightarrow> connection_claim_ack res \<times> (string \<times> string \<times> bytes) list" where
  "submit_claim to_text from_text nats config message request =
     (let reply_subject = unwrap_or (cr_reply_subject request) (fst message);
          claim = \<lparr>cc_client_id = cl_client_id config, cc_connection_id = cr_connection_id request\<rparr>;
          published = (reply_subject, ce_inbox nats, encode_json to_text ser_connection_claim claim) in
      case and_then (add_context ''failed to subscribe to claim ack subject'' (ce_subscribe nats)) (\<lambda>_.
          add_context ''failed to publish connection claim'' (ce_publish nats)) of
        Inl e \<Rightarrow> (Inl e, [])
      | Inr _ \<Rightarrow>
          (and_then (case ce_ack nats of
              Pending \<Rightarrow> Inl [Msg ''timed out waiting for claim ack'', Ext_cause ''deadline has elapsed'']
            | Ready None \<Rightarrow> bail ''claim ack subscription ended unexpectedly''
            | Ready (Some ack) \<Rightarrow> Inr ack) (\<lambda>ack.
            decode_json from_text de_connection_claim_ack (snd ack)), [published]))"

section \<open>Bridging\<close>

definition connection_is_plaintext_http :: "socket \<Rightarrow> bool \<Rightarrow> bool res" where
  "connection_is_plaintext_http ingress_stream inspect_http =
     (if \<not> inspect_http then Inr False
      else peek_http ''failed to inspect tunneled protocol'' 24 ingress_stream)"

record bridge_env =
  bn_connect :: "string \<Rightarrow> unit res"
  bn_write :: "bytes \<Rightarrow> unit res"

text \<open>The part of \<^verbatim>\<open>bridge_connection\<close> behind the hand-over to the certificate runtime.\<close>

definition bridge_plain ::
    "bridge_env \<Rightarrow> connection_request \<Rightarrow> backend_runtime list \<Rightarrow> bool \<Rightarrow> bool \<Rightarrow> bool \<Rightarrow> tunnel_action res" where
  "bridge_plain net request backends tcp_passthrough inspect_http plaintext_http =
     (if \<not> protocol_allowed plaintext_http tcp_passthrough then Inr Reject_protocol
      else and_then (fallback_backend backends (cr_hostname request)) (\<lambda>backend.
        if plaintext_http \<and> inspect_http then
          and_then (opt_context ''HTTP request has no hostname'' (cr_hostname request)) (\<lambda>hostname.
            Inr (Serve_http hostname (cr_client_ip request) (if cr_tls request then ''https'' else ''http'')))
        else
          let backend_addr = (if plaintext_http then resolved_http_backend_addr (be_rule backend)
                else resolved_backend_addr (be_rule backend)) in
          and_then (add_context (''failed to connect backend '' @ backend_addr) (bn_connect net backend_addr)) (\<lambda>_.
            Inr (Relay_raw backend_addr))))"

text \<open>What became of the tunnel, and the bytes written to the ingress first.\<close>

definition bridge_connection ::
    "(sval \<Rightarrow> bytes) \<Rightarrow> (bytes \<Rightarrow> bytes) \<Rightarrow> bridge_env \<Rightarrow> string \<Rightarrow> connection_request \<Rightarrow> backend_runtime list \<Rightarrow>
     acme_runtime option \<Rightarrow> bool \<Rightarrow> socket \<Rightarrow> tunnel_action res \<times> bytes" where
  "bridge_connection to_text b64_encode net client_id request backends acme tcp_passthrough ingress_stream =
     (case add_context (''failed to connect ingress '' @ cr_ingress_callback_addr request)
         (bn_connect net (cr_ingress_callback_addr request)) of
        Inl e \<Rightarrow> (Inl e, [])
      | Inr _ \<Rightarrow>
          let line = encode_line to_text b64_encode (prefix_new client_id (cr_connection_id request)) in
          case add_context ''failed to write prefix envelope'' (bn_write net line) of
            Inl e \<Rightarrow> (Inl e, [])
          | Inr _ \<Rightarrow>
              let inspect_http = (\<not> tcp_passthrough \<or> acme \<noteq> None \<or>
                    (\<exists>b\<in>set backends. br_http_backend_addr (be_rule b) \<noteq> None \<or> needs_inspection b)) in
              (and_then (connection_is_plaintext_http ingress_stream inspect_http) (\<lambda>plaintext_http.
                 case acme of
                   Some runtime \<Rightarrow>
                     if \<not> plaintext_http then and_then (acme_accept runtime) (\<lambda>_. Inr To_acme)
                     else bridge_plain net request backends tcp_passthrough inspect_http plaintext_http
                 | None \<Rightarrow> bridge_plain net request backends tcp_passthrough inspect_http plaintext_http), line))"

datatype claim_outcome = Not_matching | Not_selected | Bridged tunnel_action

text \<open>\<^verbatim>\<open>handle_request\<close>: the outcome, what was published to NATS, and what was written to the ingress.\<close>

definition handle_tunnel_request ::
    "(sval \<Rightarrow> bytes) \<Rightarrow> (bytes \<Rightarrow> sval option) \<Rightarrow> (bytes \<Rightarrow> bytes) \<Rightarrow> claim_env \<Rightarrow> bridge_env \<Rightarrow> socket \<Rightarrow>
     nats_message \<Rightarrow> client_state \<Rightarrow>
     claim_outcome res \<times> (string \<times> string \<times> bytes) list \<times> bytes" where
  "handle_tunnel_request to_text from_text b64_encode nats net ingress_stream message state =
     (case decode_json from_text de_connection_request (snd message) of
        Inl e \<Rightarrow> (Inl e, [], [])
      | Inr request \<Rightarrow>
          if \<not> (\<exists>b\<in>set (cs_backends state). matches_hostname b (cr_hostname request))
          then (Inr Not_matching, [], [])
          else (case submit_claim to_text from_text nats (cs_config state) message request of
              (Inl e, published) \<Rightarrow> (Inl e, published, [])
            | (Inr ack, published) \<Rightarrow>
                if \<not> ack_accepted ack then (Inr Not_selected, published, [])
                else (case bridge_connection to_text b64_encode net (cl_client_id (cs_config state)) request
                    (cs_backends state) (cs_acme state) (cl_tcp_passthrough (cs_config state)) ingress_stream of
                  (action, line) \<Rightarrow> (and_then action (\<lambda>a. Inr (Bridged a)), published, line))))"

section \<open>Sessions\<close>

datatype session_event = Incoming nats_message | Subscription_closed | Renewal_due

text \<open>The loops of \<^verbatim>\<open>process_messages\<close>: the messages handled, and how the loop ended. Only a session
  with a renewal time wakes up for it.\<close>

fun message_loop :: "bool \<Rightarrow> session_event list \<Rightarrow> nats_message list \<times> unit res poll" where
  "message_loop renews [] = ([], Pending)"
| "message_loop renews (Incoming m # es) = (case message_loop renews es of (ms, r) \<Rightarrow> (m # ms, r))"
| "message_loop renews (Subscription_closed # es) =
     ([], Ready (if renews then bail ''NATS subscription ended before OAuth renewal'' else Inr ()))"
| "message_loop renews (Renewal_due # es) =
     (if renews then ([], Ready (Inr ())) else message_loop renews es)"

definition process_messages ::
    "loader_env \<Rightarrow> unit res \<Rightarrow> client_config \<Rightarrow> u64 option \<Rightarrow> session_event list \<Rightarrow>
     nats_message list \<times> unit res poll" where
  "process_messages env subscribe config renewal events =
     (case and_then (add_context ''failed to subscribe to request subject'' subscribe) (\<lambda>_.
         start_session env config) of
        Inl e \<Rightarrow> ([], Ready (Inl e))
      | Inr state \<Rightarrow> message_loop (renewal \<noteq> None) events)"

text \<open>The world of one round of \<^verbatim>\<open>run_oauth\<close>: the ticket exchange, the clock, NATS and the session.\<close>

record oauth_world =
  ow_oauth :: oauth_env
  ow_now :: "int res"
  ow_nats :: "string \<Rightarrow> string \<Rightarrow> unit res"
  ow_loader :: loader_env
  ow_subscribe :: "string \<Rightarrow> unit res"
  ow_events :: "u64 \<Rightarrow> session_event list"

datatype oauth_round = Again nat | Stopped anyhow | Session_open

text \<open>One round: sleep for some seconds and go on, stop with an error, or stay in the session.\<close>

definition run_oauth_round :: "oauth_world \<Rightarrow> client_config \<Rightarrow> client_oauth_config \<Rightarrow> oauth_round" where
  "run_oauth_round w config oauth_config =
     (case obtain_ticket (ow_oauth w) oauth_config (cl_client_id config) of
        Inl _ \<Rightarrow> Again 10
      | Inr ticket \<Rightarrow>
          if ot_client_id ticket \<noteq> cl_client_id config then
            Stopped [Msg (''control plane normalized client ID to '' @ ot_client_id ticket @
              ''; configure that exact value'')]
          else (case ow_now w of
              Inl e \<Rightarrow> Stopped e
            | Inr now \<Rightarrow>
                if ot_expires_unix ticket \<le> now then Again 5
                else
                  let lifetime = word_of_int (ot_expires_unix ticket - now);
                      renewal = renew_after (oa_renew_before_seconds oauth_config) lifetime in
                  case ow_nats w (hd (ot_nats_urls ticket)) (ot_token ticket) of
                    Inl _ \<Rightarrow> Again 5
                  | Inr _ \<Rightarrow>
                      (case snd (process_messages (ow_loader w) (ow_subscribe w (ot_request_subject ticket)) config
                          (Some renewal) (ow_events w renewal)) of
                        Pending \<Rightarrow> Session_open
                      | Ready (Inl _) \<Rightarrow> Again 2
                      | Ready (Inr _) \<Rightarrow> Again 0)))"

text \<open>The loop, over the worlds of its rounds; it is still running when they are used up.\<close>

fun run_oauth :: "oauth_world list \<Rightarrow> client_config \<Rightarrow> client_oauth_config \<Rightarrow> unit res poll" where
  "run_oauth [] config oauth_config = Pending"
| "run_oauth (w # ws) config oauth_config = (case run_oauth_round w config oauth_config of
      Again _ \<Rightarrow> run_oauth ws config oauth_config
    | Stopped e \<Rightarrow> Ready (Inl e)
    | Session_open \<Rightarrow> Pending)"

text \<open>\<^verbatim>\<open>run_session\<close> without OAuth connects once and processes messages to the end.\<close>

definition inbox_prefix :: "client_config \<Rightarrow> string" where
  "inbox_prefix config = ''_LFP_INBOX.'' @ cl_client_id config"

definition run_session ::
    "oauth_world list \<Rightarrow> loader_env \<Rightarrow> (string \<Rightarrow> string option \<Rightarrow> string \<Rightarrow> unit res) \<Rightarrow> (string \<Rightarrow> unit res) \<Rightarrow>
     session_event list \<Rightarrow> client_config \<Rightarrow> unit res poll" where
  "run_session worlds env connect subscribe events config =
     (case cl_oauth config of
        Some oauth \<Rightarrow> run_oauth worlds config oauth
      | None \<Rightarrow>
          (case add_context ''failed to connect to NATS''
              (connect (cl_nats_url config) (cl_nats_token_file config) (inbox_prefix config)) of
             Inl e \<Rightarrow> Ready (Inl e)
           | Inr _ \<Rightarrow> snd (process_messages env (subscribe (cl_request_subject config)) config None events)))"

text \<open>\<^verbatim>\<open>run_all\<close>: \<open>joined\<close> is the first session to end, with its result, or \<open>None\<close> for a panic.\<close>

definition run_all :: "client_config list \<Rightarrow> (string \<times> unit res) option \<Rightarrow> unit res" where
  "run_all configs joined =
     and_then (ensure (configs \<noteq> []) ''at least one client route is required'') (\<lambda>_.
     and_then (case joined of
         None \<Rightarrow> Inl [Msg ''client route task panicked'', Ext_cause ''panic'']
       | Some j \<Rightarrow> Inr j) (\<lambda>(client_id, result).
     case result of
       Inr _ \<Rightarrow> bail (''client route '' @ client_id @ '' stopped unexpectedly'')
     | Inl e \<Rightarrow> add_context (''client route '' @ client_id @ '' failed'') (Inl e)))"

section \<open>Lemmas\<close>

lemma distinct_map_fst_sorted:
  "sorted_wrt (\<lambda>x y. fst x \<noteq> fst y \<and> P x y) xs \<Longrightarrow> distinct (map fst xs)"
  by (induction xs) auto

lemma find_index_Some: "find_index P xs = Some k \<Longrightarrow> k < length xs \<and> P (xs ! k)"
  by (induction xs arbitrary: k) (auto split: if_splits)

lemma find_index_None: "find_index P xs = None \<longleftrightarrow> (\<forall>x\<in>set xs. \<not> P x)"
  by (induction xs) auto

lemma load_authorizer_Inr:
  assumes "load_authorizer env policy hostname = Inr au"
  shows "au_config au = policy" "au_oidc au \<noteq> None \<longleftrightarrow> oidc_enabled policy"
    "au_bearer au \<noteq> None \<longleftrightarrow> bearer_enabled policy"
  using assms by (auto simp: load_authorizer_def authorizer_load_def res_simps split: if_splits)

text \<open>The authorizers of a route: each was loaded for its policy, no policy twice, and no two of them
  reserve the same endpoint.\<close>

definition loaded_ok :: "loaded_authorizers \<Rightarrow> bool" where
  "loaded_ok as \<longleftrightarrow>
     (\<forall>(p, a)\<in>set as. au_config a = p \<and> (au_oidc a \<noteq> None \<longleftrightarrow> oidc_enabled p)) \<and>
     sorted_wrt (\<lambda>x y. fst x \<noteq> fst y \<and> \<not> (oidc_enabled (fst y) \<and> endpoints_clash (fst x) (fst y))) as"

lemma assign_authorizer_ok:
  assumes "loaded_ok as" "assign_authorizer env hostname policy as = Inr (k, as')"
  shows "loaded_ok as'" "\<exists>ext. as' = as @ ext" "k < length as'" "fst (as' ! k) = policy"
proof -
  have "loaded_ok as' \<and> (\<exists>ext. as' = as @ ext) \<and> k < length as' \<and> fst (as' ! k) = policy"
  proof (cases "find_index (\<lambda>(existing, _). existing = policy) as")
    case (Some j)
    with assms find_index_Some [OF Some] show ?thesis
      by (auto simp: assign_authorizer_def split: prod.splits)
  next
    case None
    then have fresh: "\<forall>x\<in>set as. fst x \<noteq> policy" by (auto simp: find_index_None)
    from None assms(2) obtain h loaded where as': "as' = as @ [(policy, loaded)]" "k = length as"
      and l: "load_authorizer env policy h = Inr loaded"
      and clash: "oidc_enabled policy \<longrightarrow> \<not> (\<exists>(existing, _)\<in>set as. endpoints_clash existing policy)"
      by (auto simp: assign_authorizer_def res_simps split: if_splits)
    have "loaded_ok as'"
      using assms(1) fresh clash load_authorizer_Inr [OF l]
      by (auto simp: loaded_ok_def as' sorted_wrt_append)
    with as' show ?thesis by simp
  qed
  then show "loaded_ok as'" "\<exists>ext. as' = as @ ext" "k < length as'" "fst (as' ! k) = policy" by blast+
qed

definition backend_ok :: "client_config \<Rightarrow> loaded_authorizers \<Rightarrow> backend_runtime \<Rightarrow> bool" where
  "backend_ok config as b \<longleftrightarrow> (case be_authorization b of
      None \<Rightarrow> effective_policy config (be_rule b) = None
    | Some k \<Rightarrow> k < length as \<and> effective_policy config (be_rule b) = Some (fst (as ! k)))"

lemma backend_ok_extend: "backend_ok config as b \<Longrightarrow> backend_ok config (as @ ext) b"
  by (auto simp: backend_ok_def nth_append split: option.splits)

lemma build_backends_ok:
  assumes "loaded_ok as" "build_backends env config rules as = Inr (bs, as')"
  shows "loaded_ok as' \<and> (\<exists>ext. as' = as @ ext) \<and> map be_rule bs = rules \<and> list_all (backend_ok config as') bs"
  using assms
proof (induction rules arbitrary: as bs)
  case Nil
  then show ?case by simp
next
  case (Cons rule rules)
  from Cons.prems(2) obtain auth as1 bs' where
    first: "(case effective_policy config rule of
         None \<Rightarrow> Inr (None, as)
       | Some policy \<Rightarrow> and_then (assign_authorizer env (map_option ac_domain (cl_acme config)) policy as)
           (\<lambda>(k, as). Inr (Some k, as))) = Inr (auth, as1)"
    and rest: "build_backends env config rules as1 = Inr (bs', as')"
    and bs: "bs = \<lparr>be_rule = rule, be_authorization = auth\<rparr> # bs'"
    by (auto simp: res_simps)
  have one: "loaded_ok as1 \<and> (\<exists>ext. as1 = as @ ext) \<and>
      backend_ok config as1 \<lparr>be_rule = rule, be_authorization = auth\<rparr>"
  proof (cases "effective_policy config rule")
    case None
    with first Cons.prems(1) show ?thesis by (auto simp: backend_ok_def)
  next
    case (Some policy)
    with first obtain k where "assign_authorizer env (map_option ac_domain (cl_acme config)) policy as = Inr (k, as1)"
      "auth = Some k"
      by (auto simp: res_simps)
    with assign_authorizer_ok [OF Cons.prems(1) this(1)] Some show ?thesis by (auto simp: backend_ok_def)
  qed
  from Cons.IH [OF _ rest] one obtain ext where "loaded_ok as'" "as' = as1 @ ext" "map be_rule bs' = rules"
    "list_all (backend_ok config as') bs'" by blast
  with one bs backend_ok_extend show ?case by auto
qed

lemma handles_endpoint_clash:
  assumes "loaded_ok as" "j < k" "k < length as" "handles_endpoint (snd (as ! j)) path"
    "handles_endpoint (snd (as ! k)) path"
  shows False
proof -
  have each: "au_config (snd (as ! i)) = fst (as ! i) \<and> (au_oidc (snd (as ! i)) \<noteq> None \<longleftrightarrow> oidc_enabled (fst (as ! i)))"
    if "i < length as" for i
    using assms(1) nth_mem [OF that] by (auto simp: loaded_ok_def split: prod.splits)
  have "\<not> (oidc_enabled (fst (as ! k)) \<and> endpoints_clash (fst (as ! j)) (fst (as ! k)))"
    using assms(1-3) by (auto simp: loaded_ok_def sorted_wrt_iff_nth_less)
  with assms(2-5) each [of j] each [of k] show False
    by (auto simp: handles_endpoint_def endpoints_clash_def)
qed

lemma start_session_Inr:
  assumes "start_session env config = Inr state"
  obtains as where "loaded_ok as" "cs_authorizers state = map snd as" "cs_config state = config"
    "map be_rule (cs_backends state) = cl_backend_rules config" "list_all (backend_ok config as) (cs_backends state)"
    "cs_acme state = None \<longleftrightarrow> cl_acme config = None"
    "\<And>acme. cl_acme config = Some acme \<Longrightarrow> cs_backends state \<noteq> [] \<and> cl_relay_mode config \<noteq> Splice \<and>
       list_all (\<lambda>b. eq_ignore_ascii_case (br_pattern (be_rule b)) (ac_domain acme)) (cs_backends state)"
proof -
  obtain bs as acme where b: "build_backends env config (cl_backend_rules config) [] = Inr (bs, as)"
    and acme: "(case cl_acme config of
         None \<Rightarrow> Inr None
       | Some acme_config \<Rightarrow>
           and_then (ensure (bs \<noteq> [])
             ''automatic certificates require at least one backend rule per client route'') (\<lambda>_.
           and_then (ensure (list_all (\<lambda>b. eq_ignore_ascii_case (br_pattern (be_rule b)) (ac_domain acme_config)) bs)
             ''automatic certificate domain must exactly match every backend pattern'') (\<lambda>_.
           and_then (acme_start (le_home_dir env) (le_create_dir_all env) (le_set_permissions env) acme_config
             (cl_relay_mode config)) (\<lambda>runtime. Inr (Some runtime))))) = Inr acme"
    and s: "state = \<lparr>cs_config = config, cs_acme = acme, cs_backends = bs, cs_authorizers = map snd as\<rparr>"
    using assms by (auto simp: start_session_def res_simps)
  have "loaded_ok []" by (simp add: loaded_ok_def)
  from build_backends_ok [OF this b] acme s that [of as] show thesis
    by (auto simp: res_simps acme_start_def split: option.splits)
qed

lemma bridge_plain_relay:
  assumes "bridge_plain net request backends tcp_passthrough inspect plaintext = Inr (Relay_raw addr)"
  shows "tcp_passthrough \<or> plaintext \<and> \<not> inspect"
  using assms by (auto simp: bridge_plain_def protocol_allowed_def Let_def res_simps split: if_splits)

lemma plaintext_inspected:
  "connection_is_plaintext_http stream inspect = Inr True \<Longrightarrow> inspect"
  by (auto simp: connection_is_plaintext_http_def split: if_splits)

lemma bridge_connection_relay:
  assumes "bridge_connection to_text b64_encode net client_id request backends acme tcp_passthrough stream =
    (Inr (Relay_raw addr), line)"
  shows "tcp_passthrough"
proof -
  obtain inspect plaintext where "connection_is_plaintext_http stream inspect = Inr plaintext"
    "bridge_plain net request backends tcp_passthrough inspect plaintext = Inr (Relay_raw addr)"
    using assms by (auto simp: bridge_connection_def Let_def res_simps split: sum.splits option.splits if_splits)
  with bridge_plain_relay [OF this(2)] plaintext_inspected [of stream inspect] show ?thesis by auto
qed

lemma bridge_connection_line:
  assumes "bridge_connection to_text b64_encode net client_id request backends acme tcp_passthrough stream = (r, line)"
  shows "line \<in> {[], encode_line to_text b64_encode (prefix_new client_id (cr_connection_id request))}"
    "\<exists>a. r = Inr a \<Longrightarrow> line = encode_line to_text b64_encode (prefix_new client_id (cr_connection_id request))"
  using assms by (auto simp: bridge_connection_def Let_def split: sum.splits)

lemma handle_tunnel_request_cases:
  assumes "handle_tunnel_request to_text from_text b64_encode nats net stream message state = (r, published, line)"
  obtains (silent) "published = []" "line = []" "\<nexists>a. r = Inr (Bridged a)"
  | (claimed) request ack where "decode_json from_text de_connection_request (snd message) = Inr request"
      "\<exists>b\<in>set (cs_backends state). matches_hostname b (cr_hostname request)"
      "submit_claim to_text from_text nats (cs_config state) message request = (ack, published)"
      "line = []" "\<forall>a. ack = Inr a \<longrightarrow> \<not> ack_accepted a" "\<nexists>a. r = Inr (Bridged a)"
  | (bridged) request ack action where "decode_json from_text de_connection_request (snd message) = Inr request"
      "\<exists>b\<in>set (cs_backends state). matches_hostname b (cr_hostname request)"
      "submit_claim to_text from_text nats (cs_config state) message request = (Inr ack, published)"
      "ack_accepted ack"
      "bridge_connection to_text b64_encode net (cl_client_id (cs_config state)) request (cs_backends state)
         (cs_acme state) (cl_tcp_passthrough (cs_config state)) stream = (action, line)"
      "r = and_then action (\<lambda>a. Inr (Bridged a))"
proof -
  consider (bad) e where "decode_json from_text de_connection_request (snd message) = Inl e"
    | (ok) request where "decode_json from_text de_connection_request (snd message) = Inr request"
    by (cases "decode_json from_text de_connection_request (snd message)") auto
  then show thesis
  proof cases
    case bad
    with assms silent show ?thesis by (auto simp: handle_tunnel_request_def)
  next
    case ok
    note h = assms [unfolded handle_tunnel_request_def ok sum.case]
    show ?thesis
    proof (cases "\<exists>b\<in>set (cs_backends state). matches_hostname b (cr_hostname request)")
      case False
      with h silent show ?thesis by auto
    next
      case True
      obtain ack pub where s: "submit_claim to_text from_text nats (cs_config state) message request = (ack, pub)"
        by force
      show ?thesis
      proof (cases "\<exists>a. ack = Inr a \<and> ack_accepted a")
        case False
        with h True s have "published = pub" "line = []" "\<nexists>a. r = Inr (Bridged a)" by (cases ack; auto)+
        with claimed [OF ok True, of ack] s False show ?thesis by auto
      next
        case acc: True
        then obtain a where a: "ack = Inr a" "ack_accepted a" by blast
        obtain action l where b: "bridge_connection to_text b64_encode net (cl_client_id (cs_config state)) request
            (cs_backends state) (cs_acme state) (cl_tcp_passthrough (cs_config state)) stream = (action, l)" by force
        from h True s a b have "published = pub" "line = l" "r = and_then action (\<lambda>a. Inr (Bridged a))" by auto
        with bridged [OF ok True, of a] s a b show ?thesis by simp
      qed
    qed
  qed
qed

lemma submit_claim_published:
  assumes "submit_claim to_text from_text nats config message request = (r, published)"
  shows "published \<in> {[], [(unwrap_or (cr_reply_subject request) (fst message), ce_inbox nats,
      encode_json to_text ser_connection_claim
        \<lparr>cc_client_id = cl_client_id config, cc_connection_id = cr_connection_id request\<rparr>)]}"
    "\<exists>a. r = Inr a \<Longrightarrow> published \<noteq> []"
  using assms by (auto simp: submit_claim_def Let_def split: sum.splits)

text \<open>The acknowledgement of a claim arrived and accepts it.\<close>

definition claim_accepted :: "(bytes \<Rightarrow> sval option) \<Rightarrow> claim_env \<Rightarrow> bool" where
  "claim_accepted from_text nats \<longleftrightarrow> (\<exists>reply payload ack. ce_ack nats = Ready (Some (reply, payload)) \<and>
     decode_json from_text de_connection_claim_ack payload = Inr ack \<and> ack_accepted ack)"

lemma submit_claim_accepted:
  "submit_claim to_text from_text nats config message request = (Inr ack, published) \<Longrightarrow> ack_accepted ack \<Longrightarrow>
   claim_accepted from_text nats"
  by (auto simp: submit_claim_def claim_accepted_def Let_def bail_def res_simps split: sum.splits poll.splits option.splits)

lemma handle_tunnel_request_unaccepted:
  assumes "\<not> claim_accepted from_text nats"
  shows "handle_tunnel_request to_text from_text b64_encode nats net stream message state =
    handle_tunnel_request to_text from_text b64_encode nats net' stream' message state"
  using assms submit_claim_accepted
  by (fastforce simp: handle_tunnel_request_def split: sum.split prod.split)

section \<open>Properties\<close>

text \<open>C15: a route that starts protects what it was told to protect. Its backends are the configured
  rules in their order; each has the authorizer of its effective policy (its own, or for the
  fallback the client's), and none only when no policy applies; equal policies share one
  authorizer, and two authorizers never reserve the same login endpoint, so an endpoint is
  always answered by the policy that owns it. A route with a certificate runtime serves
  only rules for its own domain and never splices.\<close>

theorem route_backends_protected:
  assumes "start_session env config = Inr state"
  shows "map be_rule (cs_backends state) = cl_backend_rules config \<and>
    (\<forall>b\<in>set (cs_backends state). case be_authorization b of
       None \<Rightarrow> effective_policy config (be_rule b) = None
     | Some k \<Rightarrow> k < length (cs_authorizers state) \<and>
         effective_policy config (be_rule b) = Some (au_config (cs_authorizers state ! k))) \<and>
    distinct (map au_config (cs_authorizers state)) \<and>
    (\<forall>j k path. j < length (cs_authorizers state) \<and> k < length (cs_authorizers state) \<and>
       handles_endpoint (cs_authorizers state ! j) path \<and> handles_endpoint (cs_authorizers state ! k) path \<longrightarrow> j = k) \<and>
    (\<forall>acme. cl_acme config = Some acme \<longrightarrow> cl_relay_mode config \<noteq> Splice \<and>
       (\<forall>b\<in>set (cs_backends state). eq_ignore_ascii_case (br_pattern (be_rule b)) (ac_domain acme)))"
  using assms
proof (rule start_session_Inr)
  fix as
  assume as: "loaded_ok as" "cs_authorizers state = map snd as"
    and bs: "map be_rule (cs_backends state) = cl_backend_rules config"
      "list_all (backend_ok config as) (cs_backends state)"
    and acme: "\<And>acme. cl_acme config = Some acme \<Longrightarrow> cs_backends state \<noteq> [] \<and> cl_relay_mode config \<noteq> Splice \<and>
       list_all (\<lambda>b. eq_ignore_ascii_case (br_pattern (be_rule b)) (ac_domain acme)) (cs_backends state)"
  have config: "map au_config (map snd as) = map fst as"
    using as(1) by (auto simp: loaded_ok_def)
  have len: "length (cs_authorizers state) = length as"
    and nth: "k < length as \<Longrightarrow> cs_authorizers state ! k = snd (as ! k)" for k
    by (simp_all add: as(2))
  have "map au_config (cs_authorizers state) = map fst as" unfolding as(2) by (rule config)
  moreover have "distinct (map fst as)"
    using as(1) by (auto simp: loaded_ok_def distinct_map_fst_sorted)
  moreover have "j = k" if "j < length as" "k < length as" "handles_endpoint (cs_authorizers state ! j) path"
    "handles_endpoint (cs_authorizers state ! k) path" for j k path
    using that handles_endpoint_clash [OF as(1)] by (metis linorder_neqE_nat nth)
  moreover have "case be_authorization b of
       None \<Rightarrow> effective_policy config (be_rule b) = None
     | Some k \<Rightarrow> k < length (cs_authorizers state) \<and>
         effective_policy config (be_rule b) = Some (au_config (cs_authorizers state ! k))"
    if "b \<in> set (cs_backends state)" for b
  proof -
    have "backend_ok config as b" using bs(2) that by (simp add: list_all_iff)
    moreover have "au_config (cs_authorizers state ! k) = fst (as ! k)" if "k < length as" for k
      using arg_cong [OF config, of "\<lambda>xs. xs ! k"] that by (simp add: nth)
    ultimately show ?thesis by (auto simp: backend_ok_def len split: option.splits)
  qed
  ultimately show ?thesis
    using bs(1) acme by (intro conjI) (auto simp: len list_all_iff)
qed

definition example_loader :: loader_env where
  "example_loader =
     \<lparr>le_auth = example_env, le_algorithm = (\<lambda>_. Some RS256), le_home_dir = Some ''/home/u'',
      le_cache_modified = (\<lambda>_. Inl []), le_cached_jwks = (\<lambda>_. Inl []), le_read_secret = Inr, le_http_client = Inr (), le_parse_issuer = (\<lambda>_. Inr ()), le_discover = Inr,
      le_cookie_key = (\<lambda>_. Inr []), le_namespace = (\<lambda>_. ''n''), le_create_dir_all = (\<lambda>_. Inr ()),
      le_set_permissions = (\<lambda>_ _. Inr ())\<rparr>"

definition example_client :: client_config where
  "example_client =
     \<lparr>cl_client_id = ''a'', cl_nats_url = ''nats://n'', cl_nats_token_file = None, cl_oauth = None,
      cl_acme = Some \<lparr>ac_domain = ''h'', ac_contacts = [], ac_cache_dir = ''/c'', ac_production = False,
        ac_directory_url = None\<rparr>,
      cl_authorization = Some example_policy, cl_tcp_passthrough = False, cl_relay_mode = Auto,
      cl_request_subject = ''s'', cl_claim_ack_timeout_ms = 1000, cl_backend_rules = [example_rule]\<rparr>"

lemma example_load: "\<exists>au. load_authorizer example_loader example_policy ''h'' = Inr au"
proof -
  have "\<exists>f. expand_home (Some ''/home/u'') p = Inr f" for p
    by (auto simp: expand_home_def split: option.splits)
  then obtain f g where f: "expand_home (Some ''/home/u'') default_jwks_cache_file = Inr f"
    and g: "expand_home (Some ''/home/u'') default_oidc_session_key_file = Inr g" by blast
  have "\<exists>ja. jwt_load example_env (\<lambda>_. Some RS256) (expand_home (Some ''/home/u'')) (\<lambda>_. Inl []) (\<lambda>_. Inl []) example_policy = Inr ja"
    by (simp add: jwt_load_def Let_def parse_algorithm_def fetch_jwks_def example_env_def
        example_policy_def default_jwt_algorithms_def f)
  moreover have "\<exists>oz. oidc_load (Inr ()) (\<lambda>_. Inr ()) (expand_home (Some ''/home/u'')) Inr Inr (\<lambda>_. Inr []) (\<lambda>_. ''n'') example_policy ''h'' = Inr oz"
    by (simp add: oidc_load_def Let_def example_policy_def g)
  ultimately show ?thesis
    by (auto simp: load_authorizer_def authorizer_load_def example_loader_def)
qed

lemma example_client_simps:
  "cl_backend_rules example_client = [example_rule]" "cl_relay_mode example_client = Auto"
  "cl_authorization example_client = Some example_policy" "map_option ac_domain (cl_acme example_client) = Some ''h''"
  "br_path_prefix example_rule = None" "br_authorization example_rule = None" "br_pattern example_rule = ''h''"
  by (simp_all add: example_client_def example_rule_def)

lemma example_start:
  "\<exists>au acme. load_authorizer example_loader example_policy ''h'' = Inr au \<and>
     start_session example_loader example_client = Inr \<lparr>cs_config = example_client, cs_acme = acme,
       cs_backends = [example_runtime], cs_authorizers = [au]\<rparr>"
proof -
  obtain au where au: "load_authorizer example_loader example_policy ''h'' = Inr au" using example_load by blast
  have p: "effective_policy example_client example_rule = Some example_policy"
    by (simp add: effective_policy_def example_client_simps)
  have "assign_authorizer example_loader (Some ''h'') example_policy [] = Inr (0, [(example_policy, au)])"
    by (simp add: assign_authorizer_def au)
  then have b: "build_backends example_loader example_client [example_rule] [] =
      Inr ([\<lparr>be_rule = example_rule, be_authorization = Some 0\<rparr>], [(example_policy, au)])"
    by (simp add: p example_client_simps)
  obtain acme where acme: "cl_acme example_client = Some acme" "ac_domain acme = ''h''" "ac_cache_dir acme = ''/c''"
    by (simp add: example_client_def)
  then obtain rt where "acme_start (le_home_dir example_loader) (le_create_dir_all example_loader)
      (le_set_permissions example_loader) acme Auto = Inr rt"
    by (simp add: acme_start_def prepare_cache_dir_def example_loader_def expand_home_def)
  then show ?thesis
    unfolding start_session_def example_client_simps b and_then_simps prod.case acme option.case
    by (simp add: acme example_client_simps au example_runtime_def)
qed

theorem route_backends_protected_witness:
  "\<exists>state. start_session example_loader example_client = Inr state \<and>
     map be_rule (cs_backends state) = [example_rule] \<and>
     (\<forall>b\<in>set (cs_backends state). be_authorization b \<noteq> None)"
proof -
  obtain state where s: "start_session example_loader example_client = Inr state"
    using example_start by blast
  note p = route_backends_protected [OF s]
  from p have rules: "map be_rule (cs_backends state) = [example_rule]" by (simp add: example_client_simps)
  have "be_authorization b \<noteq> None" if "b \<in> set (cs_backends state)" for b
  proof
    assume "be_authorization b = None"
    with p that have "effective_policy example_client (be_rule b) = None" by fastforce
    moreover have "be_rule b = example_rule" using rules that by (metis image_eqI list.set_map empty_iff insert_iff list.set)
    ultimately show False by (simp add: effective_policy_def example_client_simps)
  qed
  with s rules show ?thesis by (intro exI [of _ state] conjI ballI)
qed

text \<open>C13: an HTTP-only route never relays raw bytes. With TCP passthrough disabled no tunnel, plain
  or after local TLS termination, ends in a raw relay to a backend, and a stream that does
  not begin like an HTTP request is rejected before any backend is dialed; bytes reach a
  backend only through the proxy.\<close>

theorem http_only_never_relays:
  assumes "\<not> cl_tcp_passthrough (cs_config state)"
  shows "fst (handle_tunnel_request to_text from_text b64_encode nats net stream message state) \<noteq>
      Inr (Bridged (Relay_raw addr)) \<and>
    bridge_tls connect hostname client_ip backends (cl_tcp_passthrough (cs_config state)) stream \<noteq> Inr (Relay_raw addr) \<and>
    (fallback_backend backends (Some hostname) = Inr b \<and> sock_read (8 * 1024) stream = Got d rest \<and>
       \<not> looks_like_http_prefix d \<longrightarrow>
     bridge_tls connect hostname client_ip backends (cl_tcp_passthrough (cs_config state)) stream = Inr Reject_protocol)"
proof -
  have "fst (handle_tunnel_request to_text from_text b64_encode nats net stream message state) \<noteq>
      Inr (Bridged (Relay_raw addr))"
  proof
    assume h: "fst (handle_tunnel_request to_text from_text b64_encode nats net stream message state) =
      Inr (Bridged (Relay_raw addr))"
    obtain r published line where
      e: "handle_tunnel_request to_text from_text b64_encode nats net stream message state = (r, published, line)"
      using prod_cases3 by blast
    from e show False
    proof (cases rule: handle_tunnel_request_cases)
      case (bridged request ack action)
      with h e have "action = Inr (Relay_raw addr)" by (cases action) auto
      with bridge_connection_relay bridged(5) assms show False by blast
    qed (use h e in auto)
  qed
  moreover have "bridge_tls connect hostname client_ip backends (cl_tcp_passthrough (cs_config state)) stream \<noteq>
      Inr (Relay_raw addr)"
    using bridge_tls_relay(1) assms by blast
  ultimately show ?thesis
    using assms by (auto simp: bridge_tls_def Let_def peek_http_def sock_peek_def protocol_allowed_def)
qed

theorem http_only_never_relays_witness:
  "bridge_tls (\<lambda>_. Inr ()) ''h'' None [example_runtime] False [Data ''SSH-2.0''] = Inr Reject_protocol"
proof -
  have "\<not> looks_like_http_prefix ''SSH-2.0''" by code_simp
  moreover have "fallback_backend [example_runtime] (Some ''h'') = Inr example_runtime"
    by (simp add: fallback_backend_def matches_hostname_def example_runtime_def example_rule_def matches_pattern_def)
  moreover have "sock_read (8 * 1024) [Data ''SSH-2.0''] = Got ''SSH-2.0'' []" by simp
  ultimately show ?thesis
    using http_only_never_relays [of
        "\<lparr>cs_config = example_client, cs_acme = None, cs_backends = [], cs_authorizers = []\<rparr>" unary_text unary_parse
        hex_encode "\<lparr>ce_inbox = [], ce_subscribe = Inr (), ce_publish = Inr (), ce_ack = Pending\<rparr>"
        "\<lparr>bn_connect = \<lambda>_. Inr (), bn_write = \<lambda>_. Inr ()\<rparr>" "[Data ''SSH-2.0'']" "(None, [])" "[]" "\<lambda>_. Inr ()" "''h''"
        None "[example_runtime]" example_runtime "''SSH-2.0''" "[]"]
    by (simp add: example_client_def)
qed

text \<open>With TCP passthrough enabled, which is the default, authorization can be bypassed. A peer that
  stays silent for the two seconds of inspection, or whose first bytes do not look like HTTP,
  is relayed raw to the fallback backend, whether or not that backend has an authorizer; what
  it sends afterwards is never inspected.\<close>

theorem passthrough_skips_authorization:
  assumes "fallback_backend backends (Some hostname) = Inr b" "be_authorization b = Some k"
    "connect (resolved_backend_addr (be_rule b)) = Inr ()"
    "stream = [] \<or> (\<exists>d rest. stream = Data d # rest \<and> d \<noteq> [] \<and> \<not> looks_like_http_prefix (take 8192 d))"
  shows "bridge_tls connect hostname client_ip backends True stream =
    Inr (Relay_raw (resolved_backend_addr (be_rule b)))"
proof -
  have "peek_http m 8192 stream = Inr False" for m
    using assms(4) by (auto simp: peek_http_def sock_peek_def)
  with assms show ?thesis
    by (auto simp: bridge_tls_def Let_def protocol_allowed_def)
qed

theorem passthrough_skips_authorization_witness:
  "bridge_tls (\<lambda>_. Inr ()) ''h'' None [example_runtime] True [Data ''PROPFIND / HTTP/1.1''] =
   Inr (Relay_raw (resolved_backend_addr example_rule))"
proof -
  have http: "\<not> looks_like_http_prefix ''PROPFIND / HTTP/1.1''" by code_simp
  have fb: "fallback_backend [example_runtime] (Some ''h'') = Inr example_runtime"
    by (simp add: fallback_backend_def matches_hostname_def example_runtime_def example_rule_def matches_pattern_def)
  show ?thesis
    using passthrough_skips_authorization [OF fb, of 0 "\<lambda>_. Inr ()" "[Data ''PROPFIND / HTTP/1.1'']" None] http
    by (simp add: example_proxy_simps)
qed

text \<open>C31: a client speaks only for itself and only when it won. Whatever message arrives, the client
  publishes nothing unless one of its backends serves the requested host, and then, where NATS
  accepts it, exactly one claim: to the reply subject of the message, or to the one of the request
  when the message has none, under its own id and for the requested connection. Until an
  acknowledgement accepts it, nothing depends on what dialing, writing or reading a tunnel
  would give: no connection is used. What it writes first to the ingress is the prefix line of
  its own id and that connection, and it bridges only after it claimed and wrote it.\<close>

theorem claim_discipline:
  assumes "handle_tunnel_request to_text from_text b64_encode nats net stream message state = (r, published, line)"
  shows "(published \<noteq> [] \<longrightarrow> (\<exists>request. decode_json from_text de_connection_request (snd message) = Inr request \<and>
        (\<exists>b\<in>set (cs_backends state). matches_hostname b (cr_hostname request)) \<and>
        published = [(case fst message of Some reply \<Rightarrow> reply | None \<Rightarrow> cr_reply_subject request, ce_inbox nats,
          encode_json to_text ser_connection_claim
            \<lparr>cc_client_id = cl_client_id (cs_config state), cc_connection_id = cr_connection_id request\<rparr>)])) \<and>
    (\<forall>request. decode_json from_text de_connection_request (snd message) = Inr request \<longrightarrow>
        (\<exists>b\<in>set (cs_backends state). matches_hostname b (cr_hostname request)) \<longrightarrow>
        ce_subscribe nats = Inr () \<longrightarrow> ce_publish nats = Inr () \<longrightarrow> published \<noteq> []) \<and>
    (\<not> claim_accepted from_text nats \<longrightarrow> line = [] \<and> (\<forall>net' stream'.
        handle_tunnel_request to_text from_text b64_encode nats net' stream' message state = (r, published, line))) \<and>
    (line \<noteq> [] \<longrightarrow> (\<exists>request. decode_json from_text de_connection_request (snd message) = Inr request \<and>
        line = encode_line to_text b64_encode
          (prefix_new (cl_client_id (cs_config state)) (cr_connection_id request)))) \<and>
    ((\<exists>a. r = Inr (Bridged a)) \<longrightarrow> published \<noteq> [] \<and> line \<noteq> [])"
proof -
  have quiet: "handle_tunnel_request to_text from_text b64_encode nats net' stream' message state = (r, published, line)"
    if "\<not> claim_accepted from_text nats" for net' stream'
    using assms that handle_tunnel_request_unaccepted by metis
  have claims: "\<forall>request. decode_json from_text de_connection_request (snd message) = Inr request \<longrightarrow>
      (\<exists>b\<in>set (cs_backends state). matches_hostname b (cr_hostname request)) \<longrightarrow>
      ce_subscribe nats = Inr () \<longrightarrow> ce_publish nats = Inr () \<longrightarrow> published \<noteq> []"
    using assms
    by (auto simp: handle_tunnel_request_def submit_claim_def Let_def split: sum.splits if_splits prod.splits)
  show ?thesis
    using assms
  proof (cases rule: handle_tunnel_request_cases)
    case silent
    then show ?thesis using quiet claims by simp
  next
    case (claimed request ack)
    with submit_claim_published(1) [OF claimed(3)] quiet claims show ?thesis
      by (auto simp: unwrap_or_def)
  next
    case (bridged request ack action)
    have "claim_accepted from_text nats" by (rule submit_claim_accepted [OF bridged(3,4)])
    moreover have "line \<in> {[], encode_line to_text b64_encode
        (prefix_new (cl_client_id (cs_config state)) (cr_connection_id request))}"
      "(\<exists>a. r = Inr (Bridged a)) \<longrightarrow> line \<noteq> []"
      using bridge_connection_line [OF bridged(5)] bridged(6) by (auto simp: encode_line_def res_simps)
    moreover have "published \<noteq> []" using submit_claim_published(2) [OF bridged(3)] by blast
    ultimately show ?thesis
      using submit_claim_published(1) [OF bridged(3)] bridged(1,2) by (auto simp: unwrap_or_def)
  qed
qed

text \<open>A request for the host of the example route, a NATS that grants the claim, and the state of a
  route for HTTP only.\<close>

definition example_tunnel_request :: connection_request where
  "example_tunnel_request =
     \<lparr>cr_connection_id = ''b'', cr_hostname = Some ''h'', cr_client_ip = None, cr_tls = False,
      cr_reply_subject = ''r'', cr_ingress_callback_addr = ''i:1'', cr_deadline_unix_ms = 0\<rparr>"

definition example_grant :: "(sval \<Rightarrow> bytes) \<Rightarrow> claim_env" where
  "example_grant to_text =
     \<lparr>ce_inbox = ''inbox'', ce_subscribe = Inr (), ce_publish = Inr (),
      ce_ack = Ready (Some (None, encode_json to_text ser_connection_claim_ack
        \<lparr>ack_accepted = True, ack_client_id = ''a'', ack_connection_id = ''b'', ack_reason = None\<rparr>))\<rparr>"

definition example_net :: bridge_env where
  "example_net = \<lparr>bn_connect = \<lambda>_. Inr (), bn_write = \<lambda>_. Inr ()\<rparr>"

definition example_client_state :: client_state where
  "example_client_state =
     \<lparr>cs_config = example_client, cs_acme = None, cs_backends = [example_runtime], cs_authorizers = []\<rparr>"

definition example_claim_to :: "(sval \<Rightarrow> bytes) \<Rightarrow> string \<Rightarrow> string \<times> string \<times> bytes" where
  "example_claim_to to_text subject =
     (subject, ''inbox'', encode_json to_text ser_connection_claim \<lparr>cc_client_id = ''a'', cc_connection_id = ''b''\<rparr>)"

lemma example_bridged:
  assumes "\<And>v. from_text (to_text v) = Some v"
  shows "handle_tunnel_request to_text from_text hex_encode (example_grant to_text) example_net []
     (None, encode_json to_text ser_connection_request example_tunnel_request) example_client_state =
     (Inr (Bridged Reject_protocol), [example_claim_to to_text ''r''], encode_line to_text hex_encode (prefix_new ''a'' ''b''))"
proof -
  have dec: "decode_json from_text de_connection_request (encode_json to_text ser_connection_request r) = Inr r"
    "decode_json from_text de_connection_claim_ack (encode_json to_text ser_connection_claim_ack a) = Inr a" for r a
    by (simp_all add: decode_encode_json assms)
  have m: "matches_hostname example_runtime (Some ''h'')"
    by (simp add: matches_hostname_def example_runtime_def example_rule_def matches_pattern_def)
  have id: "cl_client_id example_client = ''a''" "cl_tcp_passthrough example_client = False"
    by (simp_all add: example_client_def)
  have "bridge_connection to_text hex_encode example_net ''a'' example_tunnel_request [example_runtime] None False [] =
      (Inr Reject_protocol, encode_line to_text hex_encode (prefix_new ''a'' ''b''))"
    by (simp add: bridge_connection_def example_net_def connection_is_plaintext_http_def peek_http_silent
        bridge_plain_def protocol_allowed_def example_tunnel_request_def)
  then show ?thesis
    by (simp add: handle_tunnel_request_def dec m example_client_state_def id submit_claim_def example_grant_def
        example_tunnel_request_def example_claim_to_def)
qed

theorem claim_discipline_witness:
  "\<exists>r published line r' published' line'.
     handle_tunnel_request unary_text unary_parse hex_encode (example_grant unary_text) example_net []
       (None, encode_json unary_text ser_connection_request example_tunnel_request) example_client_state = (r, published, line) \<and>
     r = Inr (Bridged Reject_protocol) \<and> published = [example_claim_to unary_text ''r''] \<and>
     line = encode_line unary_text hex_encode (prefix_new ''a'' ''b'') \<and>
     handle_tunnel_request unary_text unary_parse hex_encode (example_grant unary_text\<lparr>ce_ack := Pending\<rparr>) example_net []
       (Some ''q'', encode_json unary_text ser_connection_request example_tunnel_request) example_client_state =
       (r', published', line') \<and>
     published' = [example_claim_to unary_text ''q''] \<and> line' = []"
proof -
  let ?m = "encode_json unary_text ser_connection_request example_tunnel_request"
  let ?late = "example_grant unary_text\<lparr>ce_ack := Pending\<rparr>"
  note b = example_bridged [of unary_parse unary_text, OF unary_parse_text]
  obtain r' published' line' where h: "handle_tunnel_request unary_text unary_parse hex_encode ?late example_net []
      (Some ''q'', ?m) example_client_state = (r', published', line')"
    using prod_cases3 by blast
  have dec: "decode_json unary_parse de_connection_request ?m = Inr example_tunnel_request"
    by (simp add: decode_encode_json)
  have late: "\<not> claim_accepted unary_parse ?late" "ce_subscribe ?late = Inr ()" "ce_publish ?late = Inr ()" "ce_inbox ?late = ''inbox''"
    by (simp_all add: claim_accepted_def example_grant_def)
  have serves: "\<exists>b\<in>set (cs_backends example_client_state). matches_hostname b (cr_hostname example_tunnel_request)"
    "cl_client_id (cs_config example_client_state) = ''a''" "cr_connection_id example_tunnel_request = ''b''"
    by (simp_all add: example_client_state_def example_tunnel_request_def matches_hostname_def example_runtime_def
        example_rule_def matches_pattern_def example_client_def)
  have "published' \<noteq> []" "line' = []"
    using claim_discipline [OF h] dec late serves(1) by auto
  moreover from this have "published' = [example_claim_to unary_text ''q'']"
    using claim_discipline [OF h] dec late(4) serves(2,3) by (auto simp: example_claim_to_def)
  ultimately show ?thesis using b h by blast
qed






end
