(* ===== verification/Central.thy ===== *)
theory Central
  imports Config_Load Oauth
begin

text \<open>
  Centrally managed configuration (\<^verbatim>\<open>client/src/config_source.rs\<close>): fetching a machine's document with
  its service account, and the loop that keeps its routes running. The HTTP client, the JSON
  and TOML text layers and the operating system's names are fields of \<open>central_env\<close>, one value
  for each exchange with the world; \<open>fingerprint\<close> is \<^verbatim>\<open>serde_json::to_vec\<close> on the routes. The
  loop is a step function on \<open>central_state\<close>, driven by events; sleeps and the messages to
  the desktop are kept in the order they happen. Durations are in nanoseconds.
\<close>

section \<open>Fetching\<close>

record central_env =
  ce_oauth :: oauth_env
  ce_get :: "string \<Rightarrow> (string \<times> string) list \<Rightarrow> string option \<Rightarrow> (nat \<times> bytes) res"
  ce_parse_toml :: "bytes \<Rightarrow> sval option"
  ce_computername :: "string option"
  ce_hostname :: "string option"
  ce_version :: string
  ce_platform :: string

record central_response =
  cr_config_toml :: string
  cr_config_revision :: "string option"
  cr_username :: string

record central_settings =
  cs_token_url :: string
  cs_provider_client_id :: string
  cs_scopes :: "string list"

record central_snapshot =
  sn_configs :: "client_config list"
  sn_revision :: string

definition de_central_response :: "central_response decoder" where
  "de_central_response v =
     and_then (struct_fields [(''config_toml'', False), (''config_revision'', True), (''username'', False)] v) (\<lambda>m.
     and_then (req_field ''config_toml'' de_string m) (\<lambda>config_toml.
     and_then (opt_field ''config_revision'' de_string m) (\<lambda>config_revision.
     and_then (req_field ''username'' de_string m) (\<lambda>username.
       Inr \<lparr>cr_config_toml = config_toml, cr_config_revision = config_revision, cr_username = username\<rparr>))))"

definition de_central_settings :: "central_settings decoder" where
  "de_central_settings v =
     and_then (struct_fields [(''token_url'', False), (''provider_client_id'', False), (''scopes'', False)] v) (\<lambda>m.
     and_then (req_field ''token_url'' de_string m) (\<lambda>token_url.
     and_then (req_field ''provider_client_id'' de_string m) (\<lambda>provider_client_id.
     and_then (req_field ''scopes'' (de_vec de_string) m) (\<lambda>scopes.
       Inr \<lparr>cs_token_url = token_url, cs_provider_client_id = provider_client_id, cs_scopes = scopes\<rparr>))))"

definition device_headers :: "central_env \<Rightarrow> string option \<Rightarrow> (string \<times> string) list" where
  "device_headers env applied_revision =
     [(''X-LFP-Pipe-Device'', unwrap_or ''lfp-pipe-client'' (or_else (ce_computername env) (ce_hostname env))),
      (''X-LFP-Pipe-Version'', ce_version env), (''X-LFP-Pipe-Platform'', ce_platform env)] @
     (case applied_revision of Some revision \<Rightarrow> [(''X-LFP-Pipe-Config-Revision'', revision)] | None \<Rightarrow> [])"

text \<open>\<^verbatim>\<open>reqwest\<close>'s \<^verbatim>\<open>error_for_status\<close>: client and server errors.\<close>

definition error_for_status :: "nat \<times> bytes \<Rightarrow> bytes res" where
  "error_for_status response = (case response of (status, body) \<Rightarrow>
     if 400 \<le> status \<and> status < 600 then Inl [Ext_cause (''HTTP status '' @ show_nat status)] else Inr body)"

definition base_url :: "central_client_bootstrap \<Rightarrow> string" where
  "base_url bootstrap = trim_end_matches (CHR ''/'') (cb_control_plane_url bootstrap)"

definition central_access :: "central_env \<Rightarrow> central_client_bootstrap \<Rightarrow> (central_settings \<times> string) res" where
  "central_access env bootstrap =
     and_then (opt_context ''central config requires username or LFP_PIPE_OAUTH_USERNAME''
       (cb_username bootstrap)) (\<lambda>username.
     and_then (opt_context ''central config requires client_secret_file or LFP_PIPE_OAUTH_CLIENT_SECRET_FILE''
       (cb_client_secret_file bootstrap)) (\<lambda>secret_file.
     and_then (ce_get env (base_url bootstrap @ ''/api/client-settings'') [] None) (\<lambda>response.
     and_then (error_for_status response) (\<lambda>body.
     and_then (json_body (ce_oauth env) de_central_settings body) (\<lambda>settings.
     and_then (obtain_access_token (ce_oauth env) (cs_token_url settings) (cs_provider_client_id settings)
       username secret_file (cs_scopes settings)) (\<lambda>token.
       Inr (settings, token)))))))"

text \<open>The loop body: the route's credentials come from this machine and its control plane.\<close>

definition hydrate_route ::
    "central_client_bootstrap \<Rightarrow> string \<Rightarrow> central_settings \<Rightarrow> string \<Rightarrow> client_config \<Rightarrow> client_config res" where
  "hydrate_route bootstrap secret_file settings username config =
     and_then (opt_context ''every centrally managed route requires OAuth'' (cl_oauth config)) (\<lambda>oauth.
       Inr (config\<lparr>cl_oauth := Some (oauth\<lparr>
         oa_username := username, oa_client_secret_file := secret_file,
         oa_token_url := cs_token_url settings, oa_provider_client_id := cs_provider_client_id settings,
         oa_control_plane_url := cb_control_plane_url bootstrap, oa_scopes := cs_scopes settings\<rparr>)\<rparr>))"

definition fetch_central_snapshot ::
    "central_env \<Rightarrow> central_client_bootstrap \<Rightarrow> string option \<Rightarrow> central_snapshot res" where
  "fetch_central_snapshot env bootstrap applied_revision =
     and_then (opt_context ''central config requires client_secret_file or LFP_PIPE_OAUTH_CLIENT_SECRET_FILE''
       (cb_client_secret_file bootstrap)) (\<lambda>secret_file.
     and_then (add_context ''authenticate central client'' (central_access env bootstrap)) (\<lambda>(settings, access_token).
     and_then (add_context ''fetch central client configuration''
       (ce_get env (base_url bootstrap @ ''/api/client-config'') (device_headers env applied_revision)
          (Some access_token))) (\<lambda>response.
     and_then (add_context ''central client configuration was rejected'' (error_for_status response)) (\<lambda>body.
     and_then (add_context ''decode central client configuration''
       (json_body (ce_oauth env) de_central_response body)) (\<lambda>response.
     and_then (parse_client_config_document (ce_parse_toml env) (cr_config_toml response)) (\<lambda>configs.
     and_then (collect_res (hydrate_route bootstrap secret_file settings (cr_username response)) configs) (\<lambda>configs.
       Inr \<lparr>sn_configs = configs,
            sn_revision = unwrap_or ''unreported'' (cr_config_revision response)\<rparr>)))))))"

definition fetch_central :: "central_env \<Rightarrow> central_client_bootstrap \<Rightarrow> client_config list res" where
  "fetch_central env bootstrap =
     and_then (fetch_central_snapshot env bootstrap None) (\<lambda>snapshot. Inr (sn_configs snapshot))"

text \<open>The event stream: each \<^verbatim>\<open>config\<close> event is one update; the result ends this connection and the
  next one is opened after three seconds.\<close>

fun push_events :: "string res list \<Rightarrow> nat \<times> unit res" where
  "push_events [] = (0, Inr ())"
| "push_events (Inl e # events) = (0, Inl e)"
| "push_events (Inr event # events) =
     (case push_events events of (n, result) \<Rightarrow> (if event = ''config'' then Suc n else n, result))"

definition push_round ::
    "central_env \<Rightarrow> (bytes \<Rightarrow> string res list) \<Rightarrow> central_client_bootstrap \<Rightarrow> string \<Rightarrow> nat \<times> unit res" where
  "push_round env eventsource bootstrap applied_revision =
     (case and_then (central_access env bootstrap) (\<lambda>(_, token).
        and_then (ce_get env (base_url bootstrap @ ''/api/client-events'')
          (device_headers env (Some applied_revision)) (Some token)) error_for_status) of
        Inl e \<Rightarrow> (0, Inl e)
      | Inr body \<Rightarrow> push_events (eventsource body))"

section \<open>Running\<close>

definition seconds :: "nat \<Rightarrow> nat" where
  "seconds n = n * 1000000000"

definition DURATION_MAX :: nat where
  "DURATION_MAX = (2 ^ 64 - 1) * 1000000000 + 999999999"

definition INITIAL_RETRY_DELAY :: nat where "INITIAL_RETRY_DELAY = seconds 1"

definition MAX_RETRY_DELAY :: nat where "MAX_RETRY_DELAY = seconds 30"

definition next_retry_delay :: "nat \<Rightarrow> nat" where
  "next_retry_delay current = min (min (current * 2) DURATION_MAX) MAX_RETRY_DELAY"

definition applied_config_status :: "client_config list \<Rightarrow> string" where
  "applied_config_status configs =
     (let route_count = length configs in
      if route_count = 0 then ''Connected''
      else if route_count = 1 then ''Connected - 1 Route''
      else ''Connected - '' @ show_nat route_count @ '' Routes'')"

text \<open>The characters beyond ASCII in the messages, in UTF-8.\<close>

definition ellipsis :: string where "ellipsis = [CHR 0xE2, CHR 0x80, CHR 0xA6]"

definition middle_dot :: string where "middle_dot = [CHR 0xC2, CHR 0xB7]"

datatype central_phase =
    Fetching
  | Running central_snapshot bytes string
  | Exited anyhow

record central_state =
  st_phase :: central_phase
  st_retry_delay :: nat
  st_applied_revision :: "string option"
  st_sleeps :: "nat list"
  st_reports :: "string list"

definition initial_central :: central_state where
  "initial_central = \<lparr>st_phase = Fetching, st_retry_delay = INITIAL_RETRY_DELAY, st_applied_revision = None,
     st_sleeps = [], st_reports = []\<rparr>"

text \<open>The next fetch finds the world in some state; the routes end with a result; an update
  arrives from the stream or the poll, and its fetch finds the world in some state.\<close>

datatype central_event = World central_env | Runtime_ended "unit res" | Update central_env

definition report :: "string \<Rightarrow> central_state \<Rightarrow> central_state" where
  "report message st = st\<lparr>st_reports := st_reports st @ [message]\<rparr>"

definition back_off :: "central_state \<Rightarrow> central_state" where
  "back_off st = st\<lparr>st_sleeps := st_sleeps st @ [st_retry_delay st],
     st_retry_delay := next_retry_delay (st_retry_delay st), st_phase := Fetching\<rparr>"

text \<open>The head of the outer loop.\<close>

definition central_fetch ::
    "(client_config list \<Rightarrow> bytes res) \<Rightarrow> central_client_bootstrap \<Rightarrow> central_env \<Rightarrow> central_state \<Rightarrow> central_state" where
  "central_fetch fingerprint bootstrap env st =
     (case fetch_central_snapshot env bootstrap (st_applied_revision st) of
        Inl _ \<Rightarrow> back_off (report (''Reconnecting'' @ ellipsis) st)
      | Inr snapshot \<Rightarrow> (case fingerprint (sn_configs snapshot) of
          Inl _ \<Rightarrow> back_off (report (''Configuration unavailable '' @ middle_dot @ '' retrying'') st)
        | Inr print \<Rightarrow>
            let active_status = applied_config_status (sn_configs snapshot) in
            report active_status (st\<lparr>st_applied_revision := Some (sn_revision snapshot),
              st_phase := Running snapshot print active_status\<rparr>)))"

text \<open>The arm of an update in the inner loop.\<close>

definition central_update ::
    "(client_config list \<Rightarrow> bytes res) \<Rightarrow> central_client_bootstrap \<Rightarrow> central_env \<Rightarrow>
     central_snapshot \<Rightarrow> bytes \<Rightarrow> string \<Rightarrow> central_state \<Rightarrow> central_state" where
  "central_update fingerprint bootstrap env snapshot print active_status st =
     (case fetch_central_snapshot env bootstrap (st_applied_revision st) of
        Inl _ \<Rightarrow> report (''Configuration warning '' @ middle_dot @ '' '' @ active_status) st
      | Inr next \<Rightarrow>
          (case (if sn_revision next \<noteq> sn_revision snapshot then Inr True
             else and_then (add_context ''fingerprint central config'' (fingerprint (sn_configs next)))
               (\<lambda>print'. Inr (print' \<noteq> print))) of
             Inl e \<Rightarrow> st\<lparr>st_phase := Exited e\<rparr>
           | Inr changed \<Rightarrow>
               if changed then
                 (report (''Applying configuration'' @ ellipsis) st)\<lparr>
                   st_retry_delay := INITIAL_RETRY_DELAY, st_phase := Fetching\<rparr>
               else st))"

text \<open>\<^verbatim>\<open>run_central_with_reporter\<close>. An event that the phase does not wait for changes nothing.\<close>

definition central_step ::
    "(client_config list \<Rightarrow> bytes res) \<Rightarrow> central_client_bootstrap \<Rightarrow> central_event \<Rightarrow> central_state \<Rightarrow> central_state" where
  "central_step fingerprint bootstrap event st = (case st_phase st of
      Fetching \<Rightarrow> (case event of World env \<Rightarrow> central_fetch fingerprint bootstrap env st | _ \<Rightarrow> st)
    | Running snapshot print active_status \<Rightarrow> (case event of
          Runtime_ended _ \<Rightarrow> back_off (report (''Reconnecting'' @ ellipsis) st)
        | Update env \<Rightarrow> central_update fingerprint bootstrap env snapshot print active_status st
        | World _ \<Rightarrow> st)
    | Exited _ \<Rightarrow> st)"

definition run_central_with_reporter ::
    "(client_config list \<Rightarrow> bytes res) \<Rightarrow> central_client_bootstrap \<Rightarrow> central_event list \<Rightarrow> central_state" where
  "run_central_with_reporter fingerprint bootstrap events =
     fold (central_step fingerprint bootstrap) events initial_central"

text \<open>\<^verbatim>\<open>run_central\<close> has no reporter: the messages are not kept.\<close>

definition run_central ::
    "(client_config list \<Rightarrow> bytes res) \<Rightarrow> central_client_bootstrap \<Rightarrow> central_event list \<Rightarrow> central_state" where
  "run_central fingerprint bootstrap events =
     (run_central_with_reporter fingerprint bootstrap events)\<lparr>st_reports := []\<rparr>"

section \<open>The retry delay\<close>

text \<open>A delay that doubles up to a limit; the central and the local runtime of the client share it.\<close>

locale doubling_delay =
  fixes next_delay :: "nat \<Rightarrow> nat" and first cap :: nat
  assumes first_pos: "0 < first" and first_le: "first \<le> cap"
    and next_delay: "d \<le> cap \<Longrightarrow> next_delay d = min (d * 2) cap"
begin

lemma iterate: "(next_delay ^^ n) first = min (first * 2 ^ n) cap"
proof (induction n)
  case 0
  then show ?case using first_le by simp
next
  case (Suc n)
  have "next_delay (min (first * 2 ^ n) cap) = min (min (first * 2 ^ n) cap * 2) cap"
    by (rule next_delay) simp
  with Suc show ?case by (simp add: min_def)
qed

lemma stays: "first \<le> d \<Longrightarrow> d \<le> cap \<Longrightarrow> first \<le> next_delay d \<and> next_delay d \<le> cap"
  using first_le by (simp add: next_delay min_def)

lemma grows: "d \<le> cap \<Longrightarrow> d \<le> next_delay d"
  by (simp add: next_delay min_def)

end

interpretation retry: doubling_delay next_retry_delay INITIAL_RETRY_DELAY MAX_RETRY_DELAY
proof unfold_locales
  show "0 < INITIAL_RETRY_DELAY" "INITIAL_RETRY_DELAY \<le> MAX_RETRY_DELAY"
    by (simp_all add: INITIAL_RETRY_DELAY_def MAX_RETRY_DELAY_def seconds_def)
  have "MAX_RETRY_DELAY \<le> DURATION_MAX" by (simp add: MAX_RETRY_DELAY_def seconds_def DURATION_MAX_def)
  then show "next_retry_delay d = min (d * 2) MAX_RETRY_DELAY" for d
    by (simp add: next_retry_delay_def min.assoc)
qed

section \<open>Lemmas\<close>

lemma hydrate_route_InrD:
  assumes "hydrate_route bootstrap secret_file settings username c = Inr c'"
  shows "cl_client_id c' = cl_client_id c" "client_config_ok c' = client_config_ok c"
    "\<exists>oauth. cl_oauth c' = Some oauth \<and> oa_username oauth = username \<and> oa_client_secret_file oauth = secret_file \<and>
       oa_control_plane_url oauth = cb_control_plane_url bootstrap"
  using assms by (auto simp: hydrate_route_def res_simps client_config_ok_def)

text \<open>What the routes of a snapshot are, for a bootstrap.\<close>

definition snapshot_ok :: "central_client_bootstrap \<Rightarrow> central_snapshot \<Rightarrow> bool" where
  "snapshot_ok bootstrap snapshot \<longleftrightarrow>
     sn_configs snapshot \<noteq> [] \<and> distinct (map cl_client_id (sn_configs snapshot)) \<and>
     list_all (\<lambda>c. client_config_ok c \<and>
       is_some_and (\<lambda>oauth. cb_client_secret_file bootstrap = Some (oa_client_secret_file oauth) \<and>
         oa_control_plane_url oauth = cb_control_plane_url bootstrap) (cl_oauth c)) (sn_configs snapshot)"

lemma fetch_central_snapshot_ok:
  assumes "fetch_central_snapshot env bootstrap applied = Inr snapshot"
  shows "snapshot_ok bootstrap snapshot"
proof -
  from assms obtain secret_file settings raw and response :: central_response where
    secret: "cb_client_secret_file bootstrap = Some secret_file"
    and raw: "parse_client_config_document (ce_parse_toml env) (cr_config_toml response) = Inr raw"
    and hydrated: "collect_res (hydrate_route bootstrap secret_file settings (cr_username response)) raw =
      Inr (sn_configs snapshot)"
    unfolding fetch_central_snapshot_def and_then_eq_Inr opt_context_eq_Inr add_context_eq_Inr
    by (auto simp: and_then_eq_Inr add_context_eq_Inr)
  from hydrated have all: "list_all2 (\<lambda>c c'. hydrate_route bootstrap secret_file settings (cr_username response) c = Inr c')
      raw (sn_configs snapshot)"
    by (simp add: collect_res_Inr_iff)
  note p = parse_client_configs_InrD [OF raw [unfolded parse_client_config_document_def]]
  have "map cl_client_id (sn_configs snapshot) = map cl_client_id raw"
    using all by (induction rule: list_all2_induct) (simp_all add: hydrate_route_InrD(1))
  moreover have "sn_configs snapshot \<noteq> []" using p(2) all by auto
  moreover have "client_config_ok c' \<and>
       is_some_and (\<lambda>oauth. cb_client_secret_file bootstrap = Some (oa_client_secret_file oauth) \<and>
         oa_control_plane_url oauth = cb_control_plane_url bootstrap) (cl_oauth c')"
    if c': "c' \<in> set (sn_configs snapshot)" for c'
  proof -
    obtain i where i: "i < length raw" "c' = sn_configs snapshot ! i"
      using all c' by (auto simp: list_all2_conv_all_nth in_set_conv_nth)
    have "hydrate_route bootstrap secret_file settings (cr_username response) (raw ! i) = Inr c'"
      using list_all2_nthD [OF all i(1)] i(2) by simp
    with p(1) nth_mem [OF i(1)] show ?thesis using hydrate_route_InrD secret by fastforce
  qed
  ultimately show ?thesis using p(3) by (simp add: snapshot_ok_def list_all_iff)
qed

text \<open>The states of the loop.\<close>

inductive central_reachable ::
    "(client_config list \<Rightarrow> bytes res) \<Rightarrow> central_client_bootstrap \<Rightarrow> central_state \<Rightarrow> bool"
  for fingerprint bootstrap where
  start: "central_reachable fingerprint bootstrap initial_central"
| step: "central_reachable fingerprint bootstrap st \<Longrightarrow>
    central_reachable fingerprint bootstrap (central_step fingerprint bootstrap event st)"

definition central_inv :: "(client_config list \<Rightarrow> bytes res) \<Rightarrow> central_client_bootstrap \<Rightarrow> central_state \<Rightarrow> bool" where
  "central_inv fingerprint bootstrap st \<longleftrightarrow>
     INITIAL_RETRY_DELAY \<le> st_retry_delay st \<and> st_retry_delay st \<le> MAX_RETRY_DELAY \<and>
     list_all (\<lambda>d. INITIAL_RETRY_DELAY \<le> d \<and> d \<le> MAX_RETRY_DELAY) (st_sleeps st) \<and>
     (case st_phase st of
        Running snapshot print status \<Rightarrow> snapshot_ok bootstrap snapshot \<and>
          st_applied_revision st = Some (sn_revision snapshot) \<and> fingerprint (sn_configs snapshot) = Inr print \<and>
          status = applied_config_status (sn_configs snapshot)
      | _ \<Rightarrow> True)"

lemma back_off_inv: "central_inv fp b st \<Longrightarrow> central_inv fp b (back_off (report m st))"
  using retry.stays by (simp add: central_inv_def back_off_def report_def)

lemma report_inv: "central_inv fp b (report m st) = central_inv fp b st"
  by (simp add: central_inv_def report_def split: central_phase.split)

lemma central_fetch_inv:
  assumes "central_inv fp b st"
  shows "central_inv fp b (central_fetch fp b env st)"
proof (cases "fetch_central_snapshot env b (st_applied_revision st)")
  case (Inl e)
  then show ?thesis using assms by (simp add: central_fetch_def back_off_inv)
next
  case (Inr snapshot)
  show ?thesis
  proof (cases "fp (sn_configs snapshot)")
    case (Inl e)
    then show ?thesis using assms Inr by (simp add: central_fetch_def back_off_inv)
  next
    case print: (Inr print)
    from assms show ?thesis using fetch_central_snapshot_ok [OF Inr]
      by (simp add: central_fetch_def Inr print Let_def report_inv) (simp add: central_inv_def print)
  qed
qed

lemma central_update_cases:
  assumes "central_update fp b env snapshot print status st = st'"
  obtains (kept) e where "fetch_central_snapshot env b (st_applied_revision st) = Inl e"
      "st' = report (''Configuration warning '' @ middle_dot @ '' '' @ status) st"
  | (same) new where "fetch_central_snapshot env b (st_applied_revision st) = Inr new"
      "sn_revision new = sn_revision snapshot" "fp (sn_configs new) = Inr print" "st' = st"
  | (replaced) new where "fetch_central_snapshot env b (st_applied_revision st) = Inr new"
      "sn_revision new \<noteq> sn_revision snapshot \<or> fp (sn_configs new) \<noteq> Inr print"
      "st' = (report (''Applying configuration'' @ ellipsis) st)\<lparr>st_retry_delay := INITIAL_RETRY_DELAY, st_phase := Fetching\<rparr>"
  | (exited) e new where "fetch_central_snapshot env b (st_applied_revision st) = Inr new"
      "sn_revision new = sn_revision snapshot" "fp (sn_configs new) = Inl e" "st' = st\<lparr>st_phase := Exited (Msg ''fingerprint central config'' # e)\<rparr>"
proof (cases "fetch_central_snapshot env b (st_applied_revision st)")
  case (Inl e)
  then show ?thesis using assms kept by (simp add: central_update_def)
next
  case (Inr new)
  show ?thesis
  proof (cases "sn_revision new = sn_revision snapshot")
    case False
    then show ?thesis using assms replaced [OF Inr] by (simp add: central_update_def Inr)
  next
    case True
    show ?thesis
    proof (cases "fp (sn_configs new)")
      case (Inl e)
      then show ?thesis using assms exited [OF \<open>fetch_central_snapshot _ _ _ = Inr new\<close>] True
        by (simp add: central_update_def \<open>fetch_central_snapshot _ _ _ = Inr new\<close> add_context_def)
    next
      case print: (Inr p)
      then show ?thesis using assms same [OF Inr True] replaced [OF Inr] True
        by (cases "p = print") (simp_all add: central_update_def Inr)
    qed
  qed
qed

lemma central_step_inv:
  assumes "central_inv fp b st"
  shows "central_inv fp b (central_step fp b event st)"
proof (cases "st_phase st")
  case Fetching
  then show ?thesis using assms central_fetch_inv by (cases event) (simp_all add: central_step_def)
next
  case (Running snapshot print status)
  show ?thesis
  proof (cases event)
    case (World env)
    then show ?thesis using assms Running by (simp add: central_step_def)
  next
    case (Runtime_ended r)
    then show ?thesis using assms Running back_off_inv by (simp add: central_step_def)
  next
    case (Update env)
    obtain st' where u: "central_update fp b env snapshot print status st = st'" by blast
    then have "central_inv fp b st'"
    proof (cases rule: central_update_cases)
      case (replaced new)
      then show ?thesis using assms retry.first_le by (simp add: central_inv_def report_def)
    qed (use assms in \<open>simp_all add: report_inv, simp_all add: central_inv_def\<close>)
    then show ?thesis using Running Update u by (simp add: central_step_def)
  qed
next
  case (Exited e)
  then show ?thesis using assms by (simp add: central_step_def)
qed

lemma initial_central_inv: "central_inv fp b initial_central"
  using retry.first_le by (simp add: central_inv_def initial_central_def)

lemma central_reachable_inv: "central_reachable fp b st \<Longrightarrow> central_inv fp b st"
  by (induction rule: central_reachable.induct) (simp_all add: initial_central_inv central_step_inv)

lemma fold_central_reachable:
  "central_reachable fp b st \<Longrightarrow> central_reachable fp b (fold (central_step fp b) events st)"
  by (induction events arbitrary: st) (simp_all add: central_reachable.step)

lemma run_central_reachable: "central_reachable fp b (run_central_with_reporter fp b events)"
  unfolding run_central_with_reporter_def by (rule fold_central_reachable [OF central_reachable.start])

text \<open>A row of failed fetches.\<close>

definition unreachable :: "central_client_bootstrap \<Rightarrow> central_env \<Rightarrow> bool" where
  "unreachable bootstrap env \<longleftrightarrow> (\<forall>applied. isl (fetch_central_snapshot env bootstrap applied))"

lemma unreachable_step:
  assumes "unreachable b env" "st_phase st = Fetching"
  shows "central_step fp b (World env) st = back_off (report (''Reconnecting'' @ ellipsis) st)"
proof -
  obtain e where "fetch_central_snapshot env b (st_applied_revision st) = Inl e"
    using assms(1) by (auto simp: unreachable_def isl_def)
  with assms(2) show ?thesis by (simp add: central_step_def central_fetch_def)
qed

lemma unreachable_run:
  assumes "\<forall>env\<in>set envs. unreachable b env"
  shows "run_central_with_reporter fp b (map World envs) =
    \<lparr>st_phase = Fetching, st_retry_delay = (next_retry_delay ^^ length envs) INITIAL_RETRY_DELAY,
     st_applied_revision = None,
     st_sleeps = map (\<lambda>i. (next_retry_delay ^^ i) INITIAL_RETRY_DELAY) [0..<length envs],
     st_reports = replicate (length envs) (''Reconnecting'' @ ellipsis)\<rparr>"
  using assms
proof (induction envs rule: rev_induct)
  case Nil
  then show ?case by (simp add: run_central_with_reporter_def initial_central_def)
next
  case (snoc env envs)
  have "run_central_with_reporter fp b (map World (envs @ [env])) =
      central_step fp b (World env) (run_central_with_reporter fp b (map World envs))"
    by (simp add: run_central_with_reporter_def)
  with snoc show ?case
    by (simp add: unreachable_step back_off_def report_def replicate_append_same)
qed

section \<open>Properties\<close>

text \<open>C11: whatever the control plane answers and in whatever order updates, failures and restarts
  arrive, the routes that run are a non-empty list of validated configurations with distinct
  ids, each of which is configured with this machine's own secret file and with the control plane
  that the machine was enrolled with, whatever the document said; the revision it reports is the one that runs; and no sleep
  between attempts is shorter than one second or longer than thirty.\<close>

theorem central_routes_safe:
  assumes "st_phase (run_central_with_reporter fingerprint bootstrap events) = Running snapshot print status"
  shows "sn_configs snapshot \<noteq> [] \<and> distinct (map cl_client_id (sn_configs snapshot)) \<and>
    (\<forall>c\<in>set (sn_configs snapshot). client_config_ok c \<and>
       (\<exists>oauth. cl_oauth c = Some oauth \<and> cb_client_secret_file bootstrap = Some (oa_client_secret_file oauth) \<and>
          oa_control_plane_url oauth = cb_control_plane_url bootstrap)) \<and>
    st_applied_revision (run_central_with_reporter fingerprint bootstrap events) = Some (sn_revision snapshot) \<and>
    (\<forall>d\<in>set (st_sleeps (run_central_with_reporter fingerprint bootstrap events)). seconds 1 \<le> d \<and> d \<le> seconds 30)"
  using central_reachable_inv [OF run_central_reachable, of fingerprint bootstrap events] assms
  by (simp add: central_inv_def snapshot_ok_def list_all_iff is_some_and_iff INITIAL_RETRY_DELAY_def MAX_RETRY_DELAY_def)

text \<open>A control plane that assigns one route.\<close>

definition example_managed_oauth :: sval where
  "example_managed_oauth =
     SMap [(''token_url'', SStr []), (''provider_client_id'', SStr []), (''username'', SStr []),
       (''client_secret_file'', SStr []), (''control_plane_url'', SStr []), (''hostname'', SStr ''h'')]"

definition example_managed_document :: sval where
  "example_managed_document =
     SMap [(''client_id'', SStr ''a''), (''nats_url'', SStr ''n''), (''oauth'', example_managed_oauth),
       (''backend_rules'', SSeq [])]"

definition example_central_env :: central_env where
  "example_central_env =
     \<lparr>ce_oauth = \<lparr>oe_read = (\<lambda>_. Inr ''secret''), oe_builder = Inr (), oe_post_form = (\<lambda>_ _. Inr (200, ''1'')),
        oe_post_json = (\<lambda>_ _ _. Inr (404, [])), oe_to_text = (\<lambda>_. []),
        oe_from_text = (\<lambda>t. Some (if t = ''1'' then SMap [(''access_token'', SStr ''t'')]
          else if t = ''2'' then SMap [(''token_url'', SStr ''u''), (''provider_client_id'', SStr ''p''), (''scopes'', SSeq [])]
          else SMap [(''config_toml'', SStr ''d''), (''config_revision'', SStr ''r1''), (''username'', SStr ''m'')])),
        oe_b64url_decode = (\<lambda>_. None)\<rparr>,
      ce_get = (\<lambda>url headers bearer. Inr (200, if bearer = None then ''2'' else ''3'')),
      ce_parse_toml = (\<lambda>_. Some example_managed_document),
      ce_computername = None, ce_hostname = Some ''pc'', ce_version = ''1'', ce_platform = ''linux''\<rparr>"

definition example_bootstrap :: central_client_bootstrap where
  "example_bootstrap = \<lparr>cb_control_plane_url = ''https://c/'', cb_control_plane_config = True,
     cb_username = Some ''m'', cb_client_secret_file = Some ''f''\<rparr>"

lemma example_document_parses:
  "\<exists>c. parse_client_config_document (ce_parse_toml example_central_env) raw = Inr [c] \<and> cl_oauth c \<noteq> None"
proof -
  have "\<exists>c. de_client_config_document example_managed_document = Inr (Legacy c) \<and> cl_backend_rules c = [] \<and>
      cl_authorization c = None \<and> cl_oauth c \<noteq> None"
    by (simp add: example_managed_document_def example_managed_oauth_def de_client_config_document_def
        de_multi_route_client_config_def de_client_config_def de_client_oauth_config_def struct_fields_def
        field_defs serde_error_def)
  then obtain c where "de_client_config_document example_managed_document = Inr (Legacy c)" "cl_backend_rules c = []"
    "cl_authorization c = None" "cl_oauth c \<noteq> None" by blast
  then show ?thesis
    by (simp add: parse_client_config_document_def parse_client_configs_def from_toml_def example_central_env_def
        inherit_authorization_def validate_client_config_def)
qed

lemma example_fetch:
  "\<exists>c. fetch_central_snapshot example_central_env example_bootstrap applied =
     Inr \<lparr>sn_configs = [c], sn_revision = ''r1''\<rparr>"
proof -
  have b: "\<not> blank ''secret''" by code_simp
  have access: "central_access example_central_env example_bootstrap =
      Inr (\<lparr>cs_token_url = ''u'', cs_provider_client_id = ''p'', cs_scopes = []\<rparr>, ''t'')"
    by (simp add: central_access_def example_bootstrap_def example_central_env_def error_for_status_def json_body_def
        de_central_settings_def struct_fields_def field_defs obtain_access_token_def b status_success_def
        de_oauth_token_response_def)
  obtain c where "parse_client_config_document (ce_parse_toml example_central_env) ''d'' = Inr [c]" "cl_oauth c \<noteq> None"
    using example_document_parses by blast
  moreover have "ce_get example_central_env url headers (Some t) = Inr (200, ''3'')" for url headers t
    by (simp add: example_central_env_def)
  moreover have "json_body (ce_oauth example_central_env) de_central_response ''3'' =
      Inr \<lparr>cr_config_toml = ''d'', cr_config_revision = Some ''r1'', cr_username = ''m''\<rparr>"
    by (simp add: json_body_def example_central_env_def de_central_response_def struct_fields_def field_defs)
  moreover have "cb_client_secret_file example_bootstrap = Some ''f''" by (simp add: example_bootstrap_def)
  ultimately show ?thesis
    by (auto simp: fetch_central_snapshot_def access error_for_status_def hydrate_route_def)
qed

lemma example_running:
  "\<exists>c. st_phase (run_central_with_reporter (\<lambda>_. Inr []) example_bootstrap [World example_central_env]) =
     Running \<lparr>sn_configs = [c], sn_revision = ''r1''\<rparr> [] ''Connected - 1 Route''"
  using example_fetch [of None]
  by (auto simp: run_central_with_reporter_def initial_central_def central_step_def central_fetch_def Let_def
      report_def applied_config_status_def)

theorem central_routes_safe_witness:
  "\<exists>c oauth. cl_oauth c = Some oauth \<and> client_config_ok c \<and> oa_client_secret_file oauth = ''f'' \<and>
     oa_control_plane_url oauth = ''https://c/''"
proof -
  obtain c where "st_phase (run_central_with_reporter (\<lambda>_. Inr []) example_bootstrap [World example_central_env]) =
     Running \<lparr>sn_configs = [c], sn_revision = ''r1''\<rparr> [] ''Connected - 1 Route''"
    using example_running by blast
  from central_routes_safe [OF this] obtain oauth where "client_config_ok c" "cl_oauth c = Some oauth"
    "cb_client_secret_file example_bootstrap = Some (oa_client_secret_file oauth)"
    "oa_control_plane_url oauth = cb_control_plane_url example_bootstrap"
    by auto
  then show ?thesis by (intro exI [of _ c] exI [of _ oauth]) (simp add: example_bootstrap_def)
qed

text \<open>C17: an update never takes working routes down for nothing. While routes run, a refresh that
  fails leaves routes, delay and sleeps as they are; a refresh that brings the same document
  changes nothing at all; and one that brings a new revision ends the old routes without a
  sleep, and the same document fetched again is what runs next.\<close>

theorem central_update_safe:
  assumes "st_phase st = Running snapshot print status"
  shows "case fetch_central_snapshot env bootstrap (st_applied_revision st) of
      Inl _ \<Rightarrow> st_phase (central_step fingerprint bootstrap (Update env) st) = st_phase st \<and>
        st_retry_delay (central_step fingerprint bootstrap (Update env) st) = st_retry_delay st \<and>
        st_sleeps (central_step fingerprint bootstrap (Update env) st) = st_sleeps st
    | Inr new \<Rightarrow>
        (sn_revision new = sn_revision snapshot \<and> fingerprint (sn_configs new) = Inr print \<longrightarrow>
           central_step fingerprint bootstrap (Update env) st = st) \<and>
        (sn_revision new \<noteq> sn_revision snapshot \<longrightarrow>
           st_sleeps (central_step fingerprint bootstrap (Update env) st) = st_sleeps st \<and>
           st_retry_delay (central_step fingerprint bootstrap (Update env) st) = INITIAL_RETRY_DELAY \<and>
           (\<forall>print'. fingerprint (sn_configs new) = Inr print' \<longrightarrow>
              st_phase (central_step fingerprint bootstrap (World env)
                  (central_step fingerprint bootstrap (Update env) st)) =
                Running new print' (applied_config_status (sn_configs new))))"
proof -
  have u: "central_update fingerprint bootstrap env snapshot print status st =
      central_step fingerprint bootstrap (Update env) st"
    using assms by (simp add: central_step_def)
  then show ?thesis
  proof (cases rule: central_update_cases)
    case (replaced new)
    then show ?thesis by (auto simp: report_def central_step_def [of _ _ "World env"] central_fetch_def Let_def)
  next
    case (exited e new)
    then show ?thesis by simp
  qed (simp_all add: report_def)
qed

theorem central_update_safe_witness:
  "\<exists>st. st_phase (central_step (\<lambda>_. Inr []) example_bootstrap
      (Update (example_central_env\<lparr>ce_get := \<lambda>_ _ _. Inr (503, [])\<rparr>)) st) = st_phase st \<and> st_phase st \<noteq> Fetching"
proof -
  let ?st = "run_central_with_reporter (\<lambda>_. Inr []) example_bootstrap [World example_central_env]"
  obtain c where c: "st_phase ?st = Running \<lparr>sn_configs = [c], sn_revision = ''r1''\<rparr> [] ''Connected - 1 Route''"
    using example_running by blast
  note u = central_update_safe [OF c, where env = "example_central_env\<lparr>ce_get := \<lambda>_ _ _. Inr (503, [])\<rparr>" and
      bootstrap = example_bootstrap and fingerprint = "\<lambda>_. Inr []"]
  have "isl (fetch_central_snapshot (example_central_env\<lparr>ce_get := \<lambda>_ _ _. Inr (503, [])\<rparr>) example_bootstrap applied)"
    for applied
    by (simp add: fetch_central_snapshot_def central_access_def example_bootstrap_def error_for_status_def add_context_def)
  then obtain e where "fetch_central_snapshot (example_central_env\<lparr>ce_get := \<lambda>_ _ _. Inr (503, [])\<rparr>) example_bootstrap
      (st_applied_revision ?st) = Inl e"
    unfolding isl_def by blast
  with u c show ?thesis by (intro exI [of _ ?st]) simp
qed

text \<open>C18: a client that starts while its control plane is away keeps trying and recovers: after any
  number of failed attempts it has slept one second, then two, four, eight, sixteen and from
  then on thirty, it reported each attempt, it has not stopped, and the first answer starts the
  routes it carries.\<close>

theorem central_recovers:
  assumes "\<forall>env\<in>set envs. unreachable bootstrap env"
  shows "st_sleeps (run_central_with_reporter fingerprint bootstrap (map World envs)) =
      map (\<lambda>i. min (seconds (2 ^ i)) (seconds 30)) [0..<length envs] \<and>
    length (st_reports (run_central_with_reporter fingerprint bootstrap (map World envs))) = length envs \<and>
    (\<forall>env snapshot print. fetch_central_snapshot env bootstrap None = Inr snapshot \<and>
       fingerprint (sn_configs snapshot) = Inr print \<longrightarrow>
       st_phase (run_central_with_reporter fingerprint bootstrap (map World envs @ [World env])) =
         Running snapshot print (applied_config_status (sn_configs snapshot)))"
proof -
  note run = unreachable_run [OF assms, of fingerprint]
  have "(next_retry_delay ^^ i) INITIAL_RETRY_DELAY = min (seconds (2 ^ i)) (seconds 30)" for i
    unfolding retry.iterate by (simp add: INITIAL_RETRY_DELAY_def MAX_RETRY_DELAY_def seconds_def mult.commute)
  moreover have "run_central_with_reporter fingerprint bootstrap (map World envs @ [World env]) =
      central_step fingerprint bootstrap (World env) (run_central_with_reporter fingerprint bootstrap (map World envs))" for env
    by (simp add: run_central_with_reporter_def)
  ultimately show ?thesis
    by (auto simp: run central_step_def central_fetch_def Let_def report_def)
qed

theorem central_recovers_witness:
  "st_sleeps (run_central_with_reporter (\<lambda>_. Inr []) (example_bootstrap\<lparr>cb_username := None\<rparr>)
     (map World (replicate 6 example_central_env))) =
   [seconds 1, seconds 2, seconds 4, seconds 8, seconds 16, seconds 30]"
proof -
  have "\<forall>env\<in>set (replicate 6 example_central_env). unreachable (example_bootstrap\<lparr>cb_username := None\<rparr>) env"
    by (simp add: unreachable_def fetch_central_snapshot_def central_access_def example_bootstrap_def)
  from central_recovers [OF this, of "\<lambda>_. Inr []"] show ?thesis
    by (simp add: upt_rec seconds_def)
qed

end
