(* ===== verification/Desktop_Settings.thy ===== *)
theory Desktop_Settings
  imports Central Acme
begin

text \<open>
  The preferences of the desktop client and its enrollment (\<^verbatim>\<open>client/src/desktop_settings.rs\<close>). The
  files of the user are a map from paths to contents, which operations return updated. The
  operating system, the JSON text layer, the HTTP client and the browser are fields of
  \<open>desktop_env\<close>: \<open>dv_write\<close> says for a path whether a write fails and what is left of the file
  then, \<open>dv_poll\<close> is the answer to the \<open>i\<close>-th poll. Start-at-boot is a third-party package; only
  that its result is ignored here matters.
\<close>

section \<open>Preferences\<close>

record desktop_settings =
  ds_remote_managed :: bool
  ds_control_plane_url :: string
  ds_username :: "string option"
  ds_device_id :: string

type_synonym user_files = "string \<Rightarrow> bytes option"

record desktop_env =
  dv_config_dir :: "string option"
  dv_uuid :: string
  dv_to_text :: "sval \<Rightarrow> bytes res"
  dv_from_text :: "bytes \<Rightarrow> sval option"
  dv_unreadable :: "string \<Rightarrow> anyhow option"
  dv_create_dir_all :: "string \<Rightarrow> unit res"
  dv_write :: "string \<Rightarrow> (anyhow \<times> bytes option) option"
  dv_post :: "string \<Rightarrow> sval \<Rightarrow> (nat \<times> bytes) res"
  dv_poll :: "nat \<Rightarrow> string \<Rightarrow> string \<Rightarrow> (nat \<times> bytes) res"
  dv_open :: "string \<Rightarrow> unit res"
  dv_computername :: "string option"
  dv_hostname :: "string option"
  dv_platform :: string
  dv_version :: string

definition DEFAULT_CONTROL_PLANE :: string where
  "DEFAULT_CONTROL_PLANE = ''https://pipe.example.com''"

definition de_desktop_settings :: "desktop_settings decoder" where
  "de_desktop_settings v =
     and_then (struct_fields [(''remote_managed'', True), (''control_plane_url'', True), (''username'', True),
         (''device_id'', True)] v) (\<lambda>m.
     and_then (default_field ''remote_managed'' True de_bool m) (\<lambda>remote_managed.
     and_then (default_field ''control_plane_url'' DEFAULT_CONTROL_PLANE de_string m) (\<lambda>control_plane_url.
     and_then (opt_field ''username'' de_string m) (\<lambda>username.
     and_then (default_field ''device_id'' [] de_string m) (\<lambda>device_id.
       Inr \<lparr>ds_remote_managed = remote_managed, ds_control_plane_url = control_plane_url,
            ds_username = username, ds_device_id = device_id\<rparr>)))))"

definition ser_desktop_settings :: "desktop_settings \<Rightarrow> sval" where
  "ser_desktop_settings s =
     SMap [(''remote_managed'', SBool (ds_remote_managed s)), (''control_plane_url'', SStr (ds_control_plane_url s)),
       (''username'', ser_option SStr (ds_username s)), (''device_id'', SStr (ds_device_id s))]"

definition default_settings :: "desktop_env \<Rightarrow> desktop_settings" where
  "default_settings env = \<lparr>ds_remote_managed = True, ds_control_plane_url = DEFAULT_CONTROL_PLANE,
     ds_username = None, ds_device_id = dv_uuid env\<rparr>"

definition settings_dir :: "desktop_env \<Rightarrow> string res" where
  "settings_dir env =
     and_then (opt_context ''locate user config directory'' (dv_config_dir env)) (\<lambda>path.
       Inr (path_join path ''lfp-pipe''))"

definition fs_write :: "desktop_env \<Rightarrow> string \<Rightarrow> bytes \<Rightarrow> user_files \<Rightarrow> unit res \<times> user_files" where
  "fs_write env path contents files = (case dv_write env path of
      None \<Rightarrow> (Inr (), files(path \<mapsto> contents))
    | Some (e, left) \<Rightarrow> (Inl e, files(path := left)))"

definition save :: "desktop_env \<Rightarrow> desktop_settings \<Rightarrow> user_files \<Rightarrow> unit res \<times> user_files" where
  "save env settings files =
     (case and_then (settings_dir env) (\<lambda>directory.
         and_then (dv_create_dir_all env directory) (\<lambda>_.
         and_then (dv_to_text env (ser_desktop_settings settings)) (\<lambda>contents.
           Inr (directory, contents)))) of
        Inl e \<Rightarrow> (Inl e, files)
      | Inr (directory, contents) \<Rightarrow>
          map_prod (add_context ''save desktop settings'') id
            (fs_write env (path_join directory ''desktop.json'') contents files))"

definition load_or_create :: "desktop_env \<Rightarrow> user_files \<Rightarrow> desktop_settings res \<times> user_files" where
  "load_or_create env files = (case settings_dir env of
      Inl e \<Rightarrow> (Inl e, files)
    | Inr directory \<Rightarrow>
        (case files (path_join directory ''desktop.json'') of
           Some raw \<Rightarrow>
             (case dv_unreadable env (path_join directory ''desktop.json'') of
                Some e \<Rightarrow> (Inl e, files)
              | None \<Rightarrow> (add_context ''parse desktop settings''
                  (case dv_from_text env raw of None \<Rightarrow> serde_error ''syntax'' | Some v \<Rightarrow> de_desktop_settings v), files))
         | None \<Rightarrow>
             (case save env (default_settings env) files of
                (Inl e, files) \<Rightarrow> (Inl e, files)
              | (Inr _, files) \<Rightarrow> (Inr (default_settings env), files))))"

definition secret_path :: "desktop_env \<Rightarrow> string res" where
  "secret_path env = and_then (settings_dir env) (\<lambda>directory. Inr (path_join directory ''client-secret''))"

definition central_bootstrap ::
    "desktop_env \<Rightarrow> user_files \<Rightarrow> desktop_settings \<Rightarrow> central_client_bootstrap option" where
  "central_bootstrap env files settings =
     (if ds_remote_managed settings \<and> ds_username settings \<noteq> None \<and>
         (case secret_path env of Inl _ \<Rightarrow> False | Inr path \<Rightarrow> files path \<noteq> None)
      then Some \<lparr>cb_control_plane_url = ds_control_plane_url settings, cb_control_plane_config = True,
        cb_username = ds_username settings,
        cb_client_secret_file = (case secret_path env of Inl _ \<Rightarrow> None | Inr path \<Rightarrow> Some path)\<rparr>
      else None)"

section \<open>Enrollment\<close>

record enrollment_created =
  en_code :: string
  en_poll_token :: string
  en_claim_url :: string

record enrollment_status =
  es_status :: string
  es_username :: "string option"
  es_client_secret :: "string option"

definition ser_enrollment_request :: "desktop_env \<Rightarrow> string \<Rightarrow> sval" where
  "ser_enrollment_request env device_id =
     SMap [(''device_id'', SStr device_id),
       (''name'', SStr (unwrap_or ''managed-client'' (or_else (dv_computername env) (dv_hostname env)))),
       (''platform'', SStr (dv_platform env)), (''version'', SStr (dv_version env))]"

definition de_enrollment_created :: "enrollment_created decoder" where
  "de_enrollment_created v =
     and_then (struct_fields [(''code'', False), (''poll_token'', False), (''claim_url'', False)] v) (\<lambda>m.
     and_then (req_field ''code'' de_string m) (\<lambda>code.
     and_then (req_field ''poll_token'' de_string m) (\<lambda>poll_token.
     and_then (req_field ''claim_url'' de_string m) (\<lambda>claim_url.
       Inr \<lparr>en_code = code, en_poll_token = poll_token, en_claim_url = claim_url\<rparr>))))"

text \<open>An \<^verbatim>\<open>Option\<close> field may be missing from the map.\<close>

definition de_enrollment_status :: "enrollment_status decoder" where
  "de_enrollment_status v =
     and_then (struct_fields [(''status'', False), (''username'', False), (''client_secret'', False)] v) (\<lambda>m.
     and_then (req_field ''status'' de_string m) (\<lambda>status.
     and_then (opt_field ''username'' de_string m) (\<lambda>username.
     and_then (opt_field ''client_secret'' de_string m) (\<lambda>client_secret.
       Inr \<lparr>es_status = status, es_username = username, es_client_secret = client_secret\<rparr>))))"

definition response_json :: "desktop_env \<Rightarrow> 'a decoder \<Rightarrow> nat \<times> bytes \<Rightarrow> 'a res" where
  "response_json env de response =
     and_then (error_for_status response) (\<lambda>body.
       case dv_from_text env body of None \<Rightarrow> serde_error ''syntax'' | Some v \<Rightarrow> de v)"

text \<open>Storing the credentials of a claimed enrollment. The parent of the secret's path is the
  directory of the settings.\<close>

definition store_credentials ::
    "desktop_env \<Rightarrow> enrollment_status \<Rightarrow> desktop_settings \<Rightarrow> user_files \<Rightarrow> unit res \<times> desktop_settings \<times> user_files" where
  "store_credentials env status settings files =
     (case and_then (opt_context ''enrollment omitted username'' (es_username status)) (\<lambda>username.
         and_then (opt_context ''enrollment omitted secret'' (es_client_secret status)) (\<lambda>secret.
         and_then (ensure (secret \<noteq> []) ''enrollment returned empty secret'') (\<lambda>_.
         and_then (secret_path env) (\<lambda>path.
         and_then (settings_dir env) (\<lambda>directory.
         and_then (dv_create_dir_all env directory) (\<lambda>_.
           Inr (username, secret, path))))))) of
        Inl e \<Rightarrow> (Inl e, settings, files)
      | Inr (username, secret, path) \<Rightarrow>
          (case fs_write env path secret files of
             (Inl e, files) \<Rightarrow> (Inl e, settings, files)
           | (Inr _, files) \<Rightarrow>
               let settings = settings\<lparr>ds_username := Some username\<rparr> in
               (case save env settings files of (result, files) \<Rightarrow> (result, settings, files))))"

text \<open>\<^verbatim>\<open>for _ in 0..120\<close>: \<open>n\<close> polls are left, the next one is number \<open>i\<close>.\<close>

fun enroll_poll ::
    "desktop_env \<Rightarrow> enrollment_created \<Rightarrow> nat \<Rightarrow> nat \<Rightarrow> desktop_settings \<Rightarrow> user_files \<Rightarrow>
     unit res \<times> desktop_settings \<times> user_files" where
  "enroll_poll env created 0 i settings files =
     (bail ''enrollment expired before it was approved'', settings, files)"
| "enroll_poll env created (Suc n) i settings files =
     (case dv_poll env i (trim_end_matches (CHR ''/'') (ds_control_plane_url settings) @ ''/api/enrollments/'' @
          en_code created) (en_poll_token created) of
        Inl e \<Rightarrow> (Inl e, settings, files)
      | Inr response \<Rightarrow>
          if fst response = 202 then enroll_poll env created n (Suc i) settings files
          else (case response_json env de_enrollment_status response of
              Inl e \<Rightarrow> (Inl e, settings, files)
            | Inr status \<Rightarrow>
                if es_status status = ''claimed'' then store_credentials env status settings files
                else enroll_poll env created n (Suc i) settings files))"

definition enroll ::
    "desktop_env \<Rightarrow> desktop_settings \<Rightarrow> user_files \<Rightarrow> unit res \<times> desktop_settings \<times> user_files" where
  "enroll env settings files =
     (case and_then (dv_post env (trim_end_matches (CHR ''/'') (ds_control_plane_url settings) @ ''/api/enrollments'')
           (ser_enrollment_request env (ds_device_id settings))) (\<lambda>response.
         and_then (response_json env de_enrollment_created response) (\<lambda>created.
         and_then (add_context ''open enrollment page'' (dv_open env (en_claim_url created))) (\<lambda>_.
           Inr created))) of
        Inl e \<Rightarrow> (Inl e, settings, files)
      | Inr created \<Rightarrow> enroll_poll env created 120 0 settings files)"

section \<open>Lemmas\<close>

lemma de_ser_desktop_settings: "de_desktop_settings (ser_desktop_settings s) = Inr s"
  by (cases "ds_username s")
    (simp_all add: de_desktop_settings_def ser_desktop_settings_def struct_fields_def field_defs ser_option_def)

lemma path_join_inject: "path_join d a = path_join d b \<Longrightarrow> \<not> starts_with ''/'' a \<Longrightarrow> \<not> starts_with ''/'' b \<Longrightarrow> a = b"
  by (auto simp: path_join_def split: if_splits)

lemma secret_not_settings: "path_join d ''client-secret'' \<noteq> path_join d ''desktop.json''"
  using path_join_inject [of d "''client-secret''" "''desktop.json''"] by auto

lemma fs_write_Inr:
  "fs_write env path contents files = (Inr u, files') \<longleftrightarrow> dv_write env path = None \<and> files' = files(path \<mapsto> contents)"
  by (auto simp: fs_write_def split: option.splits)

lemma save_Inr:
  assumes "save env settings files = (Inr (), files')"
  obtains directory contents where "settings_dir env = Inr directory"
    "dv_to_text env (ser_desktop_settings settings) = Inr contents"
    "files' = files(path_join directory ''desktop.json'' \<mapsto> contents)"
proof (cases "and_then (settings_dir env) (\<lambda>directory. and_then (dv_create_dir_all env directory) (\<lambda>_.
    and_then (dv_to_text env (ser_desktop_settings settings)) (\<lambda>contents. Inr (directory, contents))))")
  case (Inl e)
  then show ?thesis using assms by (simp add: save_def)
next
  case (Inr dc)
  obtain d c where dc: "dc = (d, c)" by fastforce
  obtain r f where w: "fs_write env (path_join d ''desktop.json'') c files = (r, f)" by fastforce
  with assms Inr dc have "add_context ''save desktop settings'' r = Inr ()" "f = files'" by (simp_all add: save_def)
  with w have "files' = files(path_join d ''desktop.json'' \<mapsto> c)"
    by (simp add: add_context_eq_Inr fs_write_Inr)
  moreover from Inr dc have "settings_dir env = Inr d" "dv_to_text env (ser_desktop_settings settings) = Inr c"
    by (auto simp: and_then_eq_Inr)
  ultimately show ?thesis by (rule that [rotated 2])
qed

lemma store_credentials_Inr:
  assumes "store_credentials env status settings files = (Inr (), settings', files')"
  shows "\<exists>directory secret. settings_dir env = Inr directory \<and> secret \<noteq> [] \<and>
    es_client_secret status = Some secret \<and> files' (path_join directory ''client-secret'') = Some secret \<and>
    settings' = settings\<lparr>ds_username := es_username status\<rparr> \<and> es_username status \<noteq> None"
proof (cases "and_then (opt_context ''enrollment omitted username'' (es_username status)) (\<lambda>username.
         and_then (opt_context ''enrollment omitted secret'' (es_client_secret status)) (\<lambda>secret.
         and_then (ensure (secret \<noteq> []) ''enrollment returned empty secret'') (\<lambda>_.
         and_then (secret_path env) (\<lambda>path.
         and_then (settings_dir env) (\<lambda>directory.
         and_then (dv_create_dir_all env directory) (\<lambda>_.
           Inr (username, secret, path)))))))")
  case (Inl e)
  then show ?thesis using assms by (simp add: store_credentials_def)
next
  case (Inr x)
  obtain username secret path where x: "x = (username, secret, path)" by (cases x)
  from Inr x have c: "es_username status = Some username" "es_client_secret status = Some secret" "secret \<noteq> []"
    "secret_path env = Inr path"
    by (auto simp: and_then_eq_Inr opt_context_eq_Inr ensure_eq_Inr)
  obtain r f where w: "fs_write env path secret files = (r, f)" by fastforce
  show ?thesis
  proof (cases r)
    case (Inl e)
    then show ?thesis using assms Inr x w by (simp add: store_credentials_def)
  next
    case r: (Inr u)
    then have f: "f = files(path \<mapsto> secret)" using w by (simp add: fs_write_Inr)
    have "save env (settings\<lparr>ds_username := Some username\<rparr>) f = (Inr (), files')"
      and s: "settings' = settings\<lparr>ds_username := Some username\<rparr>"
      using assms Inr x w r by (auto simp: store_credentials_def Let_def split: prod.splits)
    from this(1) obtain directory contents where d: "settings_dir env = Inr directory"
      "files' = f(path_join directory ''desktop.json'' \<mapsto> contents)"
      by (rule save_Inr)
    then have "path = path_join directory ''client-secret''" using c(4) by (simp add: secret_path_def)
    then show ?thesis using c d f s secret_not_settings [of directory] by auto
  qed
qed

text \<open>A poll that says that nobody has answered yet.\<close>

definition poll_pending :: "desktop_env \<Rightarrow> (nat \<times> bytes) res \<Rightarrow> bool" where
  "poll_pending env answer \<longleftrightarrow> (\<exists>response. answer = Inr response \<and>
     (fst response = 202 \<or> (\<exists>status. response_json env de_enrollment_status response = Inr status \<and>
        es_status status \<noteq> ''claimed'')))"

lemma enroll_poll_pending:
  assumes "\<forall>j. i \<le> j \<and> j < i + n \<longrightarrow> (\<forall>url token. poll_pending env (dv_poll env j url token))"
  shows "enroll_poll env created n i settings files =
    (bail ''enrollment expired before it was approved'', settings, files)"
  using assms
proof (induction n arbitrary: i)
  case 0
  then show ?case by simp
next
  case (Suc n)
  have "poll_pending env (dv_poll env i (trim_end_matches (CHR ''/'') (ds_control_plane_url settings) @ ''/api/enrollments/'' @
          en_code created) (en_poll_token created))"
    using Suc.prems by simp
  moreover have "enroll_poll env created n (Suc i) settings files =
      (bail ''enrollment expired before it was approved'', settings, files)"
    using Suc.prems by (intro Suc.IH) simp
  ultimately show ?case by (auto simp: poll_pending_def)
qed

lemma enroll_poll_Inr:
  assumes "enroll_poll env created n i settings files = (Inr (), settings', files')"
  shows "\<exists>status. store_credentials env status settings files = (Inr (), settings', files')"
  using assms
proof (induction n arbitrary: i)
  case 0
  then show ?case by (simp add: bail_def)
next
  case (Suc n)
  then show ?case by (auto split: sum.splits if_splits)
qed

lemma enroll_Inr:
  assumes "enroll env settings files = (Inr (), settings', files')"
  shows "\<exists>path secret. secret_path env = Inr path \<and> files' path = Some secret \<and> secret \<noteq> [] \<and>
         ds_username settings' \<noteq> None \<and>
         (ds_remote_managed settings \<longrightarrow> central_bootstrap env files' settings' =
            Some \<lparr>cb_control_plane_url = ds_control_plane_url settings, cb_control_plane_config = True,
              cb_username = ds_username settings', cb_client_secret_file = Some path\<rparr>)"
proof -
  from assms obtain created where "enroll_poll env created 120 0 settings files = (Inr (), settings', files')"
    by (auto simp: enroll_def split: sum.splits)
  from enroll_poll_Inr [OF this] obtain status where
    "store_credentials env status settings files = (Inr (), settings', files')" by blast
  from store_credentials_Inr [OF this] obtain directory secret where
    "settings_dir env = Inr directory" "secret \<noteq> []" "files' (path_join directory ''client-secret'') = Some secret"
    "settings' = settings\<lparr>ds_username := es_username status\<rparr>" "es_username status \<noteq> None"
    by blast
  then show ?thesis
    by (intro exI [of _ "path_join directory ''client-secret''"] exI [of _ secret])
      (simp add: secret_path_def central_bootstrap_def)
qed

text \<open>With a JSON layer that reads back what it wrote, a second load finds what the first one found.\<close>

lemma load_again:
  assumes json: "\<forall>v raw. dv_to_text env v = Inr raw \<longrightarrow> dv_from_text env raw = Some v"
    and first: "load_or_create env files = (Inr s, f)" and again: "load_or_create env f = (Inr s', f')"
  shows "s' = s \<and> f' = f"
proof -
  obtain directory where d: "settings_dir env = Inr directory"
    using first by (cases "settings_dir env") (simp_all add: load_or_create_def)
  let ?path = "path_join directory ''desktop.json''"
  show ?thesis
  proof (cases "files ?path")
    case (Some raw)
    then have "f = files" using first d by (auto simp: load_or_create_def split: option.splits)
    with first again show ?thesis by simp
  next
    case None
    then have "s = default_settings env" and "save env (default_settings env) files = (Inr (), f)"
      using first d by (auto simp: load_or_create_def split: prod.splits sum.splits)
    from this(2) obtain directory' contents where "settings_dir env = Inr directory'"
      "dv_to_text env (ser_desktop_settings (default_settings env)) = Inr contents"
      "f = files(path_join directory' ''desktop.json'' \<mapsto> contents)"
      by (rule save_Inr)
    with again d json \<open>s = _\<close> show ?thesis
      by (auto simp: load_or_create_def de_ser_desktop_settings split: option.splits)
  qed
qed

lemma response_json_poll [simp]: "response_json (env\<lparr>dv_poll := p\<rparr>) de r = response_json env de r"
  by (simp add: response_json_def)

lemma settings_dir_poll [simp]: "settings_dir (env\<lparr>dv_poll := p\<rparr>) = settings_dir env"
  by (simp add: settings_dir_def)

lemma storage_poll [simp]:
  "secret_path (env\<lparr>dv_poll := p\<rparr>) = secret_path env"
  "fs_write (env\<lparr>dv_poll := p\<rparr>) = fs_write env"
  "save (env\<lparr>dv_poll := p\<rparr>) = save env"
  by (simp_all add: secret_path_def fs_write_def save_def fun_eq_iff split: sum.split)

lemma store_credentials_poll [simp]:
  "store_credentials (env\<lparr>dv_poll := p\<rparr>) status settings files = store_credentials env status settings files"
  by (simp add: store_credentials_def Let_def split: sum.split prod.split)

lemma enroll_poll_cong:
  assumes "\<forall>j. i \<le> j \<and> j < i + n \<longrightarrow> p j = dv_poll env j"
  shows "enroll_poll (env\<lparr>dv_poll := p\<rparr>) created n i settings files = enroll_poll env created n i settings files"
  using assms
proof (induction n arbitrary: i)
  case 0
  then show ?case by simp
next
  case (Suc n)
  have "enroll_poll (env\<lparr>dv_poll := p\<rparr>) created n (Suc i) settings files = enroll_poll env created n (Suc i) settings files"
    using Suc.prems by (intro Suc.IH) simp
  moreover have "p i = dv_poll env i" using Suc.prems by simp
  ultimately show ?case by (simp split: sum.split)
qed

section \<open>Properties\<close>

text \<open>Preferences survive a restart. With a JSON layer that reads back what it wrote, saving
  preferences and loading them again returns exactly them and leaves the files alone, so the
  device keeps its identity, its control plane and its user name.\<close>

theorem settings_persist:
  assumes "\<forall>v raw. dv_to_text env v = Inr raw \<longrightarrow> dv_from_text env raw = Some v"
    "\<forall>path. dv_unreadable env path = None"
    "save env settings files = (Inr (), files')"
  shows "load_or_create env files' = (Inr settings, files')"
proof -
  from assms(3) obtain directory contents where "settings_dir env = Inr directory"
    "dv_to_text env (ser_desktop_settings settings) = Inr contents"
    "files' = files(path_join directory ''desktop.json'' \<mapsto> contents)"
    by (rule save_Inr)
  with assms(1,2) show ?thesis by (simp add: load_or_create_def de_ser_desktop_settings)
qed

text \<open>A JSON layer with one character for each value that is written here.\<close>

definition example_desktop_env :: desktop_env where
  "example_desktop_env =
     \<lparr>dv_config_dir = Some ''/c'', dv_uuid = ''id'', dv_to_text = (\<lambda>v. Inr (replicate (to_nat v) CHR ''1'')),
      dv_from_text = (\<lambda>t. Some (if t = ''created'' then SMap [(''code'', SStr ''c''), (''poll_token'', SStr ''t''), (''claim_url'', SStr ''u'')]
         else if t = ''claimed'' then SMap [(''status'', SStr ''claimed''), (''username'', SStr ''m''), (''client_secret'', SStr ''s'')]
         else from_nat (length t))),
      dv_unreadable = (\<lambda>_. None), dv_create_dir_all = (\<lambda>_. Inr ()), dv_write = (\<lambda>_. None),
      dv_post = (\<lambda>_ _. Inr (200, ''created'')), dv_poll = (\<lambda>i _ _. if i < 3 then Inr (202, []) else Inr (200, ''claimed'')),
      dv_open = (\<lambda>_. Inr ()), dv_computername = None, dv_hostname = None, dv_platform = ''linux'', dv_version = ''1''\<rparr>"

lemma not_replicate_1: "replicate n (CHR ''1'') \<noteq> ''created''" "replicate n (CHR ''1'') \<noteq> ''claimed''"
  by (cases n; simp)+

lemma example_json: "\<forall>v raw. dv_to_text example_desktop_env v = Inr raw \<longrightarrow> dv_from_text example_desktop_env raw = Some v"
  using not_replicate_1 by (simp add: example_desktop_env_def)

theorem settings_persist_witness:
  "\<exists>files. load_or_create example_desktop_env files =
     (Inr \<lparr>ds_remote_managed = True, ds_control_plane_url = ''https://h'', ds_username = Some ''m'', ds_device_id = ''d''\<rparr>, files)"
proof -
  let ?s = "\<lparr>ds_remote_managed = True, ds_control_plane_url = ''https://h'', ds_username = Some ''m'', ds_device_id = ''d''\<rparr>"
  have r: "\<forall>path. dv_unreadable example_desktop_env path = None" by (simp add: example_desktop_env_def)
  obtain files' where "save example_desktop_env ?s Map.empty = (Inr (), files')"
    by (simp add: save_def settings_dir_def fs_write_def example_desktop_env_def)
  from settings_persist [OF example_json r this] show ?thesis by blast
qed

text \<open>C16: enrollment ends. It polls at most 120 times, whatever the answers would be after that; if
  none of those polls is answered it fails as expired and has changed neither settings nor
  files; and when it succeeds, a non-empty secret and a user name are stored, so that a
  remotely managed client can start from them.\<close>

theorem enrollment_ends:
  "(\<forall>later. enroll (env\<lparr>dv_poll := \<lambda>i. if i < 120 then dv_poll env i else later i\<rparr>) settings files =
      enroll env settings files) \<and>
   ((\<forall>i<120. \<forall>url token. poll_pending env (dv_poll env i url token)) \<longrightarrow>
      (\<exists>e. enroll env settings files = (Inl e, settings, files))) \<and>
   (\<forall>settings' files'. enroll env settings files = (Inr (), settings', files') \<longrightarrow>
      (\<exists>path secret. secret_path env = Inr path \<and> files' path = Some secret \<and> secret \<noteq> [] \<and>
         ds_username settings' \<noteq> None \<and>
         (ds_remote_managed settings \<longrightarrow> central_bootstrap env files' settings' =
            Some \<lparr>cb_control_plane_url = ds_control_plane_url settings, cb_control_plane_config = True,
              cb_username = ds_username settings', cb_client_secret_file = Some path\<rparr>)))"
proof (intro conjI allI impI)
  fix later
  show "enroll (env\<lparr>dv_poll := \<lambda>i. if i < 120 then dv_poll env i else later i\<rparr>) settings files = enroll env settings files"
    by (auto simp: enroll_def ser_enrollment_request_def enroll_poll_cong split: sum.split)
next
  assume "\<forall>i<120. \<forall>url token. poll_pending env (dv_poll env i url token)"
  then have "enroll_poll env created 120 0 settings files =
      (bail ''enrollment expired before it was approved'', settings, files)" for created
    by (intro enroll_poll_pending) simp
  then show "\<exists>e. enroll env settings files = (Inl e, settings, files)"
    by (auto simp: enroll_def bail_def split: sum.split)
next
  fix settings' files' assume "enroll env settings files = (Inr (), settings', files')"
  then show "\<exists>path secret. secret_path env = Inr path \<and> files' path = Some secret \<and> secret \<noteq> [] \<and>
         ds_username settings' \<noteq> None \<and>
         (ds_remote_managed settings \<longrightarrow> central_bootstrap env files' settings' =
            Some \<lparr>cb_control_plane_url = ds_control_plane_url settings, cb_control_plane_config = True,
              cb_username = ds_username settings', cb_client_secret_file = Some path\<rparr>)"
    by (rule enroll_Inr)
qed

lemma example_enrolls:
  "\<exists>settings' files'. enroll example_desktop_env (default_settings example_desktop_env) files = (Inr (), settings', files')"
proof -
  let ?created = "\<lparr>en_code = ''c'', en_poll_token = ''t'', en_claim_url = ''u''\<rparr>"
  let ?s = "default_settings example_desktop_env"
  have wait: "enroll_poll example_desktop_env ?created (Suc n) i ?s files =
      enroll_poll example_desktop_env ?created n (Suc i) ?s files" if "i < 3" for n i
    using that by (simp add: example_desktop_env_def)
  have "response_json example_desktop_env de_enrollment_status (200, ''claimed'') =
      Inr \<lparr>es_status = ''claimed'', es_username = Some ''m'', es_client_secret = Some ''s''\<rparr>"
    by (simp add: example_desktop_env_def response_json_def error_for_status_def de_enrollment_status_def
        struct_fields_def field_defs)
  moreover have "\<exists>settings' files'. store_credentials example_desktop_env
      \<lparr>es_status = ''claimed'', es_username = Some ''m'', es_client_secret = Some ''s''\<rparr> ?s files = (Inr (), settings', files')"
    by (simp add: example_desktop_env_def store_credentials_def secret_path_def settings_dir_def fs_write_def save_def Let_def)
  moreover have "dv_poll example_desktop_env 3 url token = Inr (200, ''claimed'')" for url token
    by (simp add: example_desktop_env_def)
  ultimately have claimed: "\<exists>settings' files'. enroll_poll example_desktop_env ?created (Suc n) 3 ?s files = (Inr (), settings', files')" for n
    by simp
  have n: "(120 :: nat) = Suc (Suc (Suc (Suc 116)))" "Suc (Suc (Suc 0)) = (3 :: nat)" by simp_all
  have "enroll_poll example_desktop_env ?created 120 0 ?s files =
      enroll_poll example_desktop_env ?created (Suc 116) 3 ?s files"
    unfolding n(1) by (subst wait, simp, subst wait, simp, subst wait, simp) (simp only: n(2))
  moreover have "enroll example_desktop_env ?s files = enroll_poll example_desktop_env ?created 120 0 ?s files"
    by (simp add: enroll_def example_desktop_env_def response_json_def error_for_status_def de_enrollment_created_def
        struct_fields_def field_defs)
  ultimately show ?thesis using claimed by metis
qed

theorem enrollment_ends_witness:
  "\<exists>settings' files' path secret.
     enroll example_desktop_env (default_settings example_desktop_env) Map.empty = (Inr (), settings', files') \<and>
     secret_path example_desktop_env = Inr path \<and> files' path = Some secret \<and> secret \<noteq> []"
proof -
  obtain settings' files' where
    e: "enroll example_desktop_env (default_settings example_desktop_env) Map.empty = (Inr (), settings', files')"
    using example_enrolls by blast
  from enrollment_ends [THEN conjunct2, THEN conjunct2, THEN spec, THEN spec, THEN mp, OF e] obtain path secret where
    "secret_path example_desktop_env = Inr path" "files' path = Some secret" "secret \<noteq> []"
    by (elim exE conjE)
  with e show ?thesis
    by (intro exI [of _ settings'] exI [of _ files'] exI [of _ path] exI [of _ secret] conjI)
qed

end
