(* ===== verification/Cli.thy ===== *)
theory Cli
  imports Config_Load
begin

text \<open>
  The command line and the environment (\<^verbatim>\<open>shared/src/cli.rs\<close>): environment variables whose value is
  kept in a file, and the layering of the parsed options over the configuration files. The
  argument parser is third-party code: \<^verbatim>\<open>clap\<close>'s result, in which a flag already won over its
  environment variable, is the \<open>ingress_cli\<close> or \<open>client_cli\<close> that \<open>parse\<close> returns for an
  environment. The environment is a map; reading a file is a parameter.
\<close>

section \<open>File-backed environment variables\<close>

type_synonym environment = "string \<Rightarrow> string option"

definition FILE_BACKED_ENVIRONMENT :: "string list" where
  "FILE_BACKED_ENVIRONMENT =
     [''LFP_PIPE_CONFIG'', ''RUST_LOG'', ''LFP_PIPE_PUBLIC_LISTEN'', ''LFP_PIPE_DATA_LISTEN'',
      ''LFP_PIPE_ADVERTISED_DATA_ADDR'', ''LFP_PIPE_NATS_URL'', ''LFP_PIPE_NATS_TOKEN_FILE'',
      ''LFP_PIPE_RELAY_MODE'', ''LFP_PIPE_REQUEST_SUBJECT'', ''LFP_PIPE_DOMAIN_SUBJECT_ROUTING'',
      ''LFP_PIPE_CLAIM_TIMEOUT_MS'', ''LFP_PIPE_PENDING_TIMEOUT_MS'', ''LFP_PIPE_CLIENT_ID'',
      ''LFP_PIPE_CLAIM_ACK_TIMEOUT_MS'', ''LFP_PIPE_TRAY'', ''LFP_PIPE_OAUTH_USERNAME'',
      ''LFP_PIPE_OAUTH_CLIENT_SECRET_FILE'']"

definition load_file_backed_value ::
    "(string \<Rightarrow> bytes res) \<Rightarrow> string \<Rightarrow> string option \<Rightarrow> string option \<Rightarrow> string option res" where
  "load_file_backed_value read_to_string name direct file_path =
     (if direct \<noteq> None then Inr direct
      else (case file_path of
          None \<Rightarrow> Inr None
        | Some path \<Rightarrow>
            and_then (add_context (''read '' @ name @ ''_FILE from '' @ path) (read_to_string path)) (\<lambda>value.
              Inr (Some (trim_end_while (\<lambda>c. c = CHR 0x0D \<or> c = CHR 0x0A) value)))))"

fun hydrate_names :: "(string \<Rightarrow> bytes res) \<Rightarrow> string list \<Rightarrow> environment \<Rightarrow> environment res" where
  "hydrate_names read_to_string [] env = Inr env"
| "hydrate_names read_to_string (name # names) env =
     and_then (load_file_backed_value read_to_string name (env name) (env (name @ ''_FILE''))) (\<lambda>value.
       hydrate_names read_to_string names
         (case value of None \<Rightarrow> env | Some value \<Rightarrow> env(name \<mapsto> value)))"

definition hydrate_file_backed_environment :: "(string \<Rightarrow> bytes res) \<Rightarrow> environment \<Rightarrow> environment res" where
  "hydrate_file_backed_environment read_to_string env =
     hydrate_names read_to_string FILE_BACKED_ENVIRONMENT env"

section \<open>Options\<close>

datatype desktop_mode = Desktop_auto | Desktop_always | Desktop_never

record ingress_cli =
  il_config :: "string option"
  il_log_filter :: string
  il_public_listen :: "string option"
  il_data_listen :: "string option"
  il_advertised_data_addr :: "string option"
  il_nats_url :: "string option"
  il_nats_token_file :: "string option"
  il_relay_mode :: "relay_mode option"
  il_request_subject :: "string option"
  il_domain_subject_routing :: "bool option"
  il_claim_timeout_ms :: "u64 option"
  il_pending_timeout_ms :: "u64 option"
  il_ingress_handshake_timeout_ms :: "u64 option"
  il_callback_handshake_timeout_ms :: "u64 option"
  il_max_ingress_connections :: "usize option"
  il_max_callback_handshakes :: "usize option"

record client_cli =
  kl_config :: "string option"
  kl_log_filter :: string
  kl_client_id :: "string option"
  kl_nats_url :: "string option"
  kl_nats_token_file :: "string option"
  kl_relay_mode :: "relay_mode option"
  kl_request_subject :: "string option"
  kl_claim_ack_timeout_ms :: "u64 option"
  kl_tray :: desktop_mode
  kl_oauth_username :: "string option"
  kl_oauth_client_secret_file :: "string option"

record runtime_config =
  rn_config :: ingress_config
  rn_log_filter :: string

record client_runtime_config =
  rc_config :: "client_config list"
  rc_log_filter :: string
  rc_config_path :: string
  rc_desktop_mode :: desktop_mode
  rc_central :: "central_client_bootstrap option"

definition ingress_overrides_of :: "ingress_cli \<Rightarrow> ingress_overrides" where
  "ingress_overrides_of cli =
     \<lparr>io_public_listen = il_public_listen cli, io_data_listen = il_data_listen cli,
      io_advertised_data_addr = il_advertised_data_addr cli, io_nats_url = il_nats_url cli,
      io_nats_token_file = il_nats_token_file cli, io_relay_mode = il_relay_mode cli,
      io_request_subject = il_request_subject cli,
      io_domain_subject_routing = il_domain_subject_routing cli,
      io_claim_timeout_ms = il_claim_timeout_ms cli, io_pending_timeout_ms = il_pending_timeout_ms cli,
      io_ingress_handshake_timeout_ms = il_ingress_handshake_timeout_ms cli,
      io_callback_handshake_timeout_ms = il_callback_handshake_timeout_ms cli,
      io_max_ingress_connections = il_max_ingress_connections cli,
      io_max_callback_handshakes = il_max_callback_handshakes cli\<rparr>"

definition ingress_cli_load ::
    "(string \<Rightarrow> bytes res) \<Rightarrow> (bytes \<Rightarrow> sval option) \<Rightarrow> ingress_cli \<Rightarrow> runtime_config res" where
  "ingress_cli_load read_to_string parse_toml cli =
     and_then (opt_context ''ingress requires --config or LFP_PIPE_CONFIG'' (il_config cli)) (\<lambda>config_path.
     and_then (load_ingress_config read_to_string parse_toml config_path) (\<lambda>config.
       Inr \<lparr>rn_config = ingress_with_overrides config (ingress_overrides_of cli),
            rn_log_filter = il_log_filter cli\<rparr>))"

definition client_overrides_of :: "client_cli \<Rightarrow> client_overrides" where
  "client_overrides_of cli =
     \<lparr>co_client_id = kl_client_id cli, co_nats_url = kl_nats_url cli, co_nats_token_file = kl_nats_token_file cli,
      co_relay_mode = kl_relay_mode cli, co_request_subject = kl_request_subject cli,
      co_claim_ack_timeout_ms = kl_claim_ack_timeout_ms cli\<rparr>"

definition client_cli_load ::
    "(string \<Rightarrow> bool) \<Rightarrow> (string \<Rightarrow> bytes res) \<Rightarrow> (bytes \<Rightarrow> sval option) \<Rightarrow> client_cli \<Rightarrow>
     client_runtime_config res" where
  "client_cli_load path_exists read_to_string parse_toml cli =
     (let config_path = unwrap_or ''client.toml'' (kl_config cli);
          overrides = client_overrides_of cli in
      and_then (if path_exists config_path
        then load_central_client_bootstrap read_to_string parse_toml config_path else Inr None) (\<lambda>central.
      let central = map_option (\<lambda>bootstrap. bootstrap\<lparr>
            cb_username := or_else (kl_oauth_username cli) (cb_username bootstrap),
            cb_client_secret_file := or_else (kl_oauth_client_secret_file cli) (cb_client_secret_file bootstrap)\<rparr>) central in
      and_then (if central \<noteq> None then Inr []
        else if path_exists config_path then load_client_configs read_to_string parse_toml config_path
        else Inr []) (\<lambda>loaded.
      and_then (ensure (length loaded = 1 \<or> co_client_id overrides = None)
        ''--client-id/LFP_PIPE_CLIENT_ID cannot override a multi-route config'') (\<lambda>_.
        Inr \<lparr>rc_config = map (\<lambda>config. client_with_overrides config overrides) loaded,
             rc_log_filter = kl_log_filter cli, rc_config_path = config_path,
             rc_desktop_mode = kl_tray cli, rc_central = central\<rparr>))))"

text \<open>\<open>parse\<close> is \<^verbatim>\<open>IngressCli::parse\<close> or \<^verbatim>\<open>ClientCli::parse\<close> in an environment.\<close>

definition parse_ingress_runtime ::
    "(string \<Rightarrow> bytes res) \<Rightarrow> (bytes \<Rightarrow> sval option) \<Rightarrow> (environment \<Rightarrow> ingress_cli) \<Rightarrow> environment \<Rightarrow>
     runtime_config res" where
  "parse_ingress_runtime read_to_string parse_toml parse env =
     and_then (hydrate_file_backed_environment read_to_string env) (\<lambda>env.
       ingress_cli_load read_to_string parse_toml (parse env))"

definition parse_client_runtime ::
    "(string \<Rightarrow> bool) \<Rightarrow> (string \<Rightarrow> bytes res) \<Rightarrow> (bytes \<Rightarrow> sval option) \<Rightarrow> (environment \<Rightarrow> client_cli) \<Rightarrow>
     environment \<Rightarrow> client_runtime_config res" where
  "parse_client_runtime path_exists read_to_string parse_toml parse env =
     and_then (hydrate_file_backed_environment read_to_string env) (\<lambda>env.
       client_cli_load path_exists read_to_string parse_toml (parse env))"

text \<open>\<^verbatim>\<open>main\<close> of the client, headless: which runtime it starts.\<close>

datatype client_start = Run_central central_client_bootstrap | Run_routes "client_config list"

definition client_main :: "client_runtime_config res \<Rightarrow> unit res \<Rightarrow> client_start res" where
  "client_main parsed logging =
     and_then parsed (\<lambda>runtime.
     and_then logging (\<lambda>_.
     and_then (ensure (rc_central runtime \<noteq> None \<or> rc_config runtime \<noteq> [])
       ''headless mode requires --config/LFP_PIPE_CONFIG'') (\<lambda>_.
       Inr (case rc_central runtime of
           Some central \<Rightarrow> Run_central central
         | None \<Rightarrow> Run_routes (rc_config runtime)))))"

section \<open>Lemmas\<close>

text \<open>The names can be filled in any order: none of them is the file variable of another.\<close>

lemma file_backed_names:
  "distinct FILE_BACKED_ENVIRONMENT"
  "\<forall>name\<in>set FILE_BACKED_ENVIRONMENT. name @ ''_FILE'' \<notin> set FILE_BACKED_ENVIRONMENT"
  by code_simp+

text \<open>What a variable holds afterwards.\<close>

definition file_backed :: "(string \<Rightarrow> bytes res) \<Rightarrow> environment \<Rightarrow> string \<Rightarrow> string option res" where
  "file_backed read_to_string env name = load_file_backed_value read_to_string name (env name) (env (name @ ''_FILE''))"

lemma hydrate_names_value:
  assumes "hydrate_names read_to_string names env = Inr env'" "distinct names"
    "\<And>a b. a \<in> set names \<Longrightarrow> b \<in> set names \<Longrightarrow> a @ ''_FILE'' \<noteq> b"
  shows "(\<forall>n\<in>set names. file_backed read_to_string env n = Inr (env' n)) \<and> (\<forall>n. n \<notin> set names \<longrightarrow> env' n = env n)"
  using assms
proof (induction names arbitrary: env)
  case Nil
  then show ?case by simp
next
  case (Cons n names)
  from Cons.prems(1) obtain v where v: "file_backed read_to_string env n = Inr v"
    and rest: "hydrate_names read_to_string names (case v of None \<Rightarrow> env | Some w \<Rightarrow> env(n \<mapsto> w)) = Inr env'"
    by (auto simp: res_simps file_backed_def)
  let ?e = "case v of None \<Rightarrow> env | Some w \<Rightarrow> env(n \<mapsto> w)"
  have ih: "(\<forall>m\<in>set names. file_backed read_to_string ?e m = Inr (env' m)) \<and> (\<forall>m. m \<notin> set names \<longrightarrow> env' m = ?e m)"
    using Cons.prems(2,3) by (intro Cons.IH [OF rest]) auto
  have e: "?e m = env m" if "m \<noteq> n" for m using that by (auto split: option.split)
  have v_none: "v = None \<Longrightarrow> env n = None"
    using v by (auto simp: file_backed_def load_file_backed_value_def split: if_splits)
  have en: "?e n = v" using v_none by (cases v) auto
  have "file_backed read_to_string ?e m = file_backed read_to_string env m" if m: "m \<in> set names" for m
  proof -
    have "m \<noteq> n" using m Cons.prems(2) by auto
    moreover have "m @ ''_FILE'' \<noteq> n" using m Cons.prems(3) [of m n] by simp
    ultimately show ?thesis by (cases v) (simp_all add: file_backed_def)
  qed
  moreover have "env' n = v" using ih en Cons.prems(2) by auto
  ultimately show ?case using ih v e by auto
qed

lemma hydrate_value:
  assumes "hydrate_file_backed_environment read_to_string env = Inr env'"
  shows "name \<in> set FILE_BACKED_ENVIRONMENT \<Longrightarrow> file_backed read_to_string env name = Inr (env' name)"
    "name \<notin> set FILE_BACKED_ENVIRONMENT \<Longrightarrow> env' name = env name"
proof -
  have "(\<forall>n\<in>set FILE_BACKED_ENVIRONMENT. file_backed read_to_string env n = Inr (env' n)) \<and>
      (\<forall>n. n \<notin> set FILE_BACKED_ENVIRONMENT \<longrightarrow> env' n = env n)"
    using assms file_backed_names unfolding hydrate_file_backed_environment_def by (intro hydrate_names_value) auto
  then show "name \<in> set FILE_BACKED_ENVIRONMENT \<Longrightarrow> file_backed read_to_string env name = Inr (env' name)"
    "name \<notin> set FILE_BACKED_ENVIRONMENT \<Longrightarrow> env' name = env name" by auto
qed

text \<open>Overrides never touch what validation looked at.\<close>

lemma with_overrides_ok: "client_config_ok (client_with_overrides c overrides) = client_config_ok c"
  by (simp add: client_config_ok_def client_with_overrides_def)

text \<open>A route as the options leave it: an option that is given wins, an empty token file removes the
  file's, and everything the options do not name is as in the file.\<close>

definition option_wins :: "'a option \<Rightarrow> 'a \<Rightarrow> 'a \<Rightarrow> bool" where
  "option_wins given in_file effective \<longleftrightarrow> effective = (case given of Some v \<Rightarrow> v | None \<Rightarrow> in_file)"

definition route_layered :: "client_cli \<Rightarrow> client_config \<Rightarrow> client_config \<Rightarrow> bool" where
  "route_layered cli file c \<longleftrightarrow>
     option_wins (kl_client_id cli) (cl_client_id file) (cl_client_id c) \<and>
     option_wins (kl_nats_url cli) (cl_nats_url file) (cl_nats_url c) \<and>
     option_wins (kl_relay_mode cli) (cl_relay_mode file) (cl_relay_mode c) \<and>
     option_wins (kl_request_subject cli) (cl_request_subject file) (cl_request_subject c) \<and>
     option_wins (kl_claim_ack_timeout_ms cli) (cl_claim_ack_timeout_ms file) (cl_claim_ack_timeout_ms c) \<and>
     (case kl_nats_token_file cli of
        None \<Rightarrow> cl_nats_token_file c = cl_nats_token_file file
      | Some path \<Rightarrow> cl_nats_token_file c = (if path = [] then None else Some path)) \<and>
     cl_oauth c = cl_oauth file \<and> cl_acme c = cl_acme file \<and> cl_authorization c = cl_authorization file \<and>
     cl_tcp_passthrough c = cl_tcp_passthrough file \<and> cl_backend_rules c = cl_backend_rules file"

lemma with_overrides_layered: "route_layered cli file (client_with_overrides file (client_overrides_of cli))"
  by (simp add: route_layered_def option_wins_def client_with_overrides_def client_overrides_of_def non_empty_def
      split: option.split)

definition bootstrap_layered :: "client_cli \<Rightarrow> central_client_bootstrap \<Rightarrow> central_client_bootstrap \<Rightarrow> bool" where
  "bootstrap_layered cli file b \<longleftrightarrow>
     cb_username b = (if kl_oauth_username cli \<noteq> None then kl_oauth_username cli else cb_username file) \<and>
     cb_client_secret_file b =
       (if kl_oauth_client_secret_file cli \<noteq> None then kl_oauth_client_secret_file cli else cb_client_secret_file file) \<and>
     b\<lparr>cb_username := None, cb_client_secret_file := None\<rparr> = file\<lparr>cb_username := None, cb_client_secret_file := None\<rparr>"

lemma client_cli_load_InrD:
  assumes "client_cli_load path_exists read_to_string parse_toml cli = Inr runtime"
    and path: "path = unwrap_or ''client.toml'' (kl_config cli)"
  shows "rc_central runtime = Some b \<Longrightarrow> path_exists path \<and> (\<exists>file.
      load_central_client_bootstrap read_to_string parse_toml path = Inr (Some file) \<and> bootstrap_layered cli file b)"
    "rc_central runtime = None \<Longrightarrow> rc_config runtime \<noteq> [] \<Longrightarrow> path_exists path \<and> (\<exists>files.
      load_central_client_bootstrap read_to_string parse_toml path = Inr None \<and>
      load_client_configs read_to_string parse_toml path = Inr files \<and>
      list_all2 (route_layered cli) files (rc_config runtime))"
    "\<forall>c\<in>set (rc_config runtime). client_config_ok c"
    "kl_client_id cli \<noteq> None \<Longrightarrow> length (rc_config runtime) = 1"
proof -
  note load = assms(1) [unfolded client_cli_load_def Let_def path [symmetric] and_then_eq_Inr ensure_eq_Inr sum.inject]
  from load obtain central loaded where central:
    "(if path_exists path then load_central_client_bootstrap read_to_string parse_toml path else Inr None) = Inr central"
    and loaded: "(if central \<noteq> None then Inr [] else if path_exists path
       then load_client_configs read_to_string parse_toml path else Inr []) = Inr loaded"
    and one: "length loaded = 1 \<or> co_client_id (client_overrides_of cli) = None"
    and rt: "runtime = \<lparr>rc_config = map (\<lambda>config. client_with_overrides config (client_overrides_of cli)) loaded,
       rc_log_filter = kl_log_filter cli, rc_config_path = path,
       rc_desktop_mode = kl_tray cli, rc_central = map_option (\<lambda>bootstrap. bootstrap\<lparr>
            cb_username := or_else (kl_oauth_username cli) (cb_username bootstrap),
            cb_client_secret_file := or_else (kl_oauth_client_secret_file cli) (cb_client_secret_file bootstrap)\<rparr>) central\<rparr>"
    by (elim exE conjE) (rule that, assumption, simp, simp, rule sym, assumption)
  have "\<forall>c\<in>set loaded. client_config_ok c"
    using loaded parse_client_configs_InrD(1)
    by (fastforce simp: load_client_configs_def and_then_eq_Inr add_context_eq_Inr split: if_splits)
  then show "\<forall>c\<in>set (rc_config runtime). client_config_ok c" by (auto simp: rt with_overrides_ok)
  show "kl_client_id cli \<noteq> None \<Longrightarrow> length (rc_config runtime) = 1"
    using one by (auto simp: rt client_overrides_of_def)
  show "path_exists path \<and> (\<exists>file.
      load_central_client_bootstrap read_to_string parse_toml path = Inr (Some file) \<and> bootstrap_layered cli file b)"
    if "rc_central runtime = Some b"
    using that central by (auto simp: rt bootstrap_layered_def or_else_def split: if_splits option.splits)
  show "path_exists path \<and> (\<exists>files.
      load_central_client_bootstrap read_to_string parse_toml path = Inr None \<and>
      load_client_configs read_to_string parse_toml path = Inr files \<and>
      list_all2 (route_layered cli) files (rc_config runtime))"
    if "rc_central runtime = None" "rc_config runtime \<noteq> []"
    using that central loaded
    by (auto simp: rt list_all2_map2 list_all2_same with_overrides_layered split: if_splits)
qed

text \<open>The limits of the ingress can be set by variables, but have no file-backed form.\<close>

definition ingress_limit_variables :: "string list" where
  "ingress_limit_variables =
     [''LFP_PIPE_INGRESS_HANDSHAKE_TIMEOUT_MS'', ''LFP_PIPE_CALLBACK_HANDSHAKE_TIMEOUT_MS'',
      ''LFP_PIPE_MAX_INGRESS_CONNECTIONS'', ''LFP_PIPE_MAX_CALLBACK_HANDSHAKES'']"

lemma limits_not_file_backed:
  assumes "hydrate_file_backed_environment read_to_string env = Inr env'" "name \<in> set ingress_limit_variables"
  shows "env' name = env name"
proof -
  have "list_all (\<lambda>n. n \<notin> set FILE_BACKED_ENVIRONMENT) ingress_limit_variables" by code_simp
  then have "\<forall>n\<in>set ingress_limit_variables. n \<notin> set FILE_BACKED_ENVIRONMENT" by (simp only: list_all_iff)
  from this assms(2) have "name \<notin> set FILE_BACKED_ENVIRONMENT" by (rule bspec)
  then show ?thesis by (rule hydrate_value(2) [OF assms(1)])
qed

text \<open>An override of the client id is refused when there is no local route at all, although the
  message names a configuration with several.\<close>

lemma client_id_without_routes:
  assumes "\<not> path_exists (unwrap_or ''client.toml'' (kl_config cli))" "kl_client_id cli = Some i"
  shows "\<exists>e. client_cli_load path_exists read_to_string parse_toml cli = Inl e"
  using assms by (simp add: client_cli_load_def Let_def client_overrides_of_def ensure_def bail_def)

section \<open>Properties\<close>

text \<open>C35: the order of precedence. When the client starts, the environment it parsed holds for every
  file-backed variable the direct value if there is one, else the contents of the named file
  without trailing line ends, else nothing, and every other variable as it was. What is started
  was read from the configuration file that the options name, or \<^verbatim>\<open>client.toml\<close>: either its central
  configuration, with the user name and the secret file of the options where they are given
  and everything else as in the file, or, when it has none, its routes, at least one, in their
  order and each accepted by validation, where a setting given as an option wins over the file
  and everything else is as in the file. An explicit client id names exactly one route.\<close>

theorem settings_precedence:
  assumes "client_main (parse_client_runtime path_exists read_to_string parse_toml parse env) logging = Inr start"
  shows "\<exists>env' cli path. cli = parse env' \<and> path = (case kl_config cli of Some p \<Rightarrow> p | None \<Rightarrow> ''client.toml'') \<and>
    (\<forall>name\<in>set FILE_BACKED_ENVIRONMENT.
       (case env name of Some direct \<Rightarrow> env' name = Some direct
        | None \<Rightarrow> (case env (name @ ''_FILE'') of None \<Rightarrow> env' name = None
           | Some path \<Rightarrow> \<exists>contents. read_to_string path = Inr contents \<and>
               env' name = Some (trim_end_while (\<lambda>c. c = CHR 0x0D \<or> c = CHR 0x0A) contents)))) \<and>
    (\<forall>name. name \<notin> set FILE_BACKED_ENVIRONMENT \<longrightarrow> env' name = env name) \<and> path_exists path \<and>
    (case start of
        Run_central b \<Rightarrow> \<exists>file. load_central_client_bootstrap read_to_string parse_toml path = Inr (Some file) \<and>
          bootstrap_layered cli file b
      | Run_routes configs \<Rightarrow> \<exists>files. load_central_client_bootstrap read_to_string parse_toml path = Inr None \<and>
          load_client_configs read_to_string parse_toml path = Inr files \<and>
          list_all2 (route_layered cli) files configs \<and> configs \<noteq> [] \<and>
          (kl_client_id cli \<noteq> None \<longrightarrow> length configs = 1) \<and> list_all client_config_ok configs)"
proof -
  from assms obtain runtime env' where h: "hydrate_file_backed_environment read_to_string env = Inr env'"
    and load: "client_cli_load path_exists read_to_string parse_toml (parse env') = Inr runtime"
    and start: "rc_central runtime \<noteq> None \<or> rc_config runtime \<noteq> []"
      "start = (case rc_central runtime of Some central \<Rightarrow> Run_central central | None \<Rightarrow> Run_routes (rc_config runtime))"
    by (auto simp: client_main_def parse_client_runtime_def and_then_eq_Inr ensure_eq_Inr)
  define path where "path = (case kl_config (parse env') of Some p \<Rightarrow> p | None \<Rightarrow> ''client.toml'')"
  then have "path = unwrap_or ''client.toml'' (kl_config (parse env'))"
    by (cases "kl_config (parse env')") simp_all
  note l = client_cli_load_InrD [OF load this]
  have "case env name of Some direct \<Rightarrow> env' name = Some direct
      | None \<Rightarrow> (case env (name @ ''_FILE'') of None \<Rightarrow> env' name = None
         | Some path \<Rightarrow> \<exists>contents. read_to_string path = Inr contents \<and>
             env' name = Some (trim_end_while (\<lambda>c. c = CHR 0x0D \<or> c = CHR 0x0A) contents))"
    if "name \<in> set FILE_BACKED_ENVIRONMENT" for name
    using hydrate_value(1) [OF h that]
    by (auto simp: file_backed_def load_file_backed_value_def and_then_eq_Inr add_context_eq_Inr
        split: option.splits)
  moreover have "path_exists path \<and> (case start of
        Run_central b \<Rightarrow> \<exists>file. load_central_client_bootstrap read_to_string parse_toml path = Inr (Some file) \<and>
          bootstrap_layered (parse env') file b
      | Run_routes configs \<Rightarrow> \<exists>files. load_central_client_bootstrap read_to_string parse_toml path = Inr None \<and>
          load_client_configs read_to_string parse_toml path = Inr files \<and>
          list_all2 (route_layered (parse env')) files configs \<and> configs \<noteq> [] \<and>
          (kl_client_id (parse env') \<noteq> None \<longrightarrow> length configs = 1) \<and> list_all client_config_ok configs)"
    using start l by (cases "rc_central runtime") (auto simp: list_all_iff)
  ultimately show ?thesis
    using hydrate_value(2) [OF h] path_def
    by (intro exI [of _ env'] exI [of _ "parse env'"] exI [of _ path] conjI ballI allI impI refl) simp_all
qed

text \<open>A document of one route, found under the name that a file holds.\<close>

definition example_document :: sval where
  "example_document = SMap [(''client_id'', SStr ''a''), (''nats_url'', SStr ''n''), (''backend_rules'', SSeq [])]"

definition example_client_cli :: "environment \<Rightarrow> client_cli" where
  "example_client_cli env =
     \<lparr>kl_config = env ''LFP_PIPE_CONFIG'', kl_log_filter = ''info'', kl_client_id = env ''LFP_PIPE_CLIENT_ID'',
      kl_nats_url = None, kl_nats_token_file = None, kl_relay_mode = None, kl_request_subject = None,
      kl_claim_ack_timeout_ms = None, kl_tray = Desktop_never, kl_oauth_username = None,
      kl_oauth_client_secret_file = None\<rparr>"

definition example_environment :: environment where
  "example_environment = map_of [(''LFP_PIPE_CLIENT_ID_FILE'', ''id''), (''LFP_PIPE_CONFIG'', ''c.toml'')]"

lemma hydrate_names_total: "\<exists>env'. hydrate_names (\<lambda>_. Inr contents) names env = Inr env'"
proof (induction names arbitrary: env)
  case Nil
  then show ?case by simp
next
  case (Cons n names)
  have "\<exists>v. load_file_backed_value (\<lambda>_. Inr contents) n (env n) (env (n @ ''_FILE'')) = Inr v"
    by (auto simp: load_file_backed_value_def split: option.split)
  with Cons.IH show ?case by auto
qed

lemma example_document_loads:
  "\<exists>c. load_client_configs (\<lambda>_. Inr raw) (\<lambda>_. Some example_document) path = Inr [c] \<and> cl_nats_url c = ''n''"
  "load_central_client_bootstrap (\<lambda>_. Inr raw) (\<lambda>_. Some example_document) path = Inr None"
proof -
  obtain c where "de_client_config_document example_document = Inr (Legacy c)" "cl_backend_rules c = []"
    "cl_authorization c = None" "cl_nats_url c = ''n''"
    by (auto simp: example_document_def de_client_config_document_def de_multi_route_client_config_def de_client_config_def
        struct_fields_def field_defs serde_error_def)
  then show "\<exists>c. load_client_configs (\<lambda>_. Inr raw) (\<lambda>_. Some example_document) path = Inr [c] \<and> cl_nats_url c = ''n''"
    by (simp add: load_client_configs_def parse_client_configs_def from_toml_def
        inherit_authorization_def validate_client_config_def)
  show "load_central_client_bootstrap (\<lambda>_. Inr raw) (\<lambda>_. Some example_document) path = Inr None"
    by (simp add: load_central_client_bootstrap_def from_toml_def toml_get_bool_def example_document_def)
qed

theorem settings_precedence_witness:
  "\<exists>c. client_main (parse_client_runtime (\<lambda>_. True) (\<lambda>_. Inr ''b'') (\<lambda>_. Some example_document)
       example_client_cli example_environment) (Inr ()) = Inr (Run_routes [c]) \<and> client_config_ok c \<and>
     cl_client_id c = ''b'' \<and> cl_nats_url c = ''n''"
proof -
  obtain env' where h: "hydrate_file_backed_environment (\<lambda>_. Inr ''b'') example_environment = Inr env'"
    using hydrate_names_total unfolding hydrate_file_backed_environment_def by blast
  obtain loaded where "load_client_configs (\<lambda>_. Inr ''b'') (\<lambda>_. Some example_document)
      (unwrap_or ''client.toml'' (kl_config (example_client_cli env'))) = Inr [loaded]"
    using example_document_loads(1) by blast
  then obtain c where s: "client_main (parse_client_runtime (\<lambda>_. True) (\<lambda>_. Inr ''b'') (\<lambda>_. Some example_document)
      example_client_cli example_environment) (Inr ()) = Inr (Run_routes [c])"
    by (simp add: client_main_def parse_client_runtime_def h client_cli_load_def example_document_loads(2) Let_def)
  have v: "''LFP_PIPE_CLIENT_ID'' \<in> set FILE_BACKED_ENVIRONMENT"
    "example_environment ''LFP_PIPE_CLIENT_ID'' = None"
    "example_environment (''LFP_PIPE_CLIENT_ID'' @ ''_FILE'') = Some ''id''"
    "trim_end_while (\<lambda>c. c = CHR 0x0D \<or> c = CHR 0x0A) ''b'' = ''b''" by code_simp+
  from settings_precedence [OF s] obtain e path files where e: "\<forall>name\<in>set FILE_BACKED_ENVIRONMENT.
       (case example_environment name of Some direct \<Rightarrow> e name = Some direct
        | None \<Rightarrow> (case example_environment (name @ ''_FILE'') of None \<Rightarrow> e name = None
           | Some path \<Rightarrow> \<exists>contents. Inr ''b'' = (Inr contents :: bytes res) \<and>
               e name = Some (trim_end_while (\<lambda>c. c = CHR 0x0D \<or> c = CHR 0x0A) contents)))"
    and files: "load_client_configs (\<lambda>_. Inr ''b'') (\<lambda>_. Some example_document) path = Inr files"
      "list_all2 (route_layered (example_client_cli e)) files [c]" "list_all client_config_ok [c]"
    by (auto simp only: client_start.case)
  obtain f0 where f: "files = [f0]" "cl_nats_url f0 = ''n''"
    using example_document_loads(1) [of "''b''" path] files(1) by auto
  have "e ''LFP_PIPE_CLIENT_ID'' = Some ''b''"
    using bspec [OF e v(1)] v(2-4) by simp
  with files(2) f have "cl_client_id c = ''b''" "cl_nats_url c = ''n''"
    by (simp_all add: route_layered_def option_wins_def example_client_cli_def)
  then show ?thesis using s files(3) by auto
qed

end
