(* ===== verification/Desktop.thy ===== *)
theory Desktop
  imports Desktop_Settings Cli Client_Tunnel
begin

text \<open>
  The desktop tray (\<^verbatim>\<open>client/src/desktop.rs\<close>): when it runs, which runtime its worker starts, the
  handlers of its events, the restart of the process, and the pixels of its icon. The
  toolkit, the operating system and other processes are fields of \<open>tray_env\<close>; drawing is
  third-party code. The state is \<open>tray_application\<close>, with the user's files, the processes
  started and whether the event loop was told to exit.
\<close>

section \<open>When the tray runs\<close>

datatype target_os = Linux | Windows | Macos

definition desktop_session_available :: "target_os \<Rightarrow> environment \<Rightarrow> bool" where
  "desktop_session_available os env = (case os of
      Linux \<Rightarrow> env ''DISPLAY'' \<noteq> None \<or> env ''WAYLAND_DISPLAY'' \<noteq> None
    | Windows \<Rightarrow> (case env ''SESSIONNAME'' of
        Some name \<Rightarrow> \<not> eq_ignore_ascii_case name ''services'' | None \<Rightarrow> True)
    | Macos \<Rightarrow> env ''SSH_CONNECTION'' = None \<or> env ''TERM_PROGRAM'' \<noteq> None)"

definition should_run :: "target_os \<Rightarrow> environment \<Rightarrow> desktop_mode \<Rightarrow> bool" where
  "should_run os env mode = (case mode of
      Desktop_always \<Rightarrow> True | Desktop_never \<Rightarrow> False | Desktop_auto \<Rightarrow> desktop_session_available os env)"

section \<open>The worker\<close>

datatype runtime_choice = Choose_central central_client_bootstrap | Choose_local "client_config list" | Choose_nothing

definition managed_central :: "desktop_settings \<Rightarrow> client_config list \<Rightarrow> central_client_bootstrap option \<Rightarrow> bool" where
  "managed_central settings configs central \<longleftrightarrow> central \<noteq> None \<or> (configs = [] \<and> ds_remote_managed settings)"

text \<open>The worker thread, with its asynchronous runtime, up to the client runtime it blocks on, with the statuses it sends.
  With no bootstrap the local runtime gets the routes there are.\<close>

definition choose_runtime ::
    "desktop_env \<Rightarrow> client_config list \<Rightarrow> central_client_bootstrap option \<Rightarrow> user_files \<Rightarrow>
     runtime_choice res \<times> string list \<times> user_files" where
  "choose_runtime env configs central files = (case central of
      Some bootstrap \<Rightarrow> (Inr (Choose_central bootstrap), [], files)
    | None \<Rightarrow>
        if configs \<noteq> [] then (Inr (Choose_local configs), [], files)
        else (case load_or_create env files of
            (Inl e, files) \<Rightarrow> (Inl e, [], files)
          | (Inr settings, files) \<Rightarrow>
              if \<not> ds_remote_managed settings then (Inr Choose_nothing, [], files)
              else (case load_or_create env files of
                  (Inl e, files) \<Rightarrow> (Inl e, [], files)
                | (Inr settings, files) \<Rightarrow>
                    (case central_bootstrap env files settings of
                       Some bootstrap \<Rightarrow> (Inr (Choose_central bootstrap), [], files)
                     | None \<Rightarrow>
                         let statuses = [''Enrollment required '' @ middle_dot @ '' approve in browser''] in
                         (case enroll env settings files of
                            (Inl e, _, files) \<Rightarrow> (Inl e, statuses, files)
                          | (Inr _, settings, files) \<Rightarrow>
                              (Inr (case central_bootstrap env files settings of
                                   Some bootstrap \<Rightarrow> Choose_central bootstrap | None \<Rightarrow> Choose_local configs),
                               statuses, files))))))"

text \<open>The message when the worker's runtime is over.\<close>

definition runtime_stopped :: "unit res \<Rightarrow> string" where
  "runtime_stopped result = (case result of
      Inr _ \<Rightarrow> ''No local routes configured'' | Inl _ \<Rightarrow> ''Tunnel unavailable'')"

definition next_local_delay :: "nat \<Rightarrow> nat" where
  "next_local_delay retry_delay = min (min (retry_delay * 2) DURATION_MAX) (seconds 30)"

text \<open>\<^verbatim>\<open>run_local_forever\<close> over the ends of its runs: the sleeps, and whether it has returned.\<close>

fun local_sleeps :: "nat \<Rightarrow> unit res list \<Rightarrow> nat list" where
  "local_sleeps retry_delay [] = []"
| "local_sleeps retry_delay (_ # ends) = retry_delay # local_sleeps (next_local_delay retry_delay) ends"

definition run_local_forever :: "client_config list \<Rightarrow> (string \<times> unit res) option list \<Rightarrow> unit res option \<times> nat list" where
  "run_local_forever configs joined =
     (if configs = [] then (Some (Inr ()), [])
      else (None, local_sleeps (seconds 1) (map (run_all configs) joined)))"

section \<open>Paths and processes\<close>

definition absolute_path :: "(string \<Rightarrow> string res) \<Rightarrow> string res \<Rightarrow> string \<Rightarrow> string" where
  "absolute_path canonicalize current_dir path = (case canonicalize path of
      Inr p \<Rightarrow> p
    | Inl _ \<Rightarrow> if starts_with ''/'' path then path
        else path_join (case current_dir of Inr d \<Rightarrow> d | Inl _ \<Rightarrow> ''.'') path)"

definition watch_matches ::
    "(string \<Rightarrow> string res) \<Rightarrow> string res \<Rightarrow> string \<Rightarrow> string list res \<Rightarrow> bool" where
  "watch_matches canonicalize current_dir config_path event = (case event of
      Inl _ \<Rightarrow> False
    | Inr paths \<Rightarrow> \<exists>path\<in>set paths. absolute_path canonicalize current_dir path =
        absolute_path canonicalize current_dir config_path)"

function without_config_args :: "string list \<Rightarrow> string list" where
  "without_config_args [] = []"
| "without_config_args (arg # args) =
     (if arg = ''--config'' then without_config_args (drop 1 args)
      else if \<not> starts_with ''--config='' arg then arg # without_config_args args
      else without_config_args args)"
  by pat_completeness auto
termination by (relation "measure length") auto

section \<open>The tray\<close>

text \<open>\<^verbatim>\<open>chars().count()\<close> and \<^verbatim>\<open>chars().take(n)\<close>: a character is a byte and the continuation bytes
  after it.\<close>

definition char_count :: "string \<Rightarrow> nat" where
  "char_count s = length (filter (\<lambda>c. \<not> in_range 0x80 0xBF c) s)"

fun take_chars :: "nat \<Rightarrow> string \<Rightarrow> string" where
  "take_chars n [] = []"
| "take_chars n (c # s) =
     (if in_range 0x80 0xBF c then c # take_chars n s
      else (case n of 0 \<Rightarrow> [] | Suc m \<Rightarrow> c # take_chars m s))"

definition compact_status :: "string \<Rightarrow> string" where
  "compact_status message =
     (let first_line = trim (case str_lines message of [] \<Rightarrow> ''Status unavailable'' | line # _ \<Rightarrow> line) in
      if char_count first_line \<le> 64 then first_line
      else take_chars 63 first_line @ ellipsis)"

record tray_env =
  te_desktop :: desktop_env
  te_show_cause :: "cause \<Rightarrow> string"
  te_auto_launch :: "unit res"
  te_create_menu :: "unit res"
  te_enable :: "unit res"
  te_disable :: "unit res"
  te_is_enabled :: "bool res"
  te_input_box :: "string \<Rightarrow> string option"
  te_url_parses :: "string \<Rightarrow> bool"
  te_current_exe :: "string res"
  te_args :: "string list"
  te_environment :: environment
  te_spawn :: "string \<Rightarrow> string list \<Rightarrow> unit res"
  te_now_ms :: nat
  te_read :: "string \<Rightarrow> bytes res"
  te_parse_toml :: "bytes \<Rightarrow> sval option"
  te_build_tray :: "unit res"

record tray_application =
  ta_config_path :: string
  ta_status :: string
  ta_tooltip :: "string option"
  ta_start_at_boot :: bool
  ta_remote_managed :: bool
  ta_managed_central :: bool
  ta_route_count :: usize
  ta_last_change :: "nat option"
  ta_files :: user_files
  ta_spawned :: "(string \<times> string list \<times> environment) list"
  ta_exit :: bool

text \<open>\<^verbatim>\<open>{error:#}\<close> and \<^verbatim>\<open>{error}\<close>\<close>

definition error_chain :: "tray_env \<Rightarrow> anyhow \<Rightarrow> string" where
  "error_chain env e = join_with '': '' (map (te_show_cause env) e)"

definition error_head :: "tray_env \<Rightarrow> anyhow \<Rightarrow> string" where
  "error_head env e = (case e of [] \<Rightarrow> [] | c # _ \<Rightarrow> te_show_cause env c)"

definition running_status :: "bool \<Rightarrow> usize \<Rightarrow> string" where
  "running_status managed route_count =
     (if managed then ''Running '' @ middle_dot @ '' centrally managed''
      else ''Running '' @ middle_dot @ '' '' @ show_nat (unat route_count) @ '' route(s)'')"

definition tray_tooltip :: string where
  "tray_tooltip = ''lfp-pipe client '' @ middle_dot @ '' running''"

definition new_tray :: "tray_env \<Rightarrow> user_files \<Rightarrow> string \<Rightarrow> usize \<Rightarrow> bool \<Rightarrow> tray_application res" where
  "new_tray env files config_path route_count managed =
     and_then (te_auto_launch env) (\<lambda>_.
     and_then (add_context ''create tray menu'' (te_create_menu env)) (\<lambda>_.
       Inr \<lparr>ta_config_path = config_path, ta_status = running_status managed route_count, ta_tooltip = None,
            ta_start_at_boot = (case te_is_enabled env of Inr b \<Rightarrow> b | Inl _ \<Rightarrow> False),
            ta_remote_managed = managed, ta_managed_central = managed, ta_route_count = route_count,
            ta_last_change = None, ta_files = files, ta_spawned = [], ta_exit = False\<rparr>))"

text \<open>The entries of the menu, without its separators.\<close>

definition menu_items :: "bool \<Rightarrow> string list" where
  "menu_items managed =
     [''status'', ''start-at-boot'', ''remote-managed'', ''manage'', ''management-url''] @
     (if \<not> managed then [''open-config'', ''open-config-folder''] else []) @ [''exit'']"

definition set_error :: "string \<Rightarrow> tray_application \<Rightarrow> tray_application" where
  "set_error message app =
     (let message = compact_status message in
      app\<lparr>ta_status := message, ta_tooltip := map_option (\<lambda>_. message) (ta_tooltip app)\<rparr>)"

definition clear_config_warning :: "tray_application \<Rightarrow> tray_application" where
  "clear_config_warning app =
     app\<lparr>ta_status := running_status (ta_managed_central app) (ta_route_count app),
         ta_tooltip := map_option (\<lambda>_. tray_tooltip) (ta_tooltip app)\<rparr>"

text \<open>Starting a replacement: the result, and the process in the state.\<close>

definition spawn_process ::
    "tray_env \<Rightarrow> string \<Rightarrow> string list \<Rightarrow> environment \<Rightarrow> tray_application \<Rightarrow> unit res \<times> tray_application" where
  "spawn_process env message args environment app =
     (case add_context ''locate current executable'' (te_current_exe env) of
        Inl e \<Rightarrow> (Inl e, app)
      | Inr executable \<Rightarrow> (case add_context message (te_spawn env executable args) of
          Inl e \<Rightarrow> (Inl e, app)
        | Inr _ \<Rightarrow> (Inr (), app\<lparr>ta_spawned := ta_spawned app @ [(executable, args, environment)]\<rparr>)))"

definition restart_current_process :: "tray_env \<Rightarrow> tray_application \<Rightarrow> unit res \<times> tray_application" where
  "restart_current_process env =
     spawn_process env ''start replacement process'' (drop 1 (te_args env)) (te_environment env)"

definition restart_without_config_override :: "tray_env \<Rightarrow> tray_application \<Rightarrow> unit res \<times> tray_application" where
  "restart_without_config_override env =
     spawn_process env ''start remotely managed replacement'' (without_config_args (drop 1 (te_args env)))
       ((te_environment env)(''LFP_PIPE_CONFIG'' := None))"

definition open_path :: "tray_env \<Rightarrow> string \<Rightarrow> tray_application \<Rightarrow> tray_application" where
  "open_path env path app = (case dv_open (te_desktop env) path of
      Inl e \<Rightarrow> set_error (''Open failed: '' @ error_head env e) app | Inr _ \<Rightarrow> app)"

text \<open>One arm of \<^verbatim>\<open>handle_menu\<close> each. The toolkit has already toggled a check box when its event
  arrives.\<close>

definition menu_start_at_boot :: "tray_env \<Rightarrow> tray_application \<Rightarrow> tray_application" where
  "menu_start_at_boot env app =
     (case and_then (te_auto_launch env) (\<lambda>_. if ta_start_at_boot app then te_enable env else te_disable env) of
        Inr _ \<Rightarrow> app
      | Inl e \<Rightarrow> set_error (''Start at boot failed: '' @ error_chain env e)
          (app\<lparr>ta_start_at_boot := \<not> ta_start_at_boot app\<rparr>))"

definition save_and_restart ::
    "tray_env \<Rightarrow> desktop_settings \<Rightarrow> (tray_application \<Rightarrow> unit res \<times> tray_application) \<Rightarrow> tray_application \<Rightarrow>
     unit res \<times> tray_application" where
  "save_and_restart env settings restart app =
     (case save (te_desktop env) settings (ta_files app) of
        (Inl e, files) \<Rightarrow> (Inl e, app\<lparr>ta_files := files\<rparr>)
      | (Inr _, files) \<Rightarrow> restart (app\<lparr>ta_files := files\<rparr>))"

definition menu_remote_managed :: "tray_env \<Rightarrow> tray_application \<Rightarrow> tray_application" where
  "menu_remote_managed env app =
     (case (case load_or_create (te_desktop env) (ta_files app) of
          (Inl e, files) \<Rightarrow> (Inl e, app\<lparr>ta_files := files\<rparr>)
        | (Inr settings, files) \<Rightarrow>
            save_and_restart env (settings\<lparr>ds_remote_managed := ta_remote_managed app\<rparr>)
              (restart_without_config_override env) (app\<lparr>ta_files := files\<rparr>)) of
        (Inr _, app) \<Rightarrow> app\<lparr>ta_exit := True\<rparr>
      | (Inl e, app) \<Rightarrow> set_error (''Remote management failed: '' @ error_chain env e)
          (app\<lparr>ta_remote_managed := \<not> ta_remote_managed app\<rparr>))"

definition menu_manage :: "tray_env \<Rightarrow> tray_application \<Rightarrow> tray_application" where
  "menu_manage env app = (case load_or_create (te_desktop env) (ta_files app) of
      (Inl e, files) \<Rightarrow> set_error (''Open management failed: '' @ error_chain env e) (app\<lparr>ta_files := files\<rparr>)
    | (Inr settings, files) \<Rightarrow> (case dv_open (te_desktop env) (ds_control_plane_url settings) of
          Inl e \<Rightarrow> set_error (''Open management failed: '' @ error_chain env e) (app\<lparr>ta_files := files\<rparr>)
        | Inr _ \<Rightarrow> app\<lparr>ta_files := files\<rparr>))"

definition menu_management_url :: "tray_env \<Rightarrow> tray_application \<Rightarrow> tray_application" where
  "menu_management_url env app = (case load_or_create (te_desktop env) (ta_files app) of
      (Inl e, files) \<Rightarrow> set_error (''Management server update failed: '' @ error_chain env e) (app\<lparr>ta_files := files\<rparr>)
    | (Inr settings, files) \<Rightarrow>
        (let app = app\<lparr>ta_files := files\<rparr> in
         case te_input_box env (ds_control_plane_url settings) of
           None \<Rightarrow> app
         | Some value \<Rightarrow>
             if \<not> te_url_parses env value then set_error ''Management server must be a valid URL'' app
             else (case save_and_restart env (settings\<lparr>ds_control_plane_url := value\<rparr>)
                 (if ta_remote_managed app then restart_without_config_override env else restart_current_process env) app of
                 (Inl e, app) \<Rightarrow> set_error (''Management server update failed: '' @ error_chain env e) app
               | (Inr _, app) \<Rightarrow> app\<lparr>ta_exit := True\<rparr>)))"

definition handle_menu :: "tray_env \<Rightarrow> string \<Rightarrow> tray_application \<Rightarrow> tray_application" where
  "handle_menu env item app =
     (if item = ''open-config'' then open_path env (ta_config_path app) app
      else if item = ''open-config-folder'' then open_path env (unwrap_or ''.'' (path_parent (ta_config_path app))) app
      else if item = ''start-at-boot'' then menu_start_at_boot env app
      else if item = ''remote-managed'' then menu_remote_managed env app
      else if item = ''manage'' then menu_manage env app
      else if item = ''management-url'' then menu_management_url env app
      else if item = ''exit'' then app\<lparr>ta_exit := True\<rparr>
      else app)"

definition config_changed :: "tray_env \<Rightarrow> tray_application \<Rightarrow> tray_application" where
  "config_changed env app =
     (if ta_managed_central app then app
      else if is_some_and (\<lambda>last. te_now_ms env - last < 300) (ta_last_change app) then app
      else
        let app = app\<lparr>ta_last_change := Some (te_now_ms env)\<rparr> in
        case load_client_configs (te_read env) (te_parse_toml env) (ta_config_path app) of
          Inr _ \<Rightarrow> (case restart_current_process env app of
              (Inr _, app) \<Rightarrow> app\<lparr>ta_exit := True\<rparr>
            | (Inl e, app) \<Rightarrow> set_error (''Config warning: '' @ error_chain env e) app)
        | Inl e \<Rightarrow> set_error (''Config warning: '' @ error_chain env e) app)"

definition resumed :: "tray_env \<Rightarrow> tray_application \<Rightarrow> tray_application" where
  "resumed env app =
     (if ta_tooltip app \<noteq> None then app
      else (case te_build_tray env of
          Inr _ \<Rightarrow> app\<lparr>ta_tooltip := Some tray_tooltip\<rparr>
        | Inl e \<Rightarrow> set_error (''Tray failed: '' @ error_chain env e) app))"

datatype user_event = Menu string | Runtime_stopped string | Config_status "string option" | Config_changed | Resumed

definition user_event :: "tray_env \<Rightarrow> user_event \<Rightarrow> tray_application \<Rightarrow> tray_application" where
  "user_event env event app = (case event of
      Menu item \<Rightarrow> handle_menu env item app
    | Runtime_stopped message \<Rightarrow> set_error message app
    | Config_status (Some message) \<Rightarrow> set_error message app
    | Config_status None \<Rightarrow> clear_config_warning app
    | Config_changed \<Rightarrow> config_changed env app
    | Resumed \<Rightarrow> resumed env app)"

section \<open>The icon\<close>

text \<open>Undoing the premultiplication of one colour channel, in \<^verbatim>\<open>u16\<close>; then a pixel, and all of them.\<close>

definition straight_channel :: "8 word \<Rightarrow> 8 word \<Rightarrow> 8 word" where
  "straight_channel alpha channel =
     ucast (min ((ucast channel :: u16) * 255 div ucast alpha) 255)"

fun straight_pixels :: "8 word list \<Rightarrow> 8 word list" where
  "straight_pixels (r # g # b # a # rest) =
     (if 0 < a \<and> a < 255
      then straight_channel a r # straight_channel a g # straight_channel a b # a # straight_pixels rest
      else r # g # b # a # straight_pixels rest)"
| "straight_pixels rest = rest"

section \<open>Lemmas\<close>

interpretation local_retry: doubling_delay next_local_delay "seconds 1" "seconds 30"
proof unfold_locales
  show "0 < seconds 1" "seconds 1 \<le> seconds 30" by (simp_all add: seconds_def)
  have "seconds 30 \<le> DURATION_MAX" by (simp add: seconds_def DURATION_MAX_def)
  then show "next_local_delay d = min (d * 2) (seconds 30)" for d
    by (simp add: next_local_delay_def min.assoc)
qed

lemma local_sleeps_iterate:
  "local_sleeps d ends = map (\<lambda>i. (next_local_delay ^^ i) d) [0..<length ends]"
  by (induction ends arbitrary: d) (simp_all add: upt_conv_Cons map_Suc_upt [symmetric] funpow_swap1 del: upt_Suc)

lemma run_local_forever_sleeps:
  assumes "configs \<noteq> []"
  shows "run_local_forever configs joined = (None, map (\<lambda>i. min (seconds (2 ^ i)) (seconds 30)) [0..<length joined])"
proof -
  have "(next_local_delay ^^ i) (seconds 1) = min (seconds (2 ^ i)) (seconds 30)" for i
    unfolding local_retry.iterate by (simp add: seconds_def mult.commute)
  with assms show ?thesis by (simp only: run_local_forever_def local_sleeps_iterate length_map if_False)
qed

text \<open>The arguments of the replacement.\<close>

definition config_flag :: "string \<Rightarrow> bool" where
  "config_flag arg \<longleftrightarrow> arg = ''--config'' \<or> starts_with ''--config='' arg"

lemma without_config_args_Cons:
  "without_config_args (arg # args) =
     (if config_flag arg then without_config_args (if arg = ''--config'' then drop 1 args else args)
      else arg # without_config_args args)"
  by (simp add: config_flag_def)

lemma without_config_args_clean: "set (without_config_args args) \<subseteq> {arg \<in> set args. \<not> config_flag arg}"
proof (induction args rule: length_induct)
  case (1 args)
  show ?case
  proof (cases args)
    case (Cons arg rest)
    have "set (without_config_args (drop k rest)) \<subseteq> {a \<in> set (drop k rest). \<not> config_flag a}" for k
      using 1 Cons by simp
    from this [of 0] this [of 1] show ?thesis
      unfolding Cons without_config_args_Cons using in_set_dropD [of _ 1 rest] by (auto simp del: One_nat_def)
  qed simp
qed

lemma without_config_args_id: "\<forall>arg\<in>set args. \<not> config_flag arg \<Longrightarrow> without_config_args args = args"
  by (induction args) (simp_all add: without_config_args_Cons del: without_config_args.simps(2))

lemma restart_spawns:
  assumes "restart_without_config_override env app = (Inr (), app')"
  obtains executable where "ta_spawned app' = ta_spawned app @
    [(executable, without_config_args (drop 1 (te_args env)), (te_environment env)(''LFP_PIPE_CONFIG'' := None))]"
  using assms by (auto simp: restart_without_config_override_def spawn_process_def split: sum.splits)

text \<open>The replacement that should ignore the configured path still finds it when the variable came
  from a file: \<^verbatim>\<open>LFP_PIPE_CONFIG_FILE\<close> is handed on, and the replacement reads it again.\<close>

lemma restart_keeps_file_override:
  assumes "te_environment env ''LFP_PIPE_CONFIG_FILE'' = Some path" "read_to_string path = Inr contents"
    "restart_without_config_override env app = (Inr (), app')"
    "hydrate_file_backed_environment read_to_string (snd (snd (last (ta_spawned app')))) = Inr child"
  shows "child ''LFP_PIPE_CONFIG'' = Some (trim_end_while (\<lambda>c. c = CHR 0x0D \<or> c = CHR 0x0A) contents)"
proof -
  have "''LFP_PIPE_CONFIG'' \<in> set FILE_BACKED_ENVIRONMENT" by code_simp
  from hydrate_value(1) [OF assms(4) this]
  have "file_backed read_to_string ((te_environment env)(''LFP_PIPE_CONFIG'' := None)) ''LFP_PIPE_CONFIG'' =
      Inr (child ''LFP_PIPE_CONFIG'')"
    using assms(3) by (auto elim: restart_spawns)
  with assms(1,2) show ?thesis
    by (auto simp: file_backed_def load_file_backed_value_def)
qed

text \<open>A tray icon that cannot be made is reported in the menu; the process goes on.\<close>

lemma tray_failure_not_fatal:
  assumes "ta_tooltip app = None" "te_build_tray env = Inl e"
  shows "ta_exit (user_event env Resumed app) = ta_exit app"
    "ta_status (user_event env Resumed app) = compact_status (''Tray failed: '' @ error_chain env e)"
  using assms by (simp_all add: user_event_def resumed_def set_error_def Let_def)

text \<open>Characters.\<close>

lemma char_count_simps [simp]:
  "char_count [] = 0"
  "char_count (c # s) = (if in_range 0x80 0xBF c then char_count s else Suc (char_count s))"
  "char_count (s @ t) = char_count s + char_count t"
  by (simp_all add: char_count_def)

lemma char_count_le: "char_count s \<le> length s"
  by (simp add: char_count_def)

lemma char_count_take: "char_count (take_chars n s) = min n (char_count s)"
  by (induction n s rule: take_chars.induct) (auto split: nat.split)

lemma set_take_chars: "set (take_chars n s) \<subseteq> set s"
  by (induction n s rule: take_chars.induct) (auto split: nat.splits)

lemma lines_of_set: "l \<in> set (lines_of ls) \<Longrightarrow> \<exists>m\<in>set ls. set l \<subseteq> set m"
proof (induction ls rule: lines_of.induct)
  case (3 l m ls)
  have "set (strip_cr l) \<subseteq> set l"
    by (auto simp: strip_cr_def unwrap_or_def split: option.splits)
  with 3 show ?case by auto
qed (auto split: if_splits)

lemma str_lines_no_newline: "l \<in> set (str_lines s) \<Longrightarrow> CHR 0x0A \<notin> set l"
proof -
  assume "l \<in> set (str_lines s)"
  then obtain m where "m \<in> set (split_on (CHR 0x0A) s)" "set l \<subseteq> set m"
    unfolding str_lines_def using lines_of_set by metis
  then show ?thesis using split_on_pieces by (metis subsetD)
qed

text \<open>What the menu and the tooltip can show: one line of at most 64 characters.\<close>

definition status_line :: "string \<Rightarrow> bool" where
  "status_line s \<longleftrightarrow> char_count s \<le> 64 \<and> CHR 0x0A \<notin> set s"

lemma ellipsis_facts: "char_count ellipsis = 1" "CHR 0x0A \<notin> set ellipsis"
  by (simp_all add: ellipsis_def in_range_def byte_val_def)

lemma compact_status_line: "status_line (compact_status message)"
proof -
  let ?line = "case str_lines message of [] \<Rightarrow> ''Status unavailable'' | line # _ \<Rightarrow> line"
  have "CHR 0x0A \<notin> set ?line"
    using str_lines_no_newline [of "hd (str_lines message)" message] by (auto split: list.split)
  then have t: "CHR 0x0A \<notin> set (trim ?line)" using set_trim by blast
  then have "CHR 0x0A \<notin> set (take_chars 63 (trim ?line))" using set_take_chars by blast
  with t show ?thesis
    by (simp add: status_line_def compact_status_def Let_def char_count_take ellipsis_facts)
qed

lemma length_show_nat: "n < 10 ^ Suc k \<Longrightarrow> length (show_nat n) \<le> Suc k"
proof (induction k arbitrary: n)
  case 0
  then show ?case by (simp add: show_nat.simps [of n])
next
  case (Suc k)
  have "length (show_nat (n div 10)) \<le> Suc k"
    using Suc.prems by (intro Suc.IH) (simp add: less_mult_imp_div_less mult.commute)
  then show ?case by (simp add: show_nat.simps [of n])
qed

lemma show_nat_digits: "set (show_nat n) \<subseteq> digit_char ` {0..9}"
proof (induction n rule: show_nat.induct)
  case (1 n)
  show ?case
  proof (cases "n < 10")
    case True
    then show ?thesis by (auto simp: show_nat.simps [of n])
  next
    case False
    moreover have "n mod 10 \<in> {0..9}" by auto
    ultimately show ?thesis using 1 by (auto simp: show_nat.simps [of n])
  qed
qed

lemma newline_not_digit: "CHR 0x0A \<notin> digit_char ` {0..9}"
proof
  assume "CHR 0x0A \<in> digit_char ` {0..9}"
  then obtain d :: nat where "d \<le> 9" "byte_val (CHR 0x0A) = byte_val (char_of (48 + d))" by (auto simp: digit_char_def)
  then show False by (simp add: byte_val_char_of) (simp add: byte_val_def)
qed

lemma running_status_line: "status_line (running_status managed n)"
proof -
  have "unat n < 10 ^ Suc 19" using unsigned_less [of n, where ?'a = nat] by simp
  then have "length (show_nat (unat n)) \<le> 20" using length_show_nat [of "unat n" 19] by simp
  then have c: "char_count (show_nat (unat n)) \<le> 20" using char_count_le le_trans by blast
  have nl: "CHR 0x0A \<notin> set (show_nat (unat n))" using show_nat_digits newline_not_digit by blast
  show ?thesis using c nl
    by (auto simp: status_line_def running_status_def middle_dot_def in_range_def byte_val_def)
qed

lemma tooltip_line: "status_line tray_tooltip"
  by (simp add: status_line_def tray_tooltip_def middle_dot_def in_range_def byte_val_def)

text \<open>The icon: the arithmetic never wraps, and a channel that is not above its alpha comes back as the
  quotient, rounded down.\<close>

lemma straight_channel_exact:
  assumes "0 < unat alpha"
  shows "unat (straight_channel alpha channel) = min (unat channel * 255 div unat alpha) 255"
proof -
  have c: "unat channel < 256" "unat alpha < 256"
    using unsigned_less [of channel, where ?'a = nat] unsigned_less [of alpha, where ?'a = nat] by simp_all
  have u: "unat (ucast channel :: u16) = unat channel" "unat (ucast alpha :: u16) = unat alpha"
    using c by (simp_all add: unsigned_ucast_eq take_bit_nat_eq_self)
  have m: "unat ((ucast channel :: u16) * 255) = unat channel * 255"
    using c by (simp add: unat_word_ariths u)
  have d: "unat ((ucast channel :: u16) * 255 div ucast alpha) = unat channel * 255 div unat alpha"
    by (simp add: unat_div m u)
  have "unat (min ((ucast channel :: u16) * 255 div ucast alpha) 255) = min (unat channel * 255 div unat alpha) 255"
    using d by (simp add: min_def word_le_nat_alt)
  then show ?thesis by (simp add: straight_channel_def unsigned_ucast_eq take_bit_nat_eq_self)
qed

definition tray_ok :: "tray_application \<Rightarrow> bool" where
  "tray_ok app \<longleftrightarrow> status_line (ta_status app) \<and> pred_option status_line (ta_tooltip app)"

lemma tray_ok_update [simp]:
  "tray_ok (app\<lparr>ta_files := f\<rparr>) = tray_ok app" "tray_ok (app\<lparr>ta_exit := x\<rparr>) = tray_ok app"
  "tray_ok (app\<lparr>ta_start_at_boot := x\<rparr>) = tray_ok app" "tray_ok (app\<lparr>ta_remote_managed := x\<rparr>) = tray_ok app"
  "tray_ok (app\<lparr>ta_last_change := c\<rparr>) = tray_ok app" "tray_ok (app\<lparr>ta_spawned := s\<rparr>) = tray_ok app"
  by (simp_all add: tray_ok_def)

lemma set_error_ok [simp]: "tray_ok (set_error message app)"
  using compact_status_line by (cases "ta_tooltip app") (simp_all add: tray_ok_def set_error_def Let_def)

lemma clear_config_warning_ok: "tray_ok (clear_config_warning app)"
  using running_status_line tooltip_line by (cases "ta_tooltip app") (simp_all add: tray_ok_def clear_config_warning_def)

text \<open>What every event keeps of the tray: a predicate that does not look at the files, the processes
  and the check boxes, and that the two ways of writing the status and the first tooltip
  keep, is kept by every handler.\<close>

locale tray_invariant =
  fixes P :: "tray_application \<Rightarrow> bool"
  assumes updates: "P (app\<lparr>ta_files := f\<rparr>) = P app" "P (app\<lparr>ta_exit := x\<rparr>) = P app"
      "P (app\<lparr>ta_start_at_boot := x\<rparr>) = P app" "P (app\<lparr>ta_remote_managed := x\<rparr>) = P app"
      "P (app\<lparr>ta_last_change := c\<rparr>) = P app" "P (app\<lparr>ta_spawned := s\<rparr>) = P app"
    and set_error: "P app \<Longrightarrow> P (set_error message app)"
    and clear: "P app \<Longrightarrow> P (clear_config_warning app)"
    and tooltip: "P app \<Longrightarrow> P (app\<lparr>ta_tooltip := Some tray_tooltip\<rparr>)"
begin

lemma spawn_process: "spawn_process env m args e app = (r, app') \<Longrightarrow> P app \<Longrightarrow> P app'"
  by (auto simp: spawn_process_def updates split: sum.splits)

lemma restart_current: "restart_current_process env app = (r, app') \<Longrightarrow> P app \<Longrightarrow> P app'"
  unfolding restart_current_process_def by (rule spawn_process)

lemma restart_without: "restart_without_config_override env app = (r, app') \<Longrightarrow> P app \<Longrightarrow> P app'"
  unfolding restart_without_config_override_def by (rule spawn_process)

lemma save_and_restart:
  assumes "save_and_restart env settings restart app = (r, app')" "P app"
    "\<And>a r a'. restart a = (r, a') \<Longrightarrow> P a \<Longrightarrow> P a'"
  shows "P app'"
  using assms(1,2) by (auto simp: save_and_restart_def updates split: prod.splits sum.splits intro: assms(3))

lemma save_and_restart_without:
  "save_and_restart env settings (restart_without_config_override env) app = (r, app') \<Longrightarrow> P app \<Longrightarrow> P app'"
  by (rule save_and_restart) (auto intro: restart_without)

lemma save_and_restart_current:
  "save_and_restart env settings (restart_current_process env) app = (r, app') \<Longrightarrow> P app \<Longrightarrow> P app'"
  by (rule save_and_restart) (auto intro: restart_current)

lemma menu_remote_managed: "P app \<Longrightarrow> P (menu_remote_managed env app)"
  by (auto simp: menu_remote_managed_def updates set_error split: prod.splits sum.splits dest: save_and_restart_without)

lemma menu_management_url: "P app \<Longrightarrow> P (menu_management_url env app)"
  by (auto simp: menu_management_url_def Let_def updates set_error split: prod.splits sum.splits option.splits if_splits
      dest: save_and_restart_without save_and_restart_current)

lemma handle_menu: "P app \<Longrightarrow> P (handle_menu env item app)"
  using menu_remote_managed menu_management_url
  by (simp add: handle_menu_def open_path_def menu_start_at_boot_def menu_manage_def updates set_error
      split: prod.split sum.split)

lemma config_changed: "P app \<Longrightarrow> P (config_changed env app)"
  by (auto simp: config_changed_def Let_def updates set_error split: prod.splits sum.splits dest: restart_current)

lemma resumed: "P app \<Longrightarrow> P (resumed env app)"
  by (auto simp: resumed_def set_error tooltip split: sum.split)

lemma user_event: "P app \<Longrightarrow> P (user_event env event app)"
  by (cases event)
    (simp_all add: user_event_def handle_menu clear config_changed resumed set_error split: option.split)

lemma fold_user_event: "P app \<Longrightarrow> P (fold (\<lambda>(env, event). user_event env event) events app)"
  by (induction events arbitrary: app) (simp_all add: user_event split: prod.split)

end

interpretation status: tray_invariant tray_ok
proof
  show "tray_ok app \<Longrightarrow> tray_ok (app\<lparr>ta_tooltip := Some tray_tooltip\<rparr>)" for app
    using tooltip_line by (simp add: tray_ok_def)
qed (simp_all add: clear_config_warning_ok)

text \<open>Whether the routes are managed centrally is decided once.\<close>

interpretation managed: tray_invariant "\<lambda>app. ta_managed_central app = m" for m
  by unfold_locales (simp_all add: set_error_def clear_config_warning_def Let_def)

lemma new_tray_ok: "new_tray env files path n managed = Inr app \<Longrightarrow> tray_ok app"
  using running_status_line by (auto simp: new_tray_def and_then_eq_Inr tray_ok_def)

section \<open>Properties\<close>

text \<open>C38: what the tray shows is always one line of at most 64 characters: from its start, after any
  sequence of menu events, status reports, failures with messages of any length and file
  changes, in the menu and in the tooltip.\<close>

theorem tray_status_wellformed:
  assumes "new_tray env files config_path route_count managed = Inr app"
  shows "status_line (ta_status (fold (\<lambda>(env, event). user_event env event) events app)) \<and>
    (\<forall>tooltip. ta_tooltip (fold (\<lambda>(env, event). user_event env event) events app) = Some tooltip \<longrightarrow> status_line tooltip)"
  using status.fold_user_event [OF new_tray_ok [OF assms], of events]
  by (auto simp: tray_ok_def)

definition example_tray_env :: tray_env where
  "example_tray_env = \<lparr>te_desktop = example_desktop_env, te_show_cause = (\<lambda>_. ''x''), te_auto_launch = Inr (), te_create_menu = Inr (),
     te_enable = Inr (), te_disable = Inr (), te_is_enabled = Inr True, te_input_box = (\<lambda>_. None),
     te_url_parses = (\<lambda>_. True), te_current_exe = Inr ''/exe'', te_args = [''/exe'', ''--config'', ''c.toml'', ''--tray''],
     te_environment = Map.empty, te_spawn = (\<lambda>_ _. Inr ()), te_now_ms = 1000, te_read = (\<lambda>_. Inr []),
     te_parse_toml = (\<lambda>_. Some example_document), te_build_tray = Inr ()\<rparr>"

definition example_tray :: tray_application where
  "example_tray = \<lparr>ta_config_path = ''c.toml'', ta_status = running_status False 1, ta_tooltip = None,
     ta_start_at_boot = True, ta_remote_managed = False, ta_managed_central = False, ta_route_count = 1,
     ta_last_change = None, ta_files = Map.empty, ta_spawned = [], ta_exit = False\<rparr>"

theorem tray_status_wellformed_witness:
  "status_line (ta_status (fold (\<lambda>(env, event). user_event env event)
     [(example_tray_env, Resumed), (example_tray_env, Runtime_stopped (replicate 100 CHR ''x''))] example_tray))"
proof -
  have "new_tray example_tray_env Map.empty ''c.toml'' 1 False = Inr example_tray"
    by (simp add: new_tray_def example_tray_env_def example_tray_def)
  from tray_status_wellformed [OF this] show ?thesis by blast
qed

text \<open>C36: an edited file never takes the tunnel down. When the tray hears of a change to the file, it
  leaves a centrally managed client alone and ignores a second change within 300 milliseconds;
  otherwise it exits only after a replacement with the same arguments was started and only if
  the whole file loads, as a non-empty list of accepted routes; a file that does not load
  is reported and nothing is started.\<close>

theorem tray_reload_safe:
  assumes "\<not> ta_exit app"
  shows "(ta_managed_central app \<longrightarrow> user_event env Config_changed app = app) \<and>
    (\<forall>last. ta_last_change app = Some last \<and> te_now_ms env < last + 300 \<longrightarrow> user_event env Config_changed app = app) \<and>
    (ta_exit (user_event env Config_changed app) \<longrightarrow>
       (\<exists>configs executable. load_client_configs (te_read env) (te_parse_toml env) (ta_config_path app) = Inr configs \<and>
          configs \<noteq> [] \<and> (\<forall>c\<in>set configs. client_config_ok c) \<and>
          ta_spawned (user_event env Config_changed app) =
            ta_spawned app @ [(executable, drop 1 (te_args env), te_environment env)])) \<and>
    (\<not> ta_exit (user_event env Config_changed app) \<longrightarrow>
       ta_spawned (user_event env Config_changed app) = ta_spawned app)"
proof -
  have quick: "user_event env Config_changed app = app"
    if "ta_managed_central app \<or> is_some_and (\<lambda>last. te_now_ms env - last < 300) (ta_last_change app)"
    using that by (auto simp: user_event_def config_changed_def)
  let ?app = "app\<lparr>ta_last_change := Some (te_now_ms env)\<rparr>"
  have slow: "user_event env Config_changed app =
      (case load_client_configs (te_read env) (te_parse_toml env) (ta_config_path app) of
          Inr _ \<Rightarrow> (case restart_current_process env ?app of
              (Inr _, app) \<Rightarrow> app\<lparr>ta_exit := True\<rparr>
            | (Inl e, app) \<Rightarrow> set_error (''Config warning: '' @ error_chain env e) app)
        | Inl e \<Rightarrow> set_error (''Config warning: '' @ error_chain env e) ?app)"
    if "\<not> (ta_managed_central app \<or> is_some_and (\<lambda>last. te_now_ms env - last < 300) (ta_last_change app))"
    using that by (simp add: user_event_def config_changed_def Let_def)
  have keep: "ta_exit (set_error m a) = ta_exit a" "ta_spawned (set_error m a) = ta_spawned a" for m a
    by (simp_all add: set_error_def Let_def)
  have restart: "case restart_current_process env ?app of
      (Inr _, a) \<Rightarrow> (\<exists>executable. ta_spawned a = ta_spawned app @ [(executable, drop 1 (te_args env), te_environment env)])
    | (Inl e, a) \<Rightarrow> a = ?app"
    by (simp add: restart_current_process_def spawn_process_def split: sum.split)
  have loaded: "configs \<noteq> [] \<and> (\<forall>c\<in>set configs. client_config_ok c)"
    if l: "load_client_configs (te_read env) (te_parse_toml env) (ta_config_path app) = Inr configs" for configs
  proof -
    obtain raw where "parse_client_configs (te_parse_toml env) raw = Inr configs"
      using l by (auto simp: load_client_configs_def and_then_eq_Inr add_context_eq_Inr)
    from parse_client_configs_InrD(1,2) [OF this] show ?thesis by blast
  qed
  show ?thesis
  proof (cases "ta_managed_central app \<or> is_some_and (\<lambda>last. te_now_ms env - last < 300) (ta_last_change app)")
    case True
    then show ?thesis using quick assms by simp
  next
    case False
    then have "\<not> (ta_last_change app = Some last \<and> te_now_ms env < last + 300)" "\<not> ta_managed_central app" for last by auto
    moreover have "(ta_exit (user_event env Config_changed app) \<longrightarrow>
       (\<exists>configs executable. load_client_configs (te_read env) (te_parse_toml env) (ta_config_path app) = Inr configs \<and>
          configs \<noteq> [] \<and> (\<forall>c\<in>set configs. client_config_ok c) \<and>
          ta_spawned (user_event env Config_changed app) =
            ta_spawned app @ [(executable, drop 1 (te_args env), te_environment env)])) \<and>
      (\<not> ta_exit (user_event env Config_changed app) \<longrightarrow>
         ta_spawned (user_event env Config_changed app) = ta_spawned app)"
      unfolding slow [OF False] using assms restart loaded
      by (cases "load_client_configs (te_read env) (te_parse_toml env) (ta_config_path app)";
          cases "restart_current_process env ?app"; cases "fst (restart_current_process env ?app)") (auto simp: keep)
    ultimately show ?thesis by blast
  qed
qed

theorem tray_reload_safe_witness:
  "\<exists>executable. ta_spawned (user_event example_tray_env Config_changed example_tray) =
     [(executable, [''--config'', ''c.toml'', ''--tray''], Map.empty)]"
proof -
  obtain c where "load_client_configs (te_read example_tray_env) (te_parse_toml example_tray_env)
      (ta_config_path example_tray) = Inr [c]"
    using example_document_loads(1) by (auto simp: example_tray_env_def)
  then have e: "ta_exit (user_event example_tray_env Config_changed example_tray)"
    by (simp add: user_event_def config_changed_def Let_def restart_current_process_def spawn_process_def)
      (simp add: example_tray_env_def example_tray_def)
  have n: "\<not> ta_exit example_tray" "ta_spawned example_tray = []" "drop 1 (te_args example_tray_env) = [''--config'', ''c.toml'', ''--tray'']"
    "te_environment example_tray_env = Map.empty"
    by (simp_all add: example_tray_def example_tray_env_def)
  from tray_reload_safe [OF n(1), of example_tray_env, THEN conjunct2, THEN conjunct2, THEN conjunct1, THEN mp, OF e]
  show ?thesis unfolding n by (elim exE conjE) (rule exI, simp)
qed

text \<open>What the desktop client runs. A bootstrap from the configuration file wins; local routes run
  as they are; with neither, a client that is not remotely managed runs nothing, and one that
  is runs the central configuration with a user name and a stored secret, never an empty
  list of local routes. The JSON layer is assumed to read back what it wrote.\<close>

theorem desktop_start:
  assumes "\<forall>v raw. dv_to_text env v = Inr raw \<longrightarrow> dv_from_text env raw = Some v"
    "choose_runtime env configs central files = (Inr choice, statuses, files')"
  shows "case choice of
      Choose_central b \<Rightarrow> central = Some b \<or>
        (central = None \<and> configs = [] \<and> cb_username b \<noteq> None \<and>
         (\<exists>path. cb_client_secret_file b = Some path \<and> secret_path env = Inr path \<and> files' path \<noteq> None))
    | Choose_local routes \<Rightarrow> central = None \<and> routes = configs \<and> routes \<noteq> [] \<and> files' = files
    | Choose_nothing \<Rightarrow> central = None \<and> configs = [] \<and>
        (\<exists>settings. fst (load_or_create env files) = Inr settings \<and> \<not> ds_remote_managed settings)"
proof -
  have boot: "cb_username b \<noteq> None \<and>
      (\<exists>path. cb_client_secret_file b = Some path \<and> secret_path env = Inr path \<and> f path \<noteq> None)"
    if "central_bootstrap env f s = Some b" for f s b
    using that by (auto simp: central_bootstrap_def split: if_splits sum.splits)
  show ?thesis
  proof (cases "central = None \<and> configs = []")
    case False
    then show ?thesis using assms(2) by (auto simp: choose_runtime_def split: option.splits)
  next
    case True
    obtain l1 f1 where l1: "load_or_create env files = (l1, f1)" by fastforce
    obtain l2 f2 where l2: "load_or_create env f1 = (l2, f2)" by fastforce
    obtain s1 where s1: "l1 = Inr s1" using assms(2) True l1 by (cases l1) (simp_all add: choose_runtime_def)
    show ?thesis
    proof (cases "ds_remote_managed s1")
      case False
      then show ?thesis using assms(2) True l1 s1 by (auto simp: choose_runtime_def)
    next
      case managed: True
      then obtain s2 where s2: "l2 = Inr s2" using assms(2) True l1 l2 s1 by (cases l2) (simp_all add: choose_runtime_def)
      have run: "(case central_bootstrap env f2 s2 of
           Some bootstrap \<Rightarrow> (Inr (Choose_central bootstrap), [], f2)
         | None \<Rightarrow>
             let statuses = [''Enrollment required '' @ middle_dot @ '' approve in browser''] in
             (case enroll env s2 f2 of
                (Inl e, _, files) \<Rightarrow> (Inl e, statuses, files)
              | (Inr _, settings, files) \<Rightarrow>
                  (Inr (case central_bootstrap env files settings of
                       Some bootstrap \<Rightarrow> Choose_central bootstrap | None \<Rightarrow> Choose_local configs),
                   statuses, files))) = (Inr choice, statuses, files')"
        using assms(2) True l1 l2 s1 s2 managed unfolding choose_runtime_def by simp
      show ?thesis
      proof (cases "central_bootstrap env f2 s2")
        case (Some b)
        with run boot [OF Some] True show ?thesis by auto
      next
        case None
        obtain r s3 f3 where e: "enroll env s2 f2 = (r, s3, f3)" by (cases "enroll env s2 f2") auto
        then have r: "r = Inr ()" using run None by (cases r) simp_all
        have "s2 = s1" using load_again [OF assms(1)] l1 l2 s1 s2 by blast
        then obtain b where b: "central_bootstrap env f3 s3 = Some b"
          using enroll_Inr e r managed by blast
        with run None e r have "choice = Choose_central b" "files' = f3" by simp_all
        with boot [OF b] True show ?thesis by simp
      qed
    qed
  qed
qed

lemma example_first_start:
  "\<exists>choice statuses files'. choose_runtime example_desktop_env [] None Map.empty = (Inr choice, statuses, files')"
proof -
  let ?s = "default_settings example_desktop_env"
  let ?raw = "replicate (to_nat (ser_desktop_settings ?s)) CHR ''1''"
  let ?f = "Map.empty(''/c/lfp-pipe/desktop.json'' \<mapsto> ?raw)"
  have dir: "settings_dir example_desktop_env = Inr ''/c/lfp-pipe''"
    by (simp add: settings_dir_def example_desktop_env_def path_join_def ends_with_def strip_suffix_def)
  have path: "path_join ''/c/lfp-pipe'' ''desktop.json'' = ''/c/lfp-pipe/desktop.json''"
    by (simp add: path_join_def ends_with_def strip_suffix_def)
  have raw: "dv_to_text example_desktop_env (ser_desktop_settings ?s) = Inr ?raw"
    "dv_create_dir_all example_desktop_env d = Inr ()" "dv_write example_desktop_env p = None"
    "dv_unreadable example_desktop_env p = None" for d p
    by (simp_all add: example_desktop_env_def)
  have first: "load_or_create example_desktop_env Map.empty = (Inr ?s, ?f)"
    by (simp add: load_or_create_def dir path save_def raw fs_write_def)
  have "dv_from_text example_desktop_env ?raw = Some (ser_desktop_settings ?s)" using example_json raw(1) by blast
  then have again: "load_or_create example_desktop_env ?f = (Inr ?s, ?f)"
    by (simp add: load_or_create_def dir path raw de_ser_desktop_settings)
  have "central_bootstrap example_desktop_env ?f ?s = None" "ds_remote_managed ?s"
    by (simp_all add: central_bootstrap_def default_settings_def)
  moreover obtain s3 f3 where "enroll example_desktop_env ?s ?f = (Inr (), s3, f3)"
    using example_enrolls by blast
  ultimately show ?thesis by (simp add: choose_runtime_def first again Let_def)
qed

theorem desktop_start_witness:
  "\<exists>choice statuses files'. choose_runtime example_desktop_env [] None Map.empty = (Inr choice, statuses, files') \<and>
     (\<forall>routes. choice \<noteq> Choose_local routes)"
proof -
  obtain choice statuses files' where
    c: "choose_runtime example_desktop_env [] None Map.empty = (Inr choice, statuses, files')"
    using example_first_start by blast
  from desktop_start [OF example_json c] c show ?thesis by (cases choice) simp_all
qed

end
