(* ===== verification/Nats.thy ===== *)
theory Nats
  imports Rust_Str
begin

text \<open>
  Connecting to NATS (\<^verbatim>\<open>shared/src/nats.rs\<close>): which address and which options the third-party client
  is given. The URL parser is a parameter: its result is a \<open>parsed_url\<close>, whose \<open>pu_public\<close> is
  the URL written out after \<^verbatim>\<open>set_username("")\<close> and \<^verbatim>\<open>set_password(None)\<close>.
\<close>

record parsed_url =
  pu_scheme :: string
  pu_host :: "string option"
  pu_port :: "nat option"
  pu_username :: string
  pu_password :: "string option"
  pu_public :: "string res"

record connect_options =
  no_ignore_discovered_servers :: bool
  no_retain_servers_order :: bool
  no_inbox_prefix :: "string option"
  no_token :: "string option"
  no_user_and_password :: "(string \<times> string) option"
  no_require_tls :: bool
  no_tls_first :: bool

definition new_options :: connect_options where
  "new_options = \<lparr>no_ignore_discovered_servers = False, no_retain_servers_order = False, no_inbox_prefix = None,
     no_token = None, no_user_and_password = None, no_require_tls = False, no_tls_first = False\<rparr>"

definition connect_url :: "parsed_url \<Rightarrow> string \<Rightarrow> nat \<Rightarrow> string res" where
  "connect_url parsed host port =
     (if pu_scheme parsed = ''ws'' \<or> pu_scheme parsed = ''wss'' then pu_public parsed
      else Inr (pu_scheme parsed @ ''://'' @ host @ '':'' @ show_nat port))"

definition nats_options :: "parsed_url \<Rightarrow> string option \<Rightarrow> string option \<Rightarrow> connect_options" where
  "nats_options parsed token inbox_prefix =
     (let options = new_options\<lparr>no_ignore_discovered_servers := True, no_retain_servers_order := True\<rparr>;
          options = (case inbox_prefix of Some p \<Rightarrow> options\<lparr>no_inbox_prefix := Some p\<rparr> | None \<Rightarrow> options);
          options = (case token of Some t \<Rightarrow> options\<lparr>no_token := Some t\<rparr> | None \<Rightarrow> options);
          options = (if token = None \<and> (pu_username parsed \<noteq> [] \<or> pu_password parsed \<noteq> None)
            then options\<lparr>no_user_and_password := Some (pu_username parsed, unwrap_or [] (pu_password parsed))\<rparr>
            else options) in
      if pu_scheme parsed = ''tls'' then options\<lparr>no_require_tls := True, no_tls_first := True\<rparr> else options)"

definition connect_nats_with_token ::
    "(string \<Rightarrow> parsed_url option) \<Rightarrow> (connect_options \<Rightarrow> string \<Rightarrow> 'c res) \<Rightarrow>
     string \<Rightarrow> string option \<Rightarrow> string option \<Rightarrow> 'c res" where
  "connect_nats_with_token parse_url connect nats_url token inbox_prefix =
     and_then (case parse_url nats_url of
         None \<Rightarrow> Inl [Msg ''failed to parse NATS URL'', Ext_cause ''url'']
       | Some parsed \<Rightarrow> Inr parsed) (\<lambda>parsed.
     and_then (ensure (pu_scheme parsed \<in> {''nats'', ''tls'', ''ws'', ''wss''})
       (''unsupported NATS URL scheme '' @ pu_scheme parsed)) (\<lambda>_.
     and_then (opt_context ''NATS URL missing host'' (pu_host parsed)) (\<lambda>host.
     and_then (opt_context ''NATS URL missing port'' (pu_port parsed)) (\<lambda>port.
     and_then (connect_url parsed host port) (\<lambda>url.
       add_context (''failed to connect to NATS at '' @ host @ '':'' @ show_nat port)
         (connect (nats_options parsed token inbox_prefix) url))))))"

definition connect_nats ::
    "(string \<Rightarrow> bytes res) \<Rightarrow> (string \<Rightarrow> parsed_url option) \<Rightarrow> (connect_options \<Rightarrow> string \<Rightarrow> 'c res) \<Rightarrow>
     string \<Rightarrow> string option \<Rightarrow> string option \<Rightarrow> 'c res" where
  "connect_nats read_to_string parse_url connect nats_url token_file inbox_prefix =
     and_then (case token_file of
         None \<Rightarrow> Inr None
       | Some path \<Rightarrow> and_then (add_context (''failed to read NATS token file '' @ path) (read_to_string path))
           (\<lambda>token. Inr (Some token))) (\<lambda>token.
       connect_nats_with_token parse_url connect nats_url (map_option trim token) inbox_prefix)"

section \<open>Properties\<close>

lemma nats_options_fields:
  "no_token (nats_options parsed token inbox_prefix) = token"
  "no_user_and_password (nats_options parsed token inbox_prefix) =
     (if token = None \<and> (pu_username parsed \<noteq> [] \<or> pu_password parsed \<noteq> None)
      then Some (pu_username parsed, unwrap_or [] (pu_password parsed)) else None)"
  "no_require_tls (nats_options parsed token inbox_prefix) \<longleftrightarrow> pu_scheme parsed = ''tls''"
  "no_tls_first (nats_options parsed token inbox_prefix) \<longleftrightarrow> pu_scheme parsed = ''tls''"
  "no_ignore_discovered_servers (nats_options parsed token inbox_prefix)"
  "no_inbox_prefix (nats_options parsed token inbox_prefix) = inbox_prefix"
  by (simp_all add: nats_options_def new_options_def Let_def split: option.split)

text \<open>One way to log in. Every connection that is opened ignores advertised servers and carries at
  most one credential: the token when a token file is configured, without surrounding
  white space and never together with the credentials in the URL; a URL of scheme
  \<^verbatim>\<open>tls\<close> is never connected to without TLS from the first byte; and no address
  other than a WebSocket URL contains anything of the configured URL but scheme, host and port.\<close>

theorem nats_credentials:
  assumes "connect_nats read_to_string parse_url connect nats_url token_file inbox_prefix = Inr client"
  shows "\<exists>parsed options url host port. parse_url nats_url = Some parsed \<and> connect options url = Inr client \<and>
    pu_host parsed = Some host \<and> pu_port parsed = Some port \<and>
    no_ignore_discovered_servers options \<and> no_inbox_prefix options = inbox_prefix \<and>
    \<not> (no_token options \<noteq> None \<and> no_user_and_password options \<noteq> None) \<and>
    (\<forall>path. token_file = Some path \<longrightarrow>
       (\<exists>contents. read_to_string path = Inr contents \<and> no_token options = Some (trim contents))) \<and>
    (pu_scheme parsed = ''tls'' \<longrightarrow> no_require_tls options \<and> no_tls_first options) \<and>
    (pu_scheme parsed \<in> {''nats'', ''tls''} \<longrightarrow>
       url = pu_scheme parsed @ ''://'' @ host @ '':'' @ show_nat port)"
proof -
  from assms obtain token where token: "(case token_file of None \<Rightarrow> Inr None
       | Some path \<Rightarrow> and_then (add_context (''failed to read NATS token file '' @ path) (read_to_string path))
           (\<lambda>token. Inr (Some token))) = Inr token"
    and with_token: "connect_nats_with_token parse_url connect nats_url (map_option trim token) inbox_prefix = Inr client"
    unfolding connect_nats_def and_then_eq_Inr by blast
  from with_token obtain parsed host port url where p: "parse_url nats_url = Some parsed" "pu_host parsed = Some host"
      "pu_port parsed = Some port" "connect_url parsed host port = Inr url"
      "connect (nats_options parsed (map_option trim token) inbox_prefix) url = Inr client"
    unfolding connect_nats_with_token_def
    by (cases "parse_url nats_url") (auto simp only: option.simps and_then_eq_Inr opt_context_eq_Inr add_context_eq_Inr
        sum.simps sum.distinct)
  have "url = pu_scheme parsed @ ''://'' @ host @ '':'' @ show_nat port" if "pu_scheme parsed \<in> {''nats'', ''tls''}"
    using p(4) that by (auto simp: connect_url_def)
  moreover have "\<exists>contents. read_to_string path = Inr contents \<and> map_option trim token = Some (trim contents)"
    if "token_file = Some path" for path
    using token that by (auto simp: and_then_eq_Inr add_context_eq_Inr)
  ultimately show ?thesis using p
    by (intro exI [of _ parsed] exI [of _ "nats_options parsed (map_option trim token) inbox_prefix"] exI [of _ url]
        exI [of _ host] exI [of _ port]) (simp add: nats_options_fields)
qed

theorem nats_credentials_witness:
  "\<exists>options :: connect_options. no_token options = Some ''t'' \<and> no_user_and_password options = None"
proof -
  let ?parse = "\<lambda>_. Some \<lparr>pu_scheme = ''tls'', pu_host = Some ''h'', pu_port = Some 4222, pu_username = ''u'',
     pu_password = None, pu_public = Inr []\<rparr>"
  have t: "trim ''t'' = ''t''" by (rule trim_id) (simp_all add: in_range_def byte_val_def)
  have "connect_nats (\<lambda>_. Inr ''t'') ?parse (\<lambda>options _. Inr options) ''tls://u@h:4222'' (Some ''f'') None =
      Inr (nats_options (the (?parse ())) (Some ''t'') None)"
    by (simp add: connect_nats_def connect_nats_with_token_def connect_url_def t)
  from nats_credentials [OF this] obtain options :: connect_options where
    "\<not> (no_token options \<noteq> None \<and> no_user_and_password options \<noteq> None)" "no_token options = Some (trim ''t'')"
    by auto
  then show ?thesis using t by (intro exI [of _ options]) (cases "no_user_and_password options"; simp)
qed

end
