(* ===== verification/Oidc_Sessions.thy ===== *)
theory Oidc_Sessions
  imports Authorization Acme
begin

text \<open>
  What browser login and key storage promise (\<^verbatim>\<open>client/src/authorization.rs\<close>): the conditions under
  which the callback issues a session, and the two files the layer keeps, the session key and
  the cache of verification keys. The files and the modes of files and directories are a
  state; \<open>key_env\<close> has the outcome of each step on them. \<^verbatim>\<open>AtomicWriteFile\<close> replaces a file at its
  commit and does not touch it before. \<^verbatim>\<open>cookie::Key\<close> is the pair of \<open>kv_try_from\<close> and \<open>kv_master\<close>.
\<close>

section \<open>Files\<close>

record key_store =
  kf_files :: "string \<Rightarrow> bytes option"
  kf_mode :: "string \<Rightarrow> nat option"
  kf_modified :: "string \<Rightarrow> nat"

record key_env =
  kv_clock :: nat
  kv_stat :: "string \<Rightarrow> unit res"
  kv_read :: "string \<Rightarrow> unit res"
  kv_create_dir_all :: "string \<Rightarrow> unit res"
  kv_set_permissions :: "string \<Rightarrow> nat \<Rightarrow> unit res"
  kv_open :: "string \<Rightarrow> unit res"
  kv_write :: "string \<Rightarrow> unit res"
  kv_commit :: "string \<Rightarrow> unit res"
  kv_new_mode :: "string \<Rightarrow> nat"
  kv_generate :: "bytes res"
  kv_try_from :: "bytes \<Rightarrow> bytes option"
  kv_master :: "bytes \<Rightarrow> bytes"
  kv_to_text :: "jwk list \<Rightarrow> bytes res"
  kv_from_text :: "bytes \<Rightarrow> jwk list option"

text \<open>\<^verbatim>\<open>fs::metadata\<close> and \<^verbatim>\<open>fs::read\<close> of a path, where a missing file is an error.\<close>

definition metadata_of :: "key_env \<Rightarrow> key_store \<Rightarrow> string \<Rightarrow> unit res" where
  "metadata_of env st path = (if kf_files st path = None then Inl [Io_cause Other_io] else kv_stat env path)"

definition path_exists :: "key_env \<Rightarrow> key_store \<Rightarrow> string \<Rightarrow> bool" where
  "path_exists env st path \<longleftrightarrow> metadata_of env st path = Inr ()"

definition read_bytes :: "key_env \<Rightarrow> key_store \<Rightarrow> string \<Rightarrow> bytes res" where
  "read_bytes env st path = (case kf_files st path of
      None \<Rightarrow> Inl [Io_cause Other_io]
    | Some bytes \<Rightarrow> and_then (kv_read env path) (\<lambda>_. Inr bytes))"

text \<open>\<^verbatim>\<open>AtomicWriteFile::open\<close>, \<^verbatim>\<open>write_all\<close> and \<^verbatim>\<open>commit\<close>, with the messages of the caller.\<close>

definition atomic_write ::
    "key_env \<Rightarrow> string \<Rightarrow> string \<Rightarrow> string \<Rightarrow> string \<Rightarrow> bytes \<Rightarrow> key_store \<Rightarrow> unit res \<times> key_store" where
  "atomic_write env opening writing committing path contents st =
     (case and_then (add_context (opening @ path) (kv_open env path)) (\<lambda>_.
         and_then (add_context (writing @ path) (kv_write env path)) (\<lambda>_.
           add_context (committing @ path) (kv_commit env path))) of
        Inl e \<Rightarrow> (Inl e, st)
      | Inr _ \<Rightarrow> (Inr (), st\<lparr>kf_files := (kf_files st)(path \<mapsto> contents),
           kf_mode := (kf_mode st)(path \<mapsto> kv_new_mode env path),
           kf_modified := (kf_modified st)(path := kv_clock env)\<rparr>))"

definition set_permissions :: "key_env \<Rightarrow> string \<Rightarrow> string \<Rightarrow> nat \<Rightarrow> key_store \<Rightarrow> unit res \<times> key_store" where
  "set_permissions env message path mode st =
     (case add_context (message @ path) (kv_set_permissions env path mode) of
        Inl e \<Rightarrow> (Inl e, st)
      | Inr _ \<Rightarrow> (Inr (), st\<lparr>kf_mode := (kf_mode st)(path \<mapsto> mode)\<rparr>))"

text \<open>Going on with the state of a step, or stopping with its error.\<close>

definition then_do :: "unit res \<times> 's \<Rightarrow> ('s \<Rightarrow> 'a res \<times> 's) \<Rightarrow> 'a res \<times> 's" where
  "then_do r f = (case r of (Inl e, s) \<Rightarrow> (Inl e, s) | (Inr _, s) \<Rightarrow> f s)"

definition parent_dir :: "string \<Rightarrow> string option" where
  "parent_dir path = opt_filter (\<lambda>value. value \<noteq> []) (path_parent path)"

section \<open>The cache of verification keys\<close>

definition persist_jwks :: "key_env \<Rightarrow> string \<Rightarrow> jwk list \<Rightarrow> key_store \<Rightarrow> unit res \<times> key_store" where
  "persist_jwks env path keys st =
     (case and_then (case parent_dir path of
         None \<Rightarrow> Inr ()
       | Some parent \<Rightarrow> add_context (''create JWKS cache directory '' @ parent) (kv_create_dir_all env parent)) (\<lambda>_.
         add_context ''encode JWKS cache'' (kv_to_text env keys)) of
        Inl e \<Rightarrow> (Inl e, st)
      | Inr bytes \<Rightarrow> atomic_write env ''open atomic JWKS cache '' ''write JWKS cache '' ''replace JWKS cache '' path bytes st)"

text \<open>The two readings of the cache file that \<open>load_cached_jwks\<close> takes: its modification time and
  its keys.\<close>

definition cached_modified :: "key_env \<Rightarrow> key_store \<Rightarrow> string \<Rightarrow> nat res" where
  "cached_modified env st path =
     and_then (add_context (''read JWKS cache metadata '' @ path) (metadata_of env st path)) (\<lambda>_.
       Inr (kf_modified st path))"

definition cached_jwks :: "key_env \<Rightarrow> key_store \<Rightarrow> string \<Rightarrow> jwk list res" where
  "cached_jwks env st path =
     and_then (add_context (''read JWKS cache '' @ path) (read_bytes env st path)) (\<lambda>bytes.
     case kv_from_text env bytes of
       None \<Rightarrow> Inl [Msg ''decode cached JWKS'', Ext_cause ''json'']
     | Some keys \<Rightarrow> Inr keys)"

section \<open>The session key\<close>

definition restrict_parent :: "key_env \<Rightarrow> string \<Rightarrow> key_store \<Rightarrow> unit res \<times> key_store" where
  "restrict_parent env path st = (case parent_dir path of
      None \<Rightarrow> (Inr (), st)
    | Some parent \<Rightarrow>
        (case add_context (''create OIDC session key directory '' @ parent) (kv_create_dir_all env parent) of
           Inl e \<Rightarrow> (Inl e, st)
         | Inr _ \<Rightarrow> set_permissions env ''restrict OIDC session key directory '' parent 448 st))"

definition load_or_create_cookie_key :: "key_env \<Rightarrow> string \<Rightarrow> key_store \<Rightarrow> bytes res \<times> key_store" where
  "load_or_create_cookie_key env path st =
     (if path_exists env st path then
        (and_then (add_context (''read OIDC session key '' @ path) (read_bytes env st path)) (\<lambda>bytes.
           opt_context ''OIDC session key must contain at least 64 random bytes'' (kv_try_from env bytes)), st)
      else
        then_do (restrict_parent env path st) (\<lambda>st.
        case add_context ''operating system random source is unavailable'' (kv_generate env) of
          Inl e \<Rightarrow> (Inl e, st)
        | Inr key \<Rightarrow>
            then_do (atomic_write env ''create OIDC session key '' ''write OIDC session key ''
              ''commit OIDC session key '' path (kv_master env key) st) (\<lambda>st.
            then_do (set_permissions env ''restrict OIDC session key '' path 384 st) (\<lambda>st. (Inr key, st)))))"

section \<open>Lemmas\<close>

lemma path_exists_written:
  "kf_files st path = Some bytes \<Longrightarrow> kv_stat env path = Inr () \<Longrightarrow> path_exists env st path"
  by (simp add: path_exists_def metadata_of_def)

lemma atomic_write_cases:
  assumes "atomic_write env m1 m2 m3 path contents st = (r, st')"
  obtains (kept) e where "r = Inl e" "st' = st"
  | (replaced) "r = Inr ()" "st' = st\<lparr>kf_files := (kf_files st)(path \<mapsto> contents),
      kf_mode := (kf_mode st)(path \<mapsto> kv_new_mode env path),
      kf_modified := (kf_modified st)(path := kv_clock env)\<rparr>"
  using assms by (auto simp: atomic_write_def split: sum.splits dest: sym [of "Inl _"])

lemma set_permissions_cases:
  assumes "set_permissions env m path mode st = (r, st')"
  obtains (failed) e where "r = Inl e" "st' = st"
  | (set) "r = Inr ()" "st' = st\<lparr>kf_mode := (kf_mode st)(path \<mapsto> mode)\<rparr>"
  using assms by (auto simp: set_permissions_def split: sum.splits dest: sym [of "Inl _"])

lemma then_do_Inr:
  "then_do r f = (Inr x, s') \<longleftrightarrow> (\<exists>s. r = (Inr (), s) \<and> f s = (Inr x, s'))"
  by (auto simp: then_do_def split: prod.splits sum.splits)

lemma restrict_parent_files: "restrict_parent env path st = (r, st') \<Longrightarrow> kf_files st' = kf_files st"
  by (auto simp: restrict_parent_def split: option.splits sum.splits elim: set_permissions_cases)

lemma restrict_parent_mode:
  "restrict_parent env path st = (Inr u, st') \<Longrightarrow> parent_dir path = Some parent \<Longrightarrow> kf_mode st' parent = Some 448"
  by (auto simp: restrict_parent_def split: sum.splits elim: set_permissions_cases)

text \<open>A directory is not the file that lies in it.\<close>

lemma trim_end_matches_length: "length (trim_end_matches c s) \<le> length s"
  using length_dropWhile_le [of "\<lambda>x. x = c" "rev s"] by (simp add: trim_end_matches_def trim_end_while_def)

lemma parent_dir_shorter:
  assumes "parent_dir path = Some parent"
  shows "length parent < length path"
proof -
  define t where "t = trim_end_matches (CHR ''/'') path"
  define h where "h = rev (dropWhile (\<lambda>c. c \<noteq> CHR ''/'') (rev t))"
  have t: "t \<noteq> []" and parent: "parent = (if trim_end_matches (CHR ''/'') h = [] \<and> h \<noteq> [] then ''/''
      else trim_end_matches (CHR ''/'') h)" and ne: "parent \<noteq> []"
    using assms by (auto simp: parent_dir_def opt_filter_eq_Some path_parent_def Let_def t_def h_def split: if_splits)
  have h: "h \<noteq> []" using ne parent by (cases "h = []") (auto simp: trim_end_matches_def)
  have "last t \<noteq> CHR ''/''"
    using trim_end_while_last [of "\<lambda>x. x = CHR ''/''" path] t by (simp add: trim_end_matches_def t_def)
  then have "length h < length t"
    using t length_dropWhile_le [of "\<lambda>c. c \<noteq> CHR ''/''" "rev (butlast t)"]
    by (cases t rule: rev_cases) (simp_all add: h_def less_Suc_eq_le)
  moreover have "length parent \<le> length h"
    using parent h trim_end_matches_length [of "CHR ''/''" h] by (cases h) auto
  moreover have "length t \<le> length path" by (simp add: t_def trim_end_matches_length)
  ultimately show ?thesis by linarith
qed

lemma persist_jwks_cases:
  assumes "persist_jwks env path keys st = (r, st')"
  obtains (kept) e where "r = Inl e" "st' = st"
  | (replaced) bytes where "r = Inr ()" "kv_to_text env keys = Inr bytes" "kf_files st' = (kf_files st)(path \<mapsto> bytes)"
      "kf_modified st' = (kf_modified st)(path := kv_clock env)"
proof (cases "and_then (case parent_dir path of
         None \<Rightarrow> Inr ()
       | Some parent \<Rightarrow> add_context (''create JWKS cache directory '' @ parent) (kv_create_dir_all env parent)) (\<lambda>_.
         add_context ''encode JWKS cache'' (kv_to_text env keys))")
  case (Inl e)
  then show thesis using assms kept [of e] by (simp add: persist_jwks_def)
next
  case (Inr bytes)
  then have "kv_to_text env keys = Inr bytes" by (auto simp: res_simps)
  have "atomic_write env ''open atomic JWKS cache '' ''write JWKS cache '' ''replace JWKS cache '' path bytes st = (r, st')"
    using assms Inr by (simp add: persist_jwks_def)
  then show thesis
    by (cases rule: atomic_write_cases) (use kept replaced \<open>kv_to_text env keys = Inr bytes\<close> in auto)
qed

lemma create_cookie_key_cases:
  assumes "load_or_create_cookie_key env path st = (r, st')" "\<not> path_exists env st path"
  obtains (failed) e where "r = Inl e" "\<And>other. other \<noteq> path \<Longrightarrow> kf_files st' other = kf_files st other"
  | (created) key where "r = Inr key" "kv_generate env = Inr key" "kf_files st' = (kf_files st)(path \<mapsto> kv_master env key)"
      "kf_mode st' path = Some 384" "\<And>parent. parent_dir path = Some parent \<Longrightarrow> kf_mode st' parent = Some 448"
proof -
  obtain r1 s1 where 1: "restrict_parent env path st = (r1, s1)" by force
  note files = restrict_parent_files [OF 1]
  show thesis
  proof (cases r1)
    case (Inl e)
    then show thesis using assms 1 files failed by (auto simp: load_or_create_cookie_key_def then_do_def)
  next
    case r1: (Inr u)
    show thesis
    proof (cases "kv_generate env")
      case (Inl e)
      then show thesis using assms 1 r1 files failed by (auto simp: load_or_create_cookie_key_def then_do_def)
    next
      case gen: (Inr key)
      obtain r2 s2 where 2: "atomic_write env ''create OIDC session key '' ''write OIDC session key ''
          ''commit OIDC session key '' path (kv_master env key) s1 = (r2, s2)" by force
      obtain r3 s3 where 3: "set_permissions env ''restrict OIDC session key '' path 384 s2 = (r3, s3)" by force
      have dirs: "kf_mode s1 parent = Some 448 \<and> parent \<noteq> path" if "parent_dir path = Some parent" for parent
        using restrict_parent_mode 1 r1 parent_dir_shorter that by blast
      have "(r, st') = then_do (r2, s2) (\<lambda>s. then_do (set_permissions env ''restrict OIDC session key '' path 384 s) (\<lambda>s. (Inr key, s)))"
        using assms 1 r1 gen 2 by (simp add: load_or_create_cookie_key_def then_do_def)
      from 2 show thesis
      proof (cases rule: atomic_write_cases)
        case kept
        then show thesis using \<open>(r, st') = _\<close> files failed by (simp add: then_do_def)
      next
        case replaced
        from 3 show thesis
        proof (cases rule: set_permissions_cases)
          case failed
          then show thesis using \<open>(r, st') = _\<close> files 3 replaced that(1) by (simp add: then_do_def)
        next
          case set
          then have "r = Inr key" "st' = s3" using \<open>(r, st') = _\<close> 3 replaced by (simp_all add: then_do_def)
          then show thesis using set replaced gen files dirs created by simp
        qed
      qed
    qed
  qed
qed

lemma hash_matches_Inr:
  "(case hash of None \<Rightarrow> Inr ()
    | Some expected \<Rightarrow> and_then actual (\<lambda>actual. ensure (actual = expected) m)) = Inr u \<longleftrightarrow>
   hash \<in> {None} \<union> {Some h | h. actual = Inr h}"
  by (cases hash) (auto simp: res_simps)

lemma roles_as_result_Inr:
  "(case d of Inr _ \<Rightarrow> Inr () | Inl (Unauthorized e) \<Rightarrow> Inl e | Inl (Forbidden e) \<Rightarrow> Inl e) = Inr u \<longleftrightarrow>
   d = Inr ()"
  by (auto split: sum.splits denial.splits)

lemma redirect_response_Inr:
  "redirect_response ok status location [c1, c2] = Inr r \<Longrightarrow>
   r = \<lparr>resp_status = status, resp_headers = [(''location'', location), (''cache-control'', ''no-store''),
     (''set-cookie'', c1), (''set-cookie'', c2)], resp_body = []\<rparr>"
  by (auto simp: redirect_response_def res_simps hinsert_def happend_def hremove_def)

section \<open>Properties\<close>

text \<open>C5: a login is completed only by the browser that began it. The callback redirects with a
  session only to a GET request whose encrypted flow cookie has not expired, whose \<^verbatim>\<open>state\<close> is the
  flow's and whose query has no error; the code was exchanged with the flow's PKCE verifier,
  the ID token verified with the flow's nonce and, where the token names one, with the hash of
  the access token, and its claims have the required roles. The session it seals is for the
  identity of these claims, ends at the configured time from now, and the browser is sent
  to the place the flow began at.\<close>

theorem callback_session_sound:
  assumes "resp_status (oidc_callback env oz meth u headers) = 303"
  shows "meth = ''GET'' \<and> (\<exists>raw v flow query c code token id_token hash claims identity session.
      request_cookie (en_header_text env) headers (oz_flow_cookie oz) = Some raw \<and>
      cookie_opens env oz (oz_flow_cookie oz) raw v \<and> de_oidc_flow v = Inr flow \<and>
      en_unix_now env < fl_expires_unix flow \<and> uri_query u = Some query \<and>
      map_of (rev (en_form_parse env query)) ''error'' = None \<and>
      map_of (rev (en_form_parse env query)) ''state'' = Some (fl_state flow) \<and>
      map_of (rev (en_form_parse env query)) ''code'' = Some code \<and>
      oidc_client_for env oz = Inr c \<and> en_exchange env c code (fl_pkce_verifier flow) = Inr token \<and>
      tk_id_token token = Some id_token \<and> en_verify_id_token env c id_token (fl_nonce flow) = Inr hash \<and>
      hash \<in> {None} \<union> {Some h | h. en_access_token_hash env c (tk_access_token token) id_token = Inr h} \<and>
      decode_verified_claims env id_token = Inr claims \<and> validate_roles claims (oz_config oz) = Inr () \<and>
      identity_from_claims claims (az_roles_claim (oz_config oz)) = Inr identity \<and>
      encrypt_cookie env oz (oz_session_cookie oz)
        (ser_authenticated_identity (identity\<lparr>ai_expires_unix :=
           saturating_add (en_unix_now env) (az_oidc_session_ttl_seconds (oz_config oz))\<rparr>))
        (az_oidc_session_ttl_seconds (oz_config oz)) = Inr session \<and>
      resp_headers (oidc_callback env oz meth u headers) =
        [(''location'', fl_return_to flow), (''cache-control'', ''no-store''),
         (''set-cookie'', session), (''set-cookie'', clear_cookie (oz_flow_cookie oz))])"
proof -
  have get: "meth = ''GET''"
    using assms by (auto simp: oidc_callback_def method_not_allowed_response_def json_response_def split: if_splits)
  then obtain r where r: "callback_inner env oz u headers = Inr r" "oidc_callback env oz meth u headers = r"
    using assms by (cases "callback_inner env oz u headers")
      (auto simp: oidc_callback_def unauthorized_response_def json_response_def Let_def)
  note r(1) [unfolded callback_inner_def Let_def res_simps hash_matches_Inr roles_as_result_Inr sum.inject]
  then show ?thesis
    unfolding r(2)
    by (elim exE conjE) (drule redirect_response_Inr, hypsubst+, drule iffD1 [OF decrypt_cookie_Some],
        elim exE conjE, intro conjI exI get, (assumption | simp)+)
qed

text \<open>A provider that answers, a flow that began at \<^verbatim>\<open>/x\<close>, and files on a disk that works.\<close>

definition example_flow :: oidc_flow where
  "example_flow = \<lparr>fl_state = ''s'', fl_nonce = ''n'', fl_pkce_verifier = ''v'', fl_return_to = ''/x'', fl_expires_unix = 600\<rparr>"

definition example_provider :: auth_env where
  "example_provider = example_env\<lparr>
     en_form_parse := (\<lambda>_. [(''state'', ''s''), (''code'', ''c'')]),
     en_exchange := (\<lambda>_ _ _. Inr \<lparr>tk_access_token = ''a'', tk_id_token = Some ''h.p.s''\<rparr>),
     en_verify_id_token := (\<lambda>_ _ _. Inr (Some ''k'')), en_access_token_hash := (\<lambda>_ _ _. Inr ''k''),
     en_from_json := (\<lambda>b. if b = ''p'' then Inr example_claims else Inr (ser_oidc_flow example_flow))\<rparr>"

lemma example_claims_accepted:
  "validate_roles example_claims example_policy = Inr ()"
  "\<exists>i. identity_from_claims example_claims (az_roles_claim example_policy) = Inr i"
  by (simp_all add: validate_roles_def claim_strings_def example_claims_def example_policy_def
      identity_from_claims_def str_claim_def identity_groups_def Let_def has_newline_def)

theorem callback_session_sound_witness:
  "resp_status (oidc_callback example_provider example_oidc ''GET'' (example_uri\<lparr>uri_query := Some ''q''\<rparr>) [(''cookie'', ''f=1'')]) = 303 \<and>
   map_of (rev (en_form_parse example_provider ''q'')) ''state'' = Some (fl_state example_flow)"
proof -
  have t: "trim ''f=1'' = ''f=1''" by (rule trim_id) (simp_all add: in_range_def byte_val_def)
  have c: "request_cookie (\<lambda>_. True) [(''cookie'', ''f=1'')] ''f'' = Some ''1''"
    by (simp add: request_cookie_def hget_all_def t)
  have f: "fl_state example_flow = ''s''" "fl_expires_unix example_flow = 600" "az_oidc_client_id example_policy = Some ''c''"
    by (simp_all add: example_flow_def example_policy_def)
  obtain i where i: "identity_from_claims example_claims (az_roles_claim example_policy) = Inr i"
    using example_claims_accepted(2) by blast
  have "resp_status (oidc_callback example_provider example_oidc ''GET'' (example_uri\<lparr>uri_query := Some ''q''\<rparr>) [(''cookie'', ''f=1'')]) = 303"
    by (simp add: oidc_callback_def callback_inner_def decrypt_cookie_def c example_provider_def example_env_def
        example_oidc_def f oidc_client_for_def decode_verified_claims_def Let_def
        example_claims_accepted(1) i encrypt_cookie_def redirect_response_def)
  from callback_session_sound [OF this] this show ?thesis
    by (simp add: example_provider_def example_flow_def)
qed

text \<open>C29: the session key is stable and private. Once the layer has loaded or created its key, a later
  start with the same file gets the same key, so that sessions survive a restart; an existing
  file is never written, and a created one is readable by its owner only and lies in a
  directory open to its owner only.\<close>

theorem session_key_stable:
  assumes "load_or_create_cookie_key env path st = (Inr key, st')"
    and trip: "\<And>k. kv_generate env = Inr k \<Longrightarrow> kv_try_from env (kv_master env k) = Some k"
    and later: "kv_try_from env' = kv_try_from env" "kv_stat env' path = Inr ()" "kv_read env' path = Inr ()"
  shows "load_or_create_cookie_key env' path st' = (Inr key, st') \<and>
    (if path_exists env st path then st' = st
     else kf_mode st' path = Some 384 \<and> (\<forall>parent. parent_dir path = Some parent \<longrightarrow> kf_mode st' parent = Some 448))"
proof (cases "path_exists env st path")
  case True
  then show ?thesis
    using assms by (auto simp: load_or_create_cookie_key_def read_bytes_def path_exists_def metadata_of_def
        res_simps split: option.splits)
next
  case False
  from assms(1) this show ?thesis
    by (cases rule: create_cookie_key_cases)
      (use False in \<open>auto simp: load_or_create_cookie_key_def read_bytes_def path_exists_written later trip\<close>)
qed

definition example_disk :: key_env where
  "example_disk = \<lparr>kv_clock = 5, kv_stat = (\<lambda>_. Inr ()), kv_read = (\<lambda>_. Inr ()), kv_create_dir_all = (\<lambda>_. Inr ()),
     kv_set_permissions = (\<lambda>_ _. Inr ()), kv_open = (\<lambda>_. Inr ()), kv_write = (\<lambda>_. Inr ()), kv_commit = (\<lambda>_. Inr ()),
     kv_new_mode = (\<lambda>_. 420), kv_generate = Inr ''key'', kv_try_from = Some, kv_master = (\<lambda>k. k),
     kv_to_text = (\<lambda>_. Inr ''[k]''), kv_from_text = (\<lambda>_. Some [example_key])\<rparr>"

definition empty_disk :: key_store where
  "empty_disk = \<lparr>kf_files = (\<lambda>_. None), kf_mode = (\<lambda>_. None), kf_modified = (\<lambda>_. 0)\<rparr>"

theorem session_key_stable_witness:
  "\<exists>st'. load_or_create_cookie_key example_disk ''/d/k'' empty_disk = (Inr ''key'', st') \<and>
     load_or_create_cookie_key example_disk ''/d/k'' st' = (Inr ''key'', st') \<and>
     kf_mode st' ''/d/k'' = Some 384 \<and> kf_mode st' ''/d'' = Some 448"
proof -
  have p: "parent_dir ''/d/k'' = Some ''/d''" by code_simp
  have new: "\<not> path_exists example_disk empty_disk ''/d/k''"
    by (simp add: path_exists_def metadata_of_def empty_disk_def)
  obtain st' where st': "load_or_create_cookie_key example_disk ''/d/k'' empty_disk = (Inr ''key'', st')"
    using new by (simp add: load_or_create_cookie_key_def restrict_parent_def p set_permissions_def atomic_write_def
        then_do_def example_disk_def)
  have ok: "kv_stat example_disk x = Inr ()" "kv_read example_disk x = Inr ()"
    "kv_generate example_disk = Inr k \<Longrightarrow> kv_try_from example_disk (kv_master example_disk k) = Some k" for x k
    by (simp_all add: example_disk_def)
  show ?thesis using st' session_key_stable [OF st' ok(3) refl ok(1,2)] new p by auto
qed

text \<open>C30: verification keys survive a restart. When the keys of a fetch were stored, a restart at
  which the identity provider cannot be reached loads the same keys with the time they were
  stored at, as long as they are not too old; when storing them fails, the cache is as it
  was, so a restart falls back to the keys stored before.\<close>

theorem keys_survive_restart:
  assumes persist: "persist_jwks k path keys st = (r, st')"
    and trip: "\<And>b. kv_to_text k keys = Inr b \<Longrightarrow> kv_from_text k' b = Some keys"
    and disk: "kv_stat k' path = Inr ()" "kv_read k' path = Inr ()"
    and down: "fetch_jwks env (config\<lparr>az_jwks_cache_file := path\<rparr>) = Inl e"
    and config: "en_http_client env = Inr ()" "home (az_jwks_cache_file config) = Inr path" "keys \<noteq> []" "algs \<noteq> []"
      "collect_res (parse_algorithm from_str) (az_algorithms config) = Inr algs"
    and fresh: "az_jwks_max_stale_seconds config = 0 \<or> en_now env - kv_clock k \<le> from_secs (az_jwks_max_stale_seconds config)"
  shows "if r = Inr () then
      jwt_load env from_str home (cached_modified k' st') (cached_jwks k' st') config =
        Inr \<lparr>ja_config = config\<lparr>az_jwks_cache_file := path\<rparr>, ja_algorithms = algs,
          ja_keys = \<lparr>ks_set = keys, ks_obtained_at = kv_clock k\<rparr>, ja_last_attempt = en_instant env\<rparr>
    else
      jwt_load env from_str home (cached_modified k' st') (cached_jwks k' st') config =
      jwt_load env from_str home (cached_modified k' st) (cached_jwks k' st) config"
  using persist
proof (cases rule: persist_jwks_cases)
  case (kept e)
  then show ?thesis by simp
next
  case (replaced bytes)
  have "cached_modified k' st' path = Inr (kv_clock k)" "cached_jwks k' st' path = Inr keys"
    using replaced disk trip by (simp_all add: cached_modified_def cached_jwks_def metadata_of_def read_bytes_def)
  moreover have "ensure_cache_age (config\<lparr>az_jwks_cache_file := path\<rparr>) (en_now env) (kv_clock k) = Inr ()"
    using fresh by (auto simp: ensure_cache_age_def)
  ultimately show ?thesis
    using replaced config down by (simp add: jwt_load_def Let_def load_cached_jwks_def)
qed

theorem keys_survive_restart_witness:
  "\<exists>st' ja. persist_jwks example_disk ''/j'' [example_key] empty_disk = (Inr (), st') \<and>
     jwt_load (example_env\<lparr>en_get_jwks := (\<lambda>_. Send_failed [])\<rparr>) (\<lambda>_. Some RS256) (\<lambda>_. Inr ''/j'')
       (cached_modified example_disk st') (cached_jwks example_disk st') example_policy = Inr ja \<and>
     ks_set (ja_keys ja) = [example_key]"
proof -
  have "parent_dir ''/j'' = Some ''/''" by code_simp
  then obtain st' where st': "persist_jwks example_disk ''/j'' [example_key] empty_disk = (Inr (), st')"
    by (simp add: persist_jwks_def atomic_write_def example_disk_def)
  have a: "collect_res (parse_algorithm (\<lambda>_. Some RS256)) (az_algorithms example_policy) = Inr [RS256]"
    by (simp add: example_policy_def default_jwt_algorithms_def parse_algorithm_def)
  show ?thesis
    using keys_survive_restart [OF st', of example_disk "example_env\<lparr>en_get_jwks := (\<lambda>_. Send_failed [])\<rparr>" example_policy "[Msg ''fetch JWKS'']"
        "\<lambda>_. Inr ''/j''" "[RS256]" "\<lambda>_. Some RS256"] st' a
    by (simp add: example_disk_def fetch_jwks_def example_env_def example_policy_def)
qed

end
