(* ===== verification/Browser_Login.thy ===== *)
theory Browser_Login
  imports Oidc_Sessions
begin

text \<open>
  The three requests of a browser login put together (\<^verbatim>\<open>client/src/authorization.rs\<close>): the first
  request is sent to the identity provider with a flow cookie, the callback exchanges the code
  for a session cookie, and the first request is repeated with it. The browser returns of a cookie
  the pair of name and value. What is assumed of the cookie library, of base64, of the JSON layer
  and of header values, which \<^verbatim>\<open>HeaderValue::from_str\<close> accepts when they are printable ASCII, is
  \<open>cookies_work\<close>.
\<close>

abbreviation printable :: "string \<Rightarrow> bool" where
  "printable \<equiv> list_all (in_range 0x20 0x7E)"

definition token_text :: "string \<Rightarrow> bool" where
  "token_text s \<longleftrightarrow> s \<noteq> [] \<and> list_all (\<lambda>c. in_range 0x21 0x7E c \<and> c \<noteq> CHR '';'') s"

definition cookies_work :: "auth_env \<Rightarrow> bool" where
  "cookies_work env \<longleftrightarrow>
     (\<forall>v b. en_to_json env v = Inr b \<longrightarrow> en_from_json env b = Inr v) \<and>
     (\<forall>b. en_b64url_decode env (en_b64url_encode env b) = Inr b) \<and>
     (\<forall>k n v. en_decrypt env k n (en_encrypt env k n v) = Some v \<and> token_text (en_encrypt env k n v)) \<and>
     (\<forall>c. \<exists>attributes. printable attributes \<and>
        en_cookie_text env c = ck_name c @ ''='' @ ck_value c @ '';'' @ attributes) \<and>
     (\<forall>s. printable s \<longrightarrow> en_header_text env s \<and> en_header_ok env s)"

definition cookie_pair :: "string \<Rightarrow> string" where
  "cookie_pair set_cookie = hd (split_on (CHR '';'') set_cookie)"

abbreviation at_time :: "auth_env \<Rightarrow> u64 \<Rightarrow> auth_env" where
  "at_time env t \<equiv> env\<lparr>en_unix_now := t\<rparr>"

lemma cookie_pair_append: "CHR '';'' \<notin> set pair \<Longrightarrow> cookie_pair (pair @ CHR '';'' # attributes) = pair"
  by (simp add: cookie_pair_def split_on_append_sep)

lemma token_textD:
  assumes "token_text s"
  shows "s \<noteq> []" "CHR '';'' \<notin> set s" "printable s" "in_range 0x21 0x7E (hd s)" "in_range 0x21 0x7E (last s)"
proof -
  have s: "s \<noteq> []" "\<And>c. c \<in> set s \<Longrightarrow> in_range 0x21 0x7E c \<and> c \<noteq> CHR '';''"
    using assms by (simp_all add: token_text_def list_all_iff)
  then show "s \<noteq> []" "CHR '';'' \<notin> set s" "in_range 0x21 0x7E (hd s)" "in_range 0x21 0x7E (last s)" by auto
  show "printable s"
    unfolding list_all_iff
  proof
    fix c assume "c \<in> set s"
    with s(2) have "in_range 0x21 0x7E c" by blast
    then show "in_range 0x20 0x7E c" by (simp add: in_range_def)
  qed
qed

lemma request_cookie_pair:
  assumes "token_text name" "CHR ''='' \<notin> set name" "token_text value" "header_text (name @ ''='' @ value)"
  shows "request_cookie header_text [(''cookie'', name @ ''='' @ value)] name = Some value"
proof -
  let ?pair = "name @ ''='' @ value"
  have "CHR '';'' \<notin> set ?pair" using token_textD(2) [OF assms(1)] token_textD(2) [OF assms(3)] by auto
  then have "split_on (CHR '';'') ?pair = [?pair]" by (rule split_on_no_sep)
  moreover have "trim ?pair = ?pair"
    using token_textD [OF assms(1)] token_textD [OF assms(3)] by (intro trim_id) auto
  moreover have "split_once (CHR ''='') ?pair = Some (name, value)" using assms(2) by simp
  ultimately show ?thesis
    using assms(4) by (simp add: request_cookie_def hget_all_def del: split_once_Some)
qed

text \<open>The text of a cookie that was made, and the pair that comes back.\<close>

lemma encrypt_cookie_text:
  assumes "cookies_work env" "encrypt_cookie env oz name v age = Inr set_cookie" "token_text name"
  obtains b where "en_to_json env v = Inr b" "printable set_cookie"
    "cookie_pair set_cookie = name @ ''='' @ en_encrypt env (oz_cookie_key oz) name (en_b64url_encode env b)"
proof -
  obtain b where b: "en_to_json env v = Inr b" using assms(2) by (auto simp: encrypt_cookie_def res_simps)
  let ?e = "en_encrypt env (oz_cookie_key oz) name (en_b64url_encode env b)"
  have e: "token_text ?e" using assms(1) by (simp add: cookies_work_def)
  obtain c where c: "set_cookie = en_cookie_text env c" "ck_name c = name" "ck_value c = ?e"
    using assms(2) b by (auto simp: encrypt_cookie_def res_simps Let_def)
  obtain attributes where "printable attributes" "en_cookie_text env c = ck_name c @ ''='' @ ck_value c @ '';'' @ attributes"
    using assms(1) unfolding cookies_work_def by blast
  with c have a: "printable attributes" "set_cookie = (name @ ''='' @ ?e) @ CHR '';'' # attributes" by simp_all
  moreover have "CHR '';'' \<notin> set (name @ ''='' @ ?e)" using token_textD(2) [OF assms(3)] token_textD(2) [OF e] by auto
  ultimately have "cookie_pair set_cookie = name @ ''='' @ ?e" by (metis cookie_pair_append)
  moreover have "printable set_cookie"
    using a token_textD(3) [OF assms(3)] token_textD(3) [OF e] by (simp add: in_range_def byte_val_def)
  ultimately show thesis using b that by blast
qed

lemma cookie_round_trip:
  assumes "cookies_work env" "encrypt_cookie env oz name v age = Inr set_cookie"
    "token_text name" "CHR ''='' \<notin> set name" "de v = Inr x"
  shows "decrypt_cookie (at_time env t) oz de [(''cookie'', cookie_pair set_cookie)] name = Inr (Some x)"
  using assms(1-3)
proof (rule encrypt_cookie_text)
  fix b
  let ?e = "en_encrypt env (oz_cookie_key oz) name (en_b64url_encode env b)"
  assume b: "en_to_json env v = Inr b" and pair: "cookie_pair set_cookie = name @ ''='' @ ?e"
  have e: "token_text ?e" "en_decrypt env (oz_cookie_key oz) name ?e = Some (en_b64url_encode env b)"
    using assms(1) by (simp_all add: cookies_work_def)
  have "printable (name @ ''='' @ ?e)"
    using token_textD(3) [OF assms(3)] token_textD(3) [OF e(1)] by (simp add: in_range_def byte_val_def)
  then have "en_header_text env (name @ ''='' @ ?e)" using assms(1) by (simp add: cookies_work_def)
  then have "request_cookie (en_header_text env) [(''cookie'', cookie_pair set_cookie)] name = Some ?e"
    unfolding pair by (rule request_cookie_pair [OF assms(3,4) e(1)])
  then show ?thesis
    using assms(1,5) b e(2) by (simp add: decrypt_cookie_def cookies_work_def)
qed

lemma printable_header: "cookies_work env \<Longrightarrow> printable s \<Longrightarrow> en_header_ok env s"
  by (simp add: cookies_work_def)

lemma encrypted_header:
  "cookies_work env \<Longrightarrow> encrypt_cookie env oz name v age = Inr set_cookie \<Longrightarrow> token_text name \<Longrightarrow> en_header_ok env set_cookie"
  by (metis encrypt_cookie_text printable_header)

lemma clear_cookie_header: "cookies_work env \<Longrightarrow> token_text name \<Longrightarrow> en_header_ok env (clear_cookie name)"
  by (rule printable_header) (simp_all add: clear_cookie_def token_textD(3) in_range_def byte_val_def)

text \<open>What the identity provider answers to the callback of a flow with the parameters of a query.\<close>

definition provider_accepts ::
    "auth_env \<Rightarrow> oidc_authorizer \<Rightarrow> oidc_flow \<Rightarrow> string \<Rightarrow> authenticated_identity \<Rightarrow> bool" where
  "provider_accepts env oz flow query identity \<longleftrightarrow>
     (let params = map_of (rev (en_form_parse env query)) in
      params ''error'' = None \<and> params ''state'' = Some (fl_state flow) \<and>
      (\<exists>code c token id_token hash claims. params ''code'' = Some code \<and> oidc_client_for env oz = Inr c \<and>
         en_exchange env c code (fl_pkce_verifier flow) = Inr token \<and> tk_id_token token = Some id_token \<and>
         en_verify_id_token env c id_token (fl_nonce flow) = Inr hash \<and>
         (hash = None \<or> (\<exists>h. hash = Some h \<and> en_access_token_hash env c (tk_access_token token) id_token = Inr h)) \<and>
         decode_verified_claims env id_token = Inr claims \<and> validate_roles claims (oz_config oz) = Inr () \<and>
         identity_from_claims claims (az_roles_claim (oz_config oz)) = Inr identity))"

lemma callback_accepts:
  assumes "decrypt_cookie env oz de_oidc_flow headers (oz_flow_cookie oz) = Inr (Some flow)"
    "en_unix_now env < fl_expires_unix flow" "uri_query u = Some query" "provider_accepts env oz flow query identity"
    "encrypt_cookie env oz (oz_session_cookie oz) (ser_authenticated_identity (identity\<lparr>ai_expires_unix :=
       saturating_add (en_unix_now env) (az_oidc_session_ttl_seconds (oz_config oz))\<rparr>))
       (az_oidc_session_ttl_seconds (oz_config oz)) = Inr session"
    "en_header_ok env (fl_return_to flow)" "en_header_ok env session" "en_header_ok env (clear_cookie (oz_flow_cookie oz))"
  shows "oidc_callback env oz ''GET'' u headers =
    \<lparr>resp_status = 303, resp_headers = [(''location'', fl_return_to flow), (''cache-control'', ''no-store''),
      (''set-cookie'', session), (''set-cookie'', clear_cookie (oz_flow_cookie oz))], resp_body = []\<rparr>"
  using assms(4)
  by (auto simp: provider_accepts_def Let_def oidc_callback_def callback_inner_def assms(1,2,3,5-8) redirect_response_def
      hinsert_def happend_def hremove_def)

section \<open>Properties\<close>

text \<open>C6: a login leads back to the page it began at. A browser asks for a page, whose target is
  printable, begins with one slash and has at most 1024 bytes, and is sent to the identity
  provider. If it returns within ten minutes with the flow cookie and a callback that the provider
  accepts, it is redirected to that page with a session cookie, and with that cookie its first
  request is allowed, as the identity of the verified claims, until the session ends.\<close>

theorem login_round_trip:
  assumes works: "cookies_work env"
    and names: "token_text (oz_flow_cookie oz)" "CHR ''='' \<notin> set (oz_flow_cookie oz)"
      "token_text (oz_session_cookie oz)" "CHR ''='' \<notin> set (oz_session_cookie oz)"
    and policy: "au_oidc au = Some oz" "\<not> handles_endpoint au (uri_path u)"
    and page: "uri_path_and_query u = Some page" "printable page" "starts_with ''/'' page" "\<not> starts_with ''//'' page"
      "length page \<le> 1024"
    and login: "oidc_client_for env oz = Inr c"
      "(url, state, nonce, verifier) = en_begin_login env c
         (filter (\<lambda>scope. \<not> eq_ignore_ascii_case scope ''openid'') (az_oidc_scopes (oz_config oz)))"
      "flow = \<lparr>fl_state = state, fl_nonce = nonce, fl_pkce_verifier = verifier, fl_return_to = page,
         fl_expires_unix = saturating_add t0 (10 * 60)\<rparr>"
      "encrypt_cookie env oz (oz_flow_cookie oz) (ser_oidc_flow flow) (10 * 60) = Inr flow_cookie" "printable url"
    and callback: "t1 < saturating_add t0 (10 * 60)" "uri_query u1 = Some query"
      "provider_accepts env oz flow query identity"
      "session = identity\<lparr>ai_expires_unix := saturating_add t1 (az_oidc_session_ttl_seconds (oz_config oz))\<rparr>"
      "encrypt_cookie env oz (oz_session_cookie oz) (ser_authenticated_identity session)
         (az_oidc_session_ttl_seconds (oz_config oz)) = Inr session_cookie"
    and later: "t2 < saturating_add t1 (az_oidc_session_ttl_seconds (oz_config oz))"
  shows "authorize (at_time env t0) meth u [] au =
      (Respond \<lparr>resp_status = 302, resp_headers = [(''location'', url), (''cache-control'', ''no-store''),
         (''set-cookie'', flow_cookie)], resp_body = []\<rparr>, au) \<and>
    oidc_callback (at_time env t1) oz ''GET'' u1 [(''cookie'', cookie_pair flow_cookie)] =
      \<lparr>resp_status = 303, resp_headers = [(''location'', page), (''cache-control'', ''no-store''),
         (''set-cookie'', session_cookie), (''set-cookie'', clear_cookie (oz_flow_cookie oz))], resp_body = []\<rparr> \<and>
    authorize (at_time env t2) meth u [(''cookie'', cookie_pair session_cookie)] au = (Allow (Some session), au)"
proof (intro conjI)
  have client: "oidc_client_for (at_time env t) oz = oidc_client_for env oz" for t
    by (simp add: oidc_client_for_def)
  have encrypt: "encrypt_cookie (at_time env t) oz name v age = encrypt_cookie env oz name v age" for t name v age
    by (simp add: encrypt_cookie_def)
  have return_to: "safe_return_to u = page" using page by (simp add: safe_return_to_def)
  have ok: "en_header_ok env url" "en_header_ok env page" "en_header_ok env flow_cookie" "en_header_ok env session_cookie"
    "en_header_ok env (clear_cookie (oz_flow_cookie oz))"
    using printable_header [OF works] encrypted_header [OF works] clear_cookie_header [OF works] page(2) login(4,5)
      callback(5) names by blast+
  have path: "uri_path u \<noteq> az_oidc_callback_path (au_config au)" "uri_path u \<noteq> az_oidc_logout_path (au_config au)"
    using policy by (simp_all add: handles_endpoint_def)
  have "oidc_session (at_time env t0) oz [] = Inr None"
    by (simp add: oidc_session_def decrypt_cookie_def request_cookie_def hget_all_def)
  moreover have "oidc_login (at_time env t0) oz u = \<lparr>resp_status = 302, resp_headers = [(''location'', url),
      (''cache-control'', ''no-store''), (''set-cookie'', flow_cookie)], resp_body = []\<rparr>"
    using login(4) unfolding login(3)
    by (simp add: oidc_login_def login_inner_def client login(1) login(2) [symmetric] Let_def encrypt redirect_response_def return_to ok
        hinsert_def happend_def hremove_def)
  ultimately show "authorize (at_time env t0) meth u [] au =
      (Respond \<lparr>resp_status = 302, resp_headers = [(''location'', url), (''cache-control'', ''no-store''),
         (''set-cookie'', flow_cookie)], resp_body = []\<rparr>, au)"
    using path by (simp add: authorize_def policy(1) hcontains_def)
  have "provider_accepts (at_time env t1) oz flow query identity"
    using callback(3) by (simp add: provider_accepts_def client decode_verified_claims_def)
  moreover have "decrypt_cookie (at_time env t1) oz de_oidc_flow [(''cookie'', cookie_pair flow_cookie)] (oz_flow_cookie oz) =
      Inr (Some flow)"
    by (rule cookie_round_trip [where de = de_oidc_flow, OF works login(4) names(1,2) de_ser_oidc_flow])
  ultimately show "oidc_callback (at_time env t1) oz ''GET'' u1 [(''cookie'', cookie_pair flow_cookie)] =
      \<lparr>resp_status = 303, resp_headers = [(''location'', page), (''cache-control'', ''no-store''),
         (''set-cookie'', session_cookie), (''set-cookie'', clear_cookie (oz_flow_cookie oz))], resp_body = []\<rparr>"
    using callback_accepts [of "at_time env t1" oz "[(''cookie'', cookie_pair flow_cookie)]" flow u1 query identity session_cookie]
      callback ok login(3) by (simp add: encrypt)
  have "decrypt_cookie (at_time env t2) oz de_authenticated_identity [(''cookie'', cookie_pair session_cookie)] (oz_session_cookie oz) =
      Inr (Some session)"
    by (rule cookie_round_trip [where de = de_authenticated_identity, OF works callback(5) names(3,4) de_ser_authenticated_identity])
  then have "oidc_session (at_time env t2) oz [(''cookie'', cookie_pair session_cookie)] = Inr (Some session)"
    using later callback(4) by (simp add: oidc_session_def)
  then show "authorize (at_time env t2) meth u [(''cookie'', cookie_pair session_cookie)] au = (Allow (Some session), au)"
    using path by (simp add: authorize_def policy(1) hcontains_def)
qed

text \<open>A cookie layer that satisfies the contract: a value is written as its bits.\<close>

fun char_bits :: "char \<Rightarrow> string" where
  "char_bits (Char b0 b1 b2 b3 b4 b5 b6 b7) =
     map (\<lambda>b. if b then CHR ''1'' else CHR ''0'') [b0, b1, b2, b3, b4, b5, b6, b7]"

fun read_bits :: "string \<Rightarrow> string" where
  "read_bits (b0 # b1 # b2 # b3 # b4 # b5 # b6 # b7 # bs) =
     Char (b0 = CHR ''1'') (b1 = CHR ''1'') (b2 = CHR ''1'') (b3 = CHR ''1'')
       (b4 = CHR ''1'') (b5 = CHR ''1'') (b6 = CHR ''1'') (b7 = CHR ''1'') # read_bits bs"
| "read_bits _ = []"

lemma read_char_bits: "read_bits (char_bits c @ bs) = c # read_bits bs"
  by (cases c) simp

lemma read_bits: "read_bits (concat (map char_bits s)) = s"
  by (induction s) (simp_all add: read_char_bits)

lemma char_bits_01: "set (char_bits c) \<subseteq> {CHR ''0'', CHR ''1''}"
  by (cases c) auto

lemma token_text_bits: "token_text (CHR ''x'' # concat (map char_bits s))"
proof -
  have ok: "in_range 0x21 0x7E (CHR ''x'')" by (simp add: in_range_def byte_val_def)
  have "in_range 0x21 0x7E x \<and> x \<noteq> CHR '';''" if "x \<in> set (concat (map char_bits s))" for x
  proof -
    from that char_bits_01 have "x = CHR ''0'' \<or> x = CHR ''1''" by fastforce
    then show ?thesis by (elim disjE) (simp_all add: in_range_def byte_val_def)
  qed
  with ok show ?thesis by (auto simp: token_text_def list_all_iff simp del: set_concat)
qed

definition login_session :: authenticated_identity where
  "login_session = (case identity_from_claims example_claims (az_roles_claim example_policy) of
     Inr i \<Rightarrow> i\<lparr>ai_expires_unix := saturating_add 5 (az_oidc_session_ttl_seconds example_policy)\<rparr> | _ \<Rightarrow> example_identity)"

definition login_env :: auth_env where
  "login_env = example_provider\<lparr>
     en_to_json := (\<lambda>v. if v = ser_oidc_flow example_flow then Inr ''f''
       else if v = ser_authenticated_identity login_session then Inr ''u'' else Inl []),
     en_from_json := (\<lambda>b. if b = ''f'' then Inr (ser_oidc_flow example_flow)
       else if b = ''u'' then Inr (ser_authenticated_identity login_session)
       else if b = ''p'' then Inr example_claims else Inl []),
     en_encrypt := (\<lambda>_ _ v. CHR ''x'' # concat (map char_bits v)),
     en_decrypt := (\<lambda>_ _ v. Some (read_bits (tl v))),
     en_cookie_text := (\<lambda>c. ck_name c @ ''='' @ ck_value c @ ''; Path=/''),
     en_header_ok := printable, en_header_text := printable\<rparr>"

lemma login_env_works: "cookies_work login_env"
  by (auto simp: cookies_work_def login_env_def example_provider_def example_env_def read_bits token_text_bits
      in_range_def byte_val_def)

theorem login_round_trip_witness:
  "\<exists>flow_cookie session_cookie au.
     authorize (at_time login_env 0) ''GET'' example_uri [] au =
       (Respond \<lparr>resp_status = 302, resp_headers = [(''location'', ''u''), (''cache-control'', ''no-store''),
         (''set-cookie'', flow_cookie)], resp_body = []\<rparr>, au) \<and>
     oidc_callback (at_time login_env 5) example_oidc ''GET'' (example_uri\<lparr>uri_query := Some ''q''\<rparr>)
         [(''cookie'', cookie_pair flow_cookie)] =
       \<lparr>resp_status = 303, resp_headers = [(''location'', ''/x''), (''cache-control'', ''no-store''),
         (''set-cookie'', session_cookie), (''set-cookie'', clear_cookie ''f'')], resp_body = []\<rparr> \<and>
     authorize (at_time login_env 6) ''GET'' example_uri [(''cookie'', cookie_pair session_cookie)] au =
       (Allow (Some login_session), au)"
proof -
  obtain i where i: "identity_from_claims example_claims (az_roles_claim example_policy) = Inr i"
    using example_claims_accepted(2) by blast
  have client: "oidc_client_for login_env example_oidc =
      Inr \<lparr>oc_client_id = ''c'', oc_client_secret = None, oc_redirect_uri = ''https://h'' @ az_oidc_callback_path example_policy\<rparr>"
    by (simp add: oidc_client_for_def login_env_def example_provider_def example_env_def example_oidc_def Let_def)
      (simp add: example_policy_def)
  have accepted: "provider_accepts login_env example_oidc example_flow ''q'' i"
    unfolding provider_accepts_def client
    by (simp add: login_env_def example_provider_def example_env_def example_oidc_def example_flow_def
        decode_verified_claims_def example_claims_accepted(1) i)
  obtain flow_cookie where flow: "encrypt_cookie login_env example_oidc ''f'' (ser_oidc_flow example_flow) (10 * 60) = Inr flow_cookie"
    by (simp add: encrypt_cookie_def login_env_def example_provider_def example_env_def Let_def)
  have distinct: "ser_authenticated_identity x \<noteq> ser_oidc_flow f" for x f
    by (simp add: ser_authenticated_identity_def ser_oidc_flow_def)
  obtain session_cookie where session: "encrypt_cookie login_env example_oidc ''s'' (ser_authenticated_identity login_session)
      (az_oidc_session_ttl_seconds example_policy) = Inr session_cookie"
    using distinct by (simp add: encrypt_cookie_def login_env_def example_provider_def example_env_def Let_def)
  have names: "token_text ''f''" "token_text ''s''" by (simp_all add: token_text_def in_range_def byte_val_def)
  have begin_login: "en_begin_login login_env c scopes = (''u'', ''s'', ''n'', ''v'')" for c scopes
    by (simp_all add: login_env_def example_provider_def example_env_def)
  have oz: "oz_flow_cookie example_oidc = ''f''" "oz_session_cookie example_oidc = ''s''" "oz_config example_oidc = example_policy"
    "au_oidc example_authorizer = Some example_oidc"
    by (simp_all add: example_oidc_def example_authorizer_def)
  have flow_def: "example_flow = \<lparr>fl_state = ''s'', fl_nonce = ''n'', fl_pkce_verifier = ''v'',
      fl_return_to = ''/x'', fl_expires_unix = saturating_add 0 (10 * 60)\<rparr>"
    by (simp add: example_flow_def saturating_add_def)
  have page: "uri_path_and_query example_uri = Some ''/x''" "printable ''/x''" "printable ''u''" "starts_with ''/'' ''/x''"
    "\<not> starts_with ''//'' ''/x''" "length ''/x'' \<le> 1024"
    by (simp_all add: example_uri_def starts_with_iff in_range_def byte_val_def)
  have path: "\<not> handles_endpoint example_authorizer (uri_path example_uri)"
    by (simp add: handles_endpoint_def example_authorizer_def example_uri_def example_policy_def
        default_oidc_callback_path_def default_oidc_logout_path_def)
  have session_def: "login_session = i\<lparr>ai_expires_unix := saturating_add 5 (az_oidc_session_ttl_seconds example_policy)\<rparr>"
    by (simp add: login_session_def i)
  have "(5::u64) < saturating_add 0 (10 * 60)" "(6::u64) < saturating_add 5 (az_oidc_session_ttl_seconds example_policy)"
    by (simp_all add: saturating_add_def example_policy_def default_oidc_session_ttl_seconds_def)
  then show ?thesis
    using login_round_trip [OF login_env_works, of example_oidc example_authorizer example_uri "''/x''"
        "\<lparr>oc_client_id = ''c'', oc_client_secret = None, oc_redirect_uri = ''https://h'' @ az_oidc_callback_path example_policy\<rparr>"
        "''u''" "''s''" "''n''" "''v''" example_flow 0 flow_cookie 5 "example_uri\<lparr>uri_query := Some ''q''\<rparr>" "''q''" i login_session
        session_cookie 6 "''GET''"]
    unfolding oz using names client begin_login flow_def flow session session_def accepted path page by auto
qed

end
