(* ===== verification/Key_Refresh.thy ===== *)
theory Key_Refresh
  imports Authorization
begin

text \<open>
  How often bearer tokens make the layer ask the identity provider for keys
  (\<^verbatim>\<open>refresh_if_due\<close> and its two calls in \<^verbatim>\<open>authorize_token\<close>, \<^verbatim>\<open>client/src/authorization.rs\<close>). A call
  asks the provider when its outcome, answer or new state, depends on what the provider or the cache
  file would answer.
\<close>

definition with_provider ::
    "(string \<Rightarrow> discovery_document fetched) \<Rightarrow> (string \<Rightarrow> jwk list fetched) \<Rightarrow> (string \<Rightarrow> jwk list \<Rightarrow> unit res) \<Rightarrow> auth_env \<Rightarrow> auth_env" where
  "with_provider discovery jwks persist env =
     env\<lparr>en_get_discovery := discovery, en_get_jwks := jwks, en_persist_jwks := persist\<rparr>"

definition provider_asked :: "auth_env \<Rightarrow> string \<Rightarrow> jwt_authorizer \<Rightarrow> bool" where
  "provider_asked env token ja \<longleftrightarrow>
     (\<exists>discovery jwks persist.
        authorize_token (with_provider discovery jwks persist env) token ja \<noteq> authorize_token env token ja)"

text \<open>The times at which a sequence of tokens, each with its environment, asks the provider.\<close>

fun asked_times :: "(auth_env \<times> string) list \<Rightarrow> jwt_authorizer \<Rightarrow> nat list" where
  "asked_times [] ja = []"
| "asked_times ((env, token) # calls) ja =
     (if provider_asked env token ja then [en_instant env] else []) @
     asked_times calls (snd (authorize_token env token ja))"

definition refresh_interval :: "jwt_authorizer \<Rightarrow> nat" where
  "refresh_interval ja = min (from_secs 10) (from_secs (az_jwks_refresh_seconds (ja_config ja)))"

section \<open>Lemmas\<close>

lemma with_provider_simps [simp]:
  "en_instant (with_provider d j p env) = en_instant env"
  "en_decode_header (with_provider d j p env) = en_decode_header env"
  "key_for (with_provider d j p env) = key_for env"
  "en_error_text (with_provider d j p env) = en_error_text env"
  "check_token (with_provider d j p env) = check_token env"
  by (simp_all add: with_provider_def key_for_def [abs_def] check_token_def [abs_def])

lemma refresh_early:
  "en_instant env - ja_last_attempt ja < (if force then from_secs 10 else from_secs (az_jwks_refresh_seconds (ja_config ja))) \<Longrightarrow>
   refresh_if_due env force ja = (Inr (), ja)"
  by (simp add: refresh_if_due_def Let_def)

lemma refresh_due:
  assumes "(if force then from_secs 10 else from_secs (az_jwks_refresh_seconds (ja_config ja))) \<le> en_instant env - ja_last_attempt ja"
  shows "ja_last_attempt (snd (refresh_if_due env force ja)) = en_instant env"
proof -
  have "\<not> en_instant env - ja_last_attempt ja < (if force then from_secs 10 else from_secs (az_jwks_refresh_seconds (ja_config ja)))"
    using assms by simp
  then show ?thesis unfolding refresh_if_due_def Let_def by (simp split: sum.split)
qed

lemma refresh_attempt_times:
  "ja_last_attempt (snd (refresh_if_due env force ja)) \<in> {ja_last_attempt ja, en_instant env}"
  by (auto simp: refresh_if_due_def Let_def split: sum.split)

text \<open>A token for which a second, forced refresh is reached: its key is not among the cached ones.\<close>

definition key_missing :: "auth_env \<Rightarrow> string \<Rightarrow> jwt_authorizer \<Rightarrow> bool" where
  "key_missing env token ja \<longleftrightarrow> (\<exists>alg kid e. en_decode_header env token = Inr (alg, Some kid) \<and>
     alg \<in> set (ja_algorithms ja) \<and> key_for env ja kid alg = Inl e)"

lemma authorize_token_key_known:
  assumes "refresh_if_due env False ja = (Inr (), ja)" "refresh_if_due (with_provider d j p env) False ja = (Inr (), ja)"
    "\<not> key_missing env token ja"
  shows "authorize_token (with_provider d j p env) token ja = authorize_token env token ja"
proof (cases "en_decode_header env token")
  case (Inr header)
  obtain alg kid where header: "header = (alg, kid)" by (cases header)
  from assms(3) Inr header have "\<exists>key. key_for env ja k alg = Inr key" if "kid = Some k" "alg \<in> set (ja_algorithms ja)" for k
    using that by (cases "key_for env ja k alg") (auto simp: key_missing_def)
  then show ?thesis by (cases kid) (auto simp: authorize_token_def assms(1,2) Inr header denied_def)
qed (simp add: authorize_token_def assms(1,2) denied_def)

lemma authorize_token_quiet:
  assumes "refresh_if_due env False ja = (Inr (), ja)" "refresh_if_due (with_provider d j p env) False ja = (Inr (), ja)"
    "refresh_if_due env True ja = (Inr (), ja)" "refresh_if_due (with_provider d j p env) True ja = (Inr (), ja)"
  shows "authorize_token (with_provider d j p env) token ja = authorize_token env token ja"
  unfolding authorize_token_def assms with_provider_simps prod.case sum.case ..

lemma authorize_token_key_missing:
  assumes "refresh_if_due env False ja = (r1, ja1)" "key_missing env token ja1" "r1 = Inr u"
  shows "snd (authorize_token env token ja) = snd (refresh_if_due env True ja1)"
  using assms by (auto simp: authorize_token_def key_missing_def denied_def split: sum.split prod.split)

lemma authorize_token_state:
  "\<exists>ja1. ja1 = snd (refresh_if_due env False ja) \<and>
     snd (authorize_token env token ja) \<in> {ja1, snd (refresh_if_due env True ja1)}"
proof -
  obtain r1 ja1 where r1: "refresh_if_due env False ja = (r1, ja1)" by force
  obtain r2 ja2 where r2: "refresh_if_due env True ja1 = (r2, ja2)" by force
  show ?thesis unfolding authorize_token_def r1 prod.case by (auto simp: r2 split: sum.split option.split)
qed

lemma attempt_times:
  "ja_last_attempt (snd (authorize_token env token ja)) \<in> {ja_last_attempt ja, en_instant env}"
  using authorize_token_state [of env ja token] refresh_attempt_times by auto (metis+)

lemma asked_attempt:
  assumes "provider_asked env token ja"
  shows "ja_last_attempt (snd (authorize_token env token ja)) = en_instant env"
    "refresh_interval ja \<le> en_instant env - ja_last_attempt ja"
proof -
  let ?elapsed = "en_instant env - ja_last_attempt ja" and ?period = "from_secs (az_jwks_refresh_seconds (ja_config ja))"
  have "ja_last_attempt (snd (authorize_token env token ja)) = en_instant env \<and> refresh_interval ja \<le> ?elapsed"
  proof (cases "?elapsed < ?period")
    case True
    then have early: "refresh_if_due env False ja = (Inr (), ja)"
      "refresh_if_due (with_provider d j p env) False ja = (Inr (), ja)" for d j p
      by (simp_all add: refresh_early)
    then have missing: "key_missing env token ja"
      using assms authorize_token_key_known unfolding provider_asked_def by blast
    have due: "from_secs 10 \<le> ?elapsed"
    proof (rule ccontr)
      assume "\<not> from_secs 10 \<le> ?elapsed"
      then have "refresh_if_due env True ja = (Inr (), ja)"
        "refresh_if_due (with_provider d j p env) True ja = (Inr (), ja)" for d j p
        by (simp_all add: refresh_early)
      with early assms authorize_token_quiet show False unfolding provider_asked_def by blast
    qed
    with authorize_token_key_missing [OF early(1) missing refl] refresh_due [of True ja env] show ?thesis
      by (simp add: refresh_interval_def)
  next
    case False
    then have "ja_last_attempt (snd (refresh_if_due env False ja)) = en_instant env" by (intro refresh_due) simp
    with authorize_token_state [of env ja token] refresh_attempt_times [of env True "snd (refresh_if_due env False ja)"] False show ?thesis
      by (auto simp: refresh_interval_def)
  qed
  then show "ja_last_attempt (snd (authorize_token env token ja)) = en_instant env"
    "refresh_interval ja \<le> ?elapsed" by simp_all
qed

lemma refresh_interval_kept [simp]: "refresh_interval (snd (authorize_token env token ja)) = refresh_interval ja"
  by (simp add: refresh_interval_def authorize_token_keeps_policy)

section \<open>Properties\<close>

text \<open>C28: tokens cannot flood the identity provider. Whatever tokens arrive, also ones that name keys
  nobody has, two questions to the provider are at least the refresh period or ten seconds apart,
  whichever is shorter, whether or not the provider answered, so until a time \<open>t\<close> there are at
  most as many as such intervals since the last one.\<close>

theorem refresh_rate_limited:
  assumes "0 < refresh_interval ja" "\<forall>(env, token)\<in>set calls. en_instant env \<le> t"
    "sorted (ja_last_attempt ja # map (\<lambda>call. en_instant (fst call)) calls)"
  shows "successively (\<lambda>t1 t2. t1 + refresh_interval ja \<le> t2) (ja_last_attempt ja # asked_times calls ja) \<and>
    length (asked_times calls ja) * refresh_interval ja \<le> t - ja_last_attempt ja"
  using assms
proof (induction calls arbitrary: ja)
  case Nil
  then show ?case by simp
next
  case (Cons call calls)
  obtain env token where call: "call = (env, token)" by (cases call)
  let ?ja = "snd (authorize_token env token ja)" and ?m = "refresh_interval ja"
  have "sorted (ja_last_attempt ?ja # map (\<lambda>call. en_instant (fst call)) calls)"
    using Cons.prems(3) attempt_times [of env token ja] by (auto simp: call)
  then have IH: "successively (\<lambda>t1 t2. t1 + ?m \<le> t2) (ja_last_attempt ?ja # asked_times calls ?ja)"
    "length (asked_times calls ?ja) * ?m \<le> t - ja_last_attempt ?ja"
    using Cons.IH [of ?ja] Cons.prems by simp_all
  show ?case
  proof (cases "provider_asked env token ja")
    case True
    with IH asked_attempt [OF True] Cons.prems show ?thesis by (auto simp: call)
  next
    case False
    have "ja_last_attempt ja \<le> ja_last_attempt ?ja"
      using Cons.prems(3) attempt_times [of env token ja] by (auto simp: call)
    with IH False show ?thesis by (cases "asked_times calls ?ja") (auto simp: call)
  qed
qed

text \<open>A token with an unknown key at one second.\<close>

definition unknown_key_at :: "u64 \<Rightarrow> auth_env" where
  "unknown_key_at now = example_env\<lparr>en_now := from_secs now, en_instant := from_secs now, en_decode_header := (\<lambda>_. Inr (RS256, Some ''2''))\<rparr>"

theorem refresh_rate_limited_witness:
  "asked_times [(unknown_key_at 10, ''t''), (unknown_key_at 12, ''t'')] example_jwt = [from_secs 10] \<and>
   length (asked_times [(unknown_key_at 10, ''t''), (unknown_key_at 12, ''t'')] example_jwt) * from_secs 10 \<le> from_secs 12"
proof -
  let ?e = "unknown_key_at 10" and ?d = "with_provider (\<lambda>_. Send_failed []) (\<lambda>_. Send_failed []) (\<lambda>_ _. Inl []) (unknown_key_at 10)"
  have m: "refresh_interval example_jwt = from_secs 10"
    by (simp add: refresh_interval_def from_secs_def example_auth_defs default_jwks_refresh_seconds_def)
  have quiet: "refresh_if_due ?e False example_jwt = (Inr (), example_jwt)" "refresh_if_due ?d False example_jwt = (Inr (), example_jwt)"
    by (rule refresh_early; simp add: unknown_key_at_def from_secs_def example_auth_defs default_jwks_refresh_seconds_def)+
  have missing: "key_missing ?e ''t'' example_jwt" "key_missing ?d ''t'' example_jwt"
    by (simp_all add: key_missing_def key_for_def ensure_cache_age_def from_secs_def unknown_key_at_def example_auth_defs example_key_def
        default_jwks_max_stale_seconds_def)
  have "ks_obtained_at (ja_keys (snd (refresh_if_due ?e True example_jwt))) = from_secs 10"
    "ks_obtained_at (ja_keys (snd (refresh_if_due ?d True example_jwt))) = 0"
    by (simp_all add: refresh_if_due_def fetch_jwks_def with_provider_def from_secs_def unknown_key_at_def example_auth_defs)
  moreover have "from_secs 10 \<noteq> 0" by (simp add: from_secs_def)
  ultimately have "snd (authorize_token ?d ''t'' example_jwt) \<noteq> snd (authorize_token ?e ''t'' example_jwt)"
    using authorize_token_key_missing [OF quiet(1) missing(1) refl] authorize_token_key_missing [OF quiet(2) missing(2) refl]
    by auto
  then have asked: "provider_asked ?e ''t'' example_jwt" unfolding provider_asked_def by metis
  let ?ja = "snd (authorize_token ?e ''t'' example_jwt)"
  have "\<not> provider_asked (unknown_key_at 12) ''t'' ?ja"
    using asked_attempt [of "unknown_key_at 12" "''t''" ?ja] asked_attempt(1) [OF asked] m by (auto simp: unknown_key_at_def from_secs_def)
  with asked have "asked_times [(?e, ''t''), (unknown_key_at 12, ''t'')] example_jwt = [from_secs 10]"
    by (simp add: unknown_key_at_def)
  moreover have "length (asked_times [(?e, ''t''), (unknown_key_at 12, ''t'')] example_jwt) * refresh_interval example_jwt \<le>
      from_secs 12 - ja_last_attempt example_jwt"
    by (rule conjunct2 [OF refresh_rate_limited])
      (simp_all add: m unknown_key_at_def from_secs_def, simp_all add: example_jwt_def)
  ultimately show ?thesis by (simp add: m)
qed

end
