(* ===== verification/Raw_Http.thy ===== *)
theory Raw_Http
  imports Acme
begin

text \<open>
  The rewriting of raw request heads that the unit tests of \<^verbatim>\<open>client/src/authorization.rs\<close> exercise
  (the functions under \<^verbatim>\<open>cfg(test)\<close>), and how far they agree with the header maps the running proxy
  rewrites (\<open>Http_Proxy\<close>). \<^verbatim>\<open>httparse\<close> is the parameter \<open>parse\<close>: the target and the headers of a
  complete request head, \<open>None\<close> for a partial one, or an error.
\<close>

type_synonym parsed_request = "(string option \<times> (string \<times> bytes) list) option"

section \<open>Operations\<close>

definition parse_request :: "(bytes \<Rightarrow> parsed_request res) \<Rightarrow> bytes \<Rightarrow> (string option \<times> (string \<times> bytes) list) res" where
  "parse_request parse bytes =
     and_then (add_context ''parse HTTP request'' (parse bytes)) (\<lambda>status.
       opt_context ''incomplete HTTP request headers'' status)"

definition request_path :: "(bytes \<Rightarrow> parsed_request res) \<Rightarrow> bytes \<Rightarrow> string res" where
  "request_path parse bytes =
     and_then (parse_request parse bytes) (\<lambda>(path, _).
     and_then (opt_context ''HTTP request target is missing'' path) (\<lambda>target.
     let path = hd (split_on (CHR ''?'') target) in
     and_then (ensure (starts_with ''/'' path) ''HTTP request target must use origin form'') (\<lambda>_. Inr path)))"

definition strip_request_path_prefix :: "bytes \<Rightarrow> string \<Rightarrow> bytes res" where
  "strip_request_path_prefix bytes p =
     and_then (opt_context ''HTTP request line is incomplete'' (find_window CRLF bytes)) (\<lambda>line_end.
     let request_line = take line_end bytes in
     and_then (ensure (valid_utf8 request_line) ''HTTP request line is not UTF-8'') (\<lambda>_.
     and_then (opt_context ''HTTP method is malformed'' (split_once (CHR '' '') request_line)) (\<lambda>(meth, rest).
     let target_start = length meth + 1 in
     and_then (opt_context ''HTTP request target is malformed'' (split_once (CHR '' '') rest)) (\<lambda>(target, _).
     let target_end = target_start + length target;
         path = takeWhile (\<lambda>c. c \<noteq> CHR ''?'') target;
         query = dropWhile (\<lambda>c. c \<noteq> CHR ''?'') target;
         p = trim_end_matches (CHR ''/'') p in
     and_then (opt_context ''HTTP request path does not match configured prefix''
       (opt_filter (\<lambda>v. v = [] \<or> starts_with ''/'' v) (strip_prefix p path))) (\<lambda>remainder.
     let rewritten_path = (if remainder = [] then ''/'' else remainder) in
       Inr (take target_start bytes @ rewritten_path @ query @ drop target_end bytes))))))"

text \<open>The head of a request as lines without their endings, and what follows its blank line.\<close>

definition raw_head :: "bytes \<Rightarrow> (bytes list \<times> bytes) res" where
  "raw_head bytes =
     and_then (opt_context ''incomplete HTTP request headers'' (find_window CRLF2 bytes)) (\<lambda>header_end.
       Inr (map strip_cr (split_on (CHR 0x0A) (take header_end bytes)), drop (header_end + 4) bytes))"

definition header_name :: "bytes \<Rightarrow> bytes" where
  "header_name line = hd (split_on (CHR '':'') line)"

fun set_host_loop :: "string \<Rightarrow> nat \<Rightarrow> bytes list \<Rightarrow> bytes \<times> nat \<Rightarrow> bytes \<times> nat" where
  "set_host_loop host index [] st = st"
| "set_host_loop host index (line # lines) (output, host_count) =
     (let is_host = (0 < index \<and> eq_ignore_ascii_case (header_name line) ''host'') in
      set_host_loop host (Suc index) lines
        (if is_host then (output @ ''Host: '' @ host @ CRLF, Suc host_count) else (output @ line @ CRLF, host_count)))"

definition set_host_header :: "bytes \<Rightarrow> string \<Rightarrow> bytes res" where
  "set_host_header bytes host =
     and_then (ensure (host \<noteq> [] \<and> \<not> has_newline host) ''backend_host must be a non-empty HTTP Host value'') (\<lambda>_.
     and_then (raw_head bytes) (\<lambda>(lines, body).
     case set_host_loop host 0 lines ([], 0) of (output, host_count) \<Rightarrow>
       and_then (ensure (host_count = 1) ''HTTP request must contain exactly one Host header'') (\<lambda>_.
         Inr (output @ CRLF @ body))))"

record proxy_scan =
  ps_output :: bytes
  ps_original_host :: "bytes option"
  ps_has_accept_encoding :: bool

definition scan_header :: "bytes \<Rightarrow> bytes \<Rightarrow> bytes \<Rightarrow> proxy_scan \<Rightarrow> proxy_scan res" where
  "scan_header line name rest st =
     (let value = unwrap_or rest (strip_prefix '' '' rest) in
      and_then (if eq_ignore_ascii_case name ''host'' then
          and_then (ensure (ps_original_host st = None) ''HTTP request must contain exactly one Host header'') (\<lambda>_.
            Inr (st\<lparr>ps_original_host := Some value\<rparr>))
        else Inr st) (\<lambda>st.
      let st = (if eq_ignore_ascii_case name ''accept-encoding'' then st\<lparr>ps_has_accept_encoding := True\<rparr> else st) in
      if eq_ignore_ascii_case name ''x-forwarded-for'' \<or> eq_ignore_ascii_case name ''x-forwarded-proto'' \<or>
         eq_ignore_ascii_case name ''x-forwarded-host''
      then Inr st
      else Inr (st\<lparr>ps_output := ps_output st @ line @ CRLF\<rparr>)))"

fun set_proxy_loop :: "nat \<Rightarrow> bytes list \<Rightarrow> proxy_scan \<Rightarrow> proxy_scan res" where
  "set_proxy_loop index [] st = Inr st"
| "set_proxy_loop index (line # lines) st =
     (if index = 0 then set_proxy_loop (Suc index) lines (st\<lparr>ps_output := ps_output st @ line @ CRLF\<rparr>)
      else (case split_once (CHR '':'') line of
          None \<Rightarrow> set_proxy_loop (Suc index) lines st
        | Some (name, rest) \<Rightarrow>
            and_then (scan_header line name rest st) (\<lambda>st. set_proxy_loop (Suc index) lines st)))"

definition set_proxy_headers :: "bytes \<Rightarrow> string option \<Rightarrow> string \<Rightarrow> bytes res" where
  "set_proxy_headers bytes client_ip scheme =
     and_then (ensure (scheme \<in> {''http'', ''https''}) ''forwarded scheme must be http or https'') (\<lambda>_.
     and_then (raw_head bytes) (\<lambda>(lines, body).
     and_then (set_proxy_loop 0 lines
         \<lparr>ps_output = [], ps_original_host = None, ps_has_accept_encoding = False\<rparr>) (\<lambda>st.
     and_then (opt_context ''HTTP request must contain exactly one Host header'' (ps_original_host st)) (\<lambda>original_host.
     and_then (case opt_filter (\<lambda>v. \<not> blank v) client_ip of
         None \<Rightarrow> Inr (ps_output st)
       | Some client_ip \<Rightarrow>
           and_then (ensure (\<not> has_newline client_ip) ''client IP contains invalid characters'') (\<lambda>_.
             Inr (ps_output st @ ''X-Forwarded-For: '' @ client_ip @ CRLF))) (\<lambda>output.
       Inr (output @ ''X-Forwarded-Proto: '' @ scheme @ CRLF @ ''X-Forwarded-Host: '' @ original_host @ CRLF @
         (if ps_has_accept_encoding st then [] else ''Accept-Encoding: gzip'' @ CRLF) @ CRLF @ body))))))"

fun authorization_value :: "(string \<times> bytes) list \<Rightarrow> string option \<Rightarrow> string option res" where
  "authorization_value [] v = Inr v"
| "authorization_value ((name, raw) # headers) v =
     (if eq_ignore_ascii_case name ''authorization'' then
        and_then (ensure (v = None) ''multiple Authorization headers are not accepted'') (\<lambda>_.
        and_then (if valid_utf8 raw then Inr raw else Inl [Msg ''Authorization header is not UTF-8'', Ext_cause ''utf8'']) (\<lambda>raw.
          authorization_value headers (Some raw)))
      else authorization_value headers v)"

definition bearer_token :: "(bytes \<Rightarrow> parsed_request res) \<Rightarrow> bytes \<Rightarrow> string res" where
  "bearer_token parse bytes =
     and_then (parse_request parse bytes) (\<lambda>(_, headers).
     and_then (authorization_value headers None) (\<lambda>v.
     and_then (opt_context ''Authorization header is required'' v) (\<lambda>v.
     and_then (opt_context ''Authorization header must use Bearer'' (split_once (CHR '' '') (trim v))) (\<lambda>(scheme, token).
     and_then (ensure (eq_ignore_ascii_case scheme ''Bearer'' \<and> \<not> blank token) ''Authorization header must use Bearer'') (\<lambda>_.
       Inr (trim token))))))"

fun strip_authorization_loop :: "nat \<Rightarrow> bytes list \<Rightarrow> bytes \<Rightarrow> bytes" where
  "strip_authorization_loop index [] output = output"
| "strip_authorization_loop index (line # lines) output =
     (let is_authorization = (0 < index \<and> eq_ignore_ascii_case (header_name line) ''authorization'') in
      strip_authorization_loop (Suc index) lines
        (if \<not> is_authorization then output @ line @ CRLF else output))"

definition strip_authorization_header :: "bytes \<Rightarrow> bytes res" where
  "strip_authorization_header bytes =
     and_then (raw_head bytes) (\<lambda>(lines, body).
       Inr (strip_authorization_loop 0 lines [] @ CRLF @ body))"

section \<open>Lemmas\<close>

text \<open>A well-formed request: a request line and headers without line breaks in them.\<close>

definition raw_request :: "bytes \<Rightarrow> (bytes \<times> bytes) list \<Rightarrow> bytes \<Rightarrow> bytes" where
  "raw_request line hs body = http_head (line # map header_line hs) @ body"

definition well_formed :: "bytes \<Rightarrow> (bytes \<times> bytes) list \<Rightarrow> bool" where
  "well_formed line hs \<longleftrightarrow> line \<noteq> [] \<and> crlf_free line \<and>
     list_all (\<lambda>h. crlf_free (header_line h) \<and> CHR '':'' \<notin> set (fst h)) hs"

lemma split_head_lines:
  "ls \<noteq> [] \<Longrightarrow> (\<And>l. l \<in> set ls \<Longrightarrow> crlf_free l) \<Longrightarrow>
   map strip_cr (split_on (CHR 0x0A) (take (length (http_head ls) - 4) (http_head ls @ body))) = ls"
proof (induction ls rule: list_nonempty_induct)
  case (single l)
  have "CHR 0x0A \<notin> set l" "CHR 0x0D \<notin> set l" using single [of l] by (simp_all add: crlf_free_def)
  moreover from this have "strip_cr l = l"
    by (cases "strip_suffix [CHR 0x0D] l") (auto simp: strip_cr_def)
  ultimately show ?case by (simp add: http_head_def split_on_no_sep)
next
  case (cons l ls)
  have "4 \<le> length (http_head ls)" using cons.hyps by (cases ls) (simp_all add: http_head_def)
  moreover have "http_head (l # ls) = (l @ CRLF) @ http_head ls" by (simp add: http_head_def)
  ultimately have "length (http_head (l # ls)) - 4 = length (l @ CRLF) + (length (http_head ls) - 4)"
    "http_head (l # ls) @ body = (l @ CRLF) @ http_head ls @ body"
    by simp_all
  then have "take (length (http_head (l # ls)) - 4) (http_head (l # ls) @ body) =
      (l @ [CHR 0x0D]) @ CHR 0x0A # take (length (http_head ls) - 4) (http_head ls @ body)"
    by (simp only: take_append) simp
  then show ?case
    using cons split_on_append_sep [of "CHR 0x0A" "l @ [CHR 0x0D]"] by (simp add: crlf_free_def strip_cr_line)
qed

lemma raw_head_request:
  assumes "well_formed line hs"
  shows "raw_head (raw_request line hs body) = Inr (line # map header_line hs, body)"
proof -
  let ?ls = "line # map header_line hs"
  have ne: "l \<noteq> [] \<and> crlf_free l" if "l \<in> set ?ls" for l
    using that assms by (auto simp: well_formed_def header_line_def list_all_iff)
  have "find_window CRLF2 (http_head ?ls @ body) = Some (length (http_head ?ls) - 4)"
    using ne by (intro find_blank_line) simp_all
  moreover have "4 \<le> length (http_head ?ls)" by (simp add: http_head_def)
  ultimately show ?thesis
    using split_head_lines [of ?ls body] ne by (simp add: raw_head_def raw_request_def)
qed

lemma header_name_line: "CHR '':'' \<notin> set (fst h) \<Longrightarrow> header_name (header_line h) = fst h"
  by (simp add: header_name_def header_line_def split_on_append_sep)


text \<open>The loops over the lines behind the request line.\<close>

lemma strip_authorization_loop_headers:
  "list_all (\<lambda>h. CHR '':'' \<notin> set (fst h)) hs \<Longrightarrow>
   strip_authorization_loop (Suc index) (map header_line hs) acc =
   acc @ concat (map (\<lambda>h. header_line h @ CRLF)
     (filter (\<lambda>h. \<not> eq_ignore_ascii_case (fst h) ''authorization'') hs))"
  by (induction hs arbitrary: index acc) (simp_all add: header_name_line)

definition with_host :: "string \<Rightarrow> bytes \<times> bytes \<Rightarrow> bytes \<times> bytes" where
  "with_host host h = (if eq_ignore_ascii_case (fst h) ''host'' then (''Host'', '' '' @ host) else h)"

lemma set_host_loop_headers:
  "list_all (\<lambda>h. CHR '':'' \<notin> set (fst h)) hs \<Longrightarrow>
   set_host_loop host (Suc index) (map header_line hs) (acc, n) =
   (acc @ concat (map (\<lambda>h. header_line h @ CRLF) (map (with_host host) hs)),
    n + length (filter (\<lambda>h. eq_ignore_ascii_case (fst h) ''host'') hs))"
  by (induction hs arbitrary: index acc n)
    (simp_all add: header_name_line with_host_def header_line_def [of "(_, _)"])

definition is_forwarding :: "bytes \<times> bytes \<Rightarrow> bool" where
  "is_forwarding h \<longleftrightarrow> eq_ignore_ascii_case (fst h) ''x-forwarded-for'' \<or>
     eq_ignore_ascii_case (fst h) ''x-forwarded-proto'' \<or> eq_ignore_ascii_case (fst h) ''x-forwarded-host''"

definition unspaced :: "bytes \<Rightarrow> bytes" where
  "unspaced v = unwrap_or v (strip_prefix '' '' v)"

lemma split_once_header: "CHR '':'' \<notin> set (fst h) \<Longrightarrow> split_once (CHR '':'') (header_line h) = Some (fst h, snd h)"
  unfolding header_line_def by (subst split_once_Some) simp

lemma set_proxy_loop_headers:
  "list_all (\<lambda>h. CHR '':'' \<notin> set (fst h)) hs \<Longrightarrow>
   set_proxy_loop (Suc index) (map header_line hs) st = Inr st' \<Longrightarrow>
   ps_output st' = ps_output st @ concat (map (\<lambda>h. header_line h @ CRLF) (filter (\<lambda>h. \<not> is_forwarding h) hs)) \<and>
   (ps_has_accept_encoding st' \<longleftrightarrow> ps_has_accept_encoding st \<or> (\<exists>h\<in>set hs. eq_ignore_ascii_case (fst h) ''accept-encoding'')) \<and>
   opt_list (ps_original_host st') = opt_list (ps_original_host st) @
     map (\<lambda>h. unspaced (snd h)) (filter (\<lambda>h. eq_ignore_ascii_case (fst h) ''host'') hs)"
proof (induction hs arbitrary: index st)
  case Nil
  then show ?case by simp
next
  case (Cons h hs)
  from Cons.prems obtain st1 where s: "scan_header (header_line h) (fst h) (snd h) st = Inr st1"
    and l: "set_proxy_loop (Suc (Suc index)) (map header_line hs) st1 = Inr st'"
    by (auto simp: split_once_header and_then_eq_Inr split: prod.splits)
  have "ps_output st1 = ps_output st @ (if is_forwarding h then [] else header_line h @ CRLF)"
    "ps_has_accept_encoding st1 \<longleftrightarrow> ps_has_accept_encoding st \<or> eq_ignore_ascii_case (fst h) ''accept-encoding''"
    "opt_list (ps_original_host st1) = opt_list (ps_original_host st) @
       (if eq_ignore_ascii_case (fst h) ''host'' then [unspaced (snd h)] else [])"
    using s by (auto simp: scan_header_def Let_def res_simps is_forwarding_def unspaced_def split: if_splits)
  with Cons.IH [OF _ l] Cons.prems(1) show ?case by auto
qed

text \<open>The header map that \<^verbatim>\<open>hyper\<close> gives to the proxy for raw headers as clients write them, with at
  most one space in front of a value (it would remove any further white space around it).\<close>

definition header_map_of :: "(bytes \<times> bytes) list \<Rightarrow> header_map" where
  "header_map_of hs = map (\<lambda>h. (to_ascii_lowercase (fst h), unspaced (snd h))) hs"

lemma hget_all_header_map_of:
  "hget_all n (header_map_of hs) = map (\<lambda>h. unspaced (snd h)) (filter (\<lambda>h. to_ascii_lowercase (fst h) = n) hs)"
  by (induction hs) (simp_all add: hget_all_def header_map_of_def)

lemma header_map_of_append [simp]: "header_map_of (hs @ ks) = header_map_of hs @ header_map_of ks"
  by (simp add: header_map_of_def)

lemma hget_all_append [simp]: "hget_all n (h @ k) = hget_all n h @ hget_all n k"
  by (simp add: hget_all_def)

lemma hget_all_Cons:
  "hget_all n [] = []" "hget_all n ((m, v) # h) = (if n = m then v # hget_all n h else hget_all n h)"
  by (auto simp: hget_all_def)

definition forwarding_lines :: "string option \<Rightarrow> string \<Rightarrow> bytes \<Rightarrow> bool \<Rightarrow> (bytes \<times> bytes) list" where
  "forwarding_lines client_ip scheme host accepts =
     map (\<lambda>ip. (''X-Forwarded-For'', '' '' @ ip)) (opt_list (opt_filter (\<lambda>v. \<not> blank v) client_ip)) @
     [(''X-Forwarded-Proto'', '' '' @ scheme), (''X-Forwarded-Host'', '' '' @ host)] @
     (if accepts then [] else [(''Accept-Encoding'', '' gzip'')])"

lemma lowercase_names:
  "to_ascii_lowercase ''X-Forwarded-For'' = ''x-forwarded-for''"
  "to_ascii_lowercase ''X-Forwarded-Proto'' = ''x-forwarded-proto''"
  "to_ascii_lowercase ''X-Forwarded-Host'' = ''x-forwarded-host''"
  "to_ascii_lowercase ''Accept-Encoding'' = ''accept-encoding''"
  "eq_ignore_ascii_case n ''host'' \<longleftrightarrow> to_ascii_lowercase n = ''host''"
  "eq_ignore_ascii_case n ''accept-encoding'' \<longleftrightarrow> to_ascii_lowercase n = ''accept-encoding''"
  "eq_ignore_ascii_case n ''x-forwarded-for'' \<longleftrightarrow> to_ascii_lowercase n = ''x-forwarded-for''"
  "eq_ignore_ascii_case n ''x-forwarded-proto'' \<longleftrightarrow> to_ascii_lowercase n = ''x-forwarded-proto''"
  "eq_ignore_ascii_case n ''x-forwarded-host'' \<longleftrightarrow> to_ascii_lowercase n = ''x-forwarded-host''"
  unfolding eq_ignore_ascii_case_def by (code_simp | simp add: to_lower_byte_def byte_val_def)+

lemma unspaced_space [simp]: "unspaced ('' '' @ v) = v" "unspaced (CHR '' '' # v) = v"
  by (simp_all add: unspaced_def)

lemma forwarding_lines_vals:
  "hget_all n (header_map_of (forwarding_lines client_ip scheme host accepts)) =
   (if n = ''x-forwarded-for'' then opt_list (opt_filter (\<lambda>v. \<not> blank v) client_ip)
    else if n = ''x-forwarded-proto'' then [scheme]
    else if n = ''x-forwarded-host'' then [host]
    else if n = ''accept-encoding'' \<and> \<not> accepts then [''gzip''] else [])"
  by (cases "n = ''x-forwarded-for''"; cases "n = ''x-forwarded-proto''"; cases "n = ''x-forwarded-host''";
      cases "n = ''accept-encoding''"; cases "opt_filter (\<lambda>v. \<not> blank v) client_ip"; cases accepts)
    (simp_all add: forwarding_lines_def header_map_of_def hget_all_Cons lowercase_names del: to_ascii_lowercase_simps)

lemma set_proxy_headers_request:
  assumes "well_formed line hs" "set_proxy_headers (raw_request line hs body) client_ip scheme = Inr out"
  obtains host where "hget_all ''host'' (header_map_of hs) = [host]"
    "out = raw_request line (filter (\<lambda>h. \<not> is_forwarding h) hs @
       forwarding_lines client_ip scheme host (hget_all ''accept-encoding'' (header_map_of hs) \<noteq> [])) body"
proof -
  let ?st = "\<lparr>ps_output = line @ CRLF, ps_original_host = None, ps_has_accept_encoding = False\<rparr>"
  obtain st host where st: "set_proxy_loop (Suc 0) (map header_line hs) ?st = Inr st"
    and host: "ps_original_host st = Some host"
    and out: "out = ps_output st @ concat (map (\<lambda>h. header_line h @ CRLF)
      (forwarding_lines client_ip scheme host (ps_has_accept_encoding st))) @ CRLF @ body"
    using assms(2) unfolding set_proxy_headers_def raw_head_request [OF assms(1)]
    by (cases "opt_filter (\<lambda>v. \<not> blank v) client_ip")
      (auto simp: res_simps forwarding_lines_def header_line_def)
  have "list_all (\<lambda>h. CHR '':'' \<notin> set (fst h)) hs"
    using assms(1) by (auto simp: well_formed_def list_all_iff)
  note l = set_proxy_loop_headers [OF this st]
  have "hget_all ''host'' (header_map_of hs) = [host]"
    using l host by (simp add: hget_all_header_map_of lowercase_names)
  moreover have "ps_has_accept_encoding st \<longleftrightarrow> hget_all ''accept-encoding'' (header_map_of hs) \<noteq> []"
    using l by (simp add: hget_all_header_map_of lowercase_names filter_empty_conv)
  ultimately show thesis
    using l out by (intro that) (simp_all add: raw_request_def http_head_def comp_def)
qed

lemma hget_all_kept:
  "hget_all n (header_map_of (filter (\<lambda>h. \<not> is_forwarding h) hs)) =
   (if n \<in> {''x-forwarded-for'', ''x-forwarded-proto'', ''x-forwarded-host''} then []
    else hget_all n (header_map_of hs))"
  by (auto simp: hget_all_header_map_of is_forwarding_def lowercase_names filter_empty_conv intro!: arg_cong [of _ _ "map _"] filter_cong)

lemma find_window_skip:
  "c \<notin> set l \<Longrightarrow> find_window (c # p) (l @ (c # p) @ rest) = Some (length l)"
  by (induction l) (auto simp: starts_with_iff)

definition origin_uri :: "string \<Rightarrow> uri" where
  "origin_uri target = \<lparr>uri_path = takeWhile (\<lambda>c. c \<noteq> CHR ''?'') target,
     uri_query = (case dropWhile (\<lambda>c. c \<noteq> CHR ''?'') target of [] \<Rightarrow> None | _ # q \<Rightarrow> Some q),
     uri_path_and_query = Some target\<rparr>"

lemma origin_uri_query:
  "(case uri_query (origin_uri target) of Some query \<Rightarrow> path @ ''?'' @ query | None \<Rightarrow> path) =
   path @ dropWhile (\<lambda>c. c \<noteq> CHR ''?'') target"
proof (cases "dropWhile (\<lambda>c. c \<noteq> CHR ''?'') target")
  case Nil
  show ?thesis unfolding origin_uri_def uri.simps Nil by simp
next
  case (Cons c q)
  then have "c = CHR ''?''" using hd_dropWhile [of "\<lambda>c. c \<noteq> CHR ''?''" target] by simp
  then show ?thesis unfolding origin_uri_def uri.simps Cons by simp
qed

text \<open>With a well-formed head, stripping the authorization header is filtering the headers, and
  setting the host replaces the one host header.\<close>

lemma strip_authorization_header_request:
  assumes "well_formed line hs"
  shows "strip_authorization_header (raw_request line hs body) =
    Inr (raw_request line (filter (\<lambda>h. \<not> eq_ignore_ascii_case (fst h) ''authorization'') hs) body)"
proof -
  have "list_all (\<lambda>h. CHR '':'' \<notin> set (fst h)) hs"
    using assms by (auto simp: well_formed_def list_all_iff)
  then show ?thesis
    unfolding strip_authorization_header_def raw_head_request [OF assms]
    by (simp add: strip_authorization_loop_headers raw_request_def http_head_def comp_def)
qed

lemma set_host_header_request:
  assumes "well_formed line hs"
  shows "set_host_header (raw_request line hs body) host =
    and_then (ensure (host \<noteq> [] \<and> \<not> has_newline host) ''backend_host must be a non-empty HTTP Host value'') (\<lambda>_.
    and_then (ensure (length (hget_all ''host'' (header_map_of hs)) = 1) ''HTTP request must contain exactly one Host header'') (\<lambda>_.
      Inr (raw_request line (map (with_host host) hs) body)))"
proof -
  have "list_all (\<lambda>h. CHR '':'' \<notin> set (fst h)) hs"
    using assms by (auto simp: well_formed_def list_all_iff)
  then show ?thesis
    unfolding set_host_header_def raw_head_request [OF assms]
    by (simp add: set_host_loop_headers hget_all_header_map_of lowercase_names raw_request_def http_head_def comp_def)
qed

section \<open>Properties\<close>

text \<open>The tested and the running code strip a path prefix alike. On a request line in origin
  form, rewriting the raw bytes gives exactly the line with the target of the URI that the
  proxy builds, and fails exactly where the proxy fails, with the same error.\<close>

theorem raw_strip_prefix_agrees:
  assumes "CHR '' '' \<notin> set meth" "CHR '' '' \<notin> set target" "CHR 0x0D \<notin> set (meth @ target @ version)"
    "valid_utf8 (meth @ '' '' @ target @ '' '' @ version)"
  shows "strip_request_path_prefix (meth @ '' '' @ target @ '' '' @ version @ CRLF @ rest) p =
    and_then (strip_uri_prefix (\<lambda>s. Inr (origin_uri s)) (origin_uri target) p) (\<lambda>u.
      Inr (meth @ '' '' @ the (uri_path_and_query u) @ '' '' @ version @ CRLF @ rest))"
proof -
  let ?line = "meth @ '' '' @ target @ '' '' @ version"
  let ?bytes = "?line @ CRLF @ rest"
  have end_: "find_window CRLF ?bytes = Some (length ?line)"
    using assms(3) by (intro find_window_skip) auto
  have split: "split_once (CHR '' '') ?line = Some (meth, target @ '' '' @ version)"
    "split_once (CHR '' '') (target @ '' '' @ version) = Some (target, version)"
    using assms(1,2) by (simp_all only: split_once_Some) simp_all
  have take: "take (length ?line) ?bytes = ?line" by simp
  have parts: "take (length meth + 1) ?bytes = meth @ '' ''"
    "drop (length meth + 1 + length target) ?bytes = '' '' @ version @ CRLF @ rest" by simp_all
  have "strip_request_path_prefix ?bytes p =
    and_then (strip_uri_prefix (\<lambda>s. Inr (origin_uri s)) (origin_uri target) p) (\<lambda>u.
      Inr (meth @ '' '' @ the (uri_path_and_query u) @ '' '' @ version @ CRLF @ rest))"
    unfolding strip_request_path_prefix_def strip_uri_prefix_def end_ opt_context_simps and_then_simps Let_def take
      split prod.case origin_uri_query parts
    using assms(4)
    by (cases "opt_filter (\<lambda>v. v = [] \<or> starts_with ''/'' v) (strip_prefix (trim_end_matches (CHR ''/'') p) (uri_path (origin_uri target)))")
      (simp_all add: origin_uri_def)
  then show ?thesis by simp
qed

theorem raw_strip_prefix_agrees_witness:
  "strip_request_path_prefix (''GET'' @ '' '' @ ''/a/b?q'' @ '' '' @ ''HTTP/1.1'' @ CRLF @ []) ''/a'' =
   Inr (''GET /b?q HTTP/1.1'' @ CRLF)"
proof -
  have "valid_utf8 (''GET'' @ '' '' @ ''/a/b?q'' @ '' '' @ ''HTTP/1.1'')" by code_simp
  moreover have "trim_end_matches (CHR ''/'') ''/a'' = ''/a''" by code_simp
  ultimately show ?thesis
    by (subst raw_strip_prefix_agrees) (simp_all add: strip_uri_prefix_def origin_uri_def)
qed

text \<open>C39: the tested and the running code agree on forwarding headers but one. On a well-formed
  request, the raw rewriting and the header map of the proxy have the same values under every
  name except \<^verbatim>\<open>forwarded\<close>: the proxy removes what the client sent under it, the tested function
  hands it on. The request line and the body are kept.\<close>

theorem raw_proxy_headers_agree:
  assumes "well_formed line hs" "set_proxy_headers (raw_request line hs body) client_ip scheme = Inr out"
    "hget ''host'' (header_map_of hs) = Some host"
    "forwarding_headers header_ok client_ip scheme host (header_map_of hs) = Inr h"
  shows "\<exists>hs'. out = raw_request line hs' body \<and>
    (\<forall>n. hget_all n (header_map_of hs') = (if n = ''forwarded'' then hget_all n (header_map_of hs) else hget_all n h)) \<and>
    hget_all ''forwarded'' h = []"
  using assms(1,2)
proof (rule set_proxy_headers_request)
  fix host'
  assume host': "hget_all ''host'' (header_map_of hs) = [host']"
    and out: "out = raw_request line (filter (\<lambda>h. \<not> is_forwarding h) hs @
       forwarding_lines client_ip scheme host' (hget_all ''accept-encoding'' (header_map_of hs) \<noteq> [])) body"
  have same: "host' = host" using host' assms(3) by (simp add: hget_all_hget)
  note vals = forwarding_headers_vals [OF assms(4)]
  have "hget_all n (header_map_of (filter (\<lambda>h. \<not> is_forwarding h) hs @
       forwarding_lines client_ip scheme host' (hget_all ''accept-encoding'' (header_map_of hs) \<noteq> []))) =
     (if n = ''forwarded'' then hget_all n (header_map_of hs) else hget_all n h)" for n
    unfolding header_map_of_append hget_all_append hget_all_kept forwarding_lines_vals vals same
    by (cases "n = ''x-forwarded-for''"; cases "n = ''x-forwarded-proto''"; cases "n = ''x-forwarded-host''";
      cases "n = ''accept-encoding''"; cases "n = ''forwarded''") simp_all
  moreover have "hget_all ''forwarded'' h = []" using vals [of "''forwarded''"] by simp
  ultimately show ?thesis using out by blast
qed

definition spoofed :: "(bytes \<times> bytes) list" where
  "spoofed = [(''Host'', '' a''), (''Forwarded'', '' for=x'')]"

theorem raw_proxy_headers_agree_witness:
  "\<exists>out hs'. set_proxy_headers (raw_request ''GET / HTTP/1.1'' spoofed []) None ''http'' = Inr out \<and>
     out = raw_request ''GET / HTTP/1.1'' hs' [] \<and> hget_all ''forwarded'' (header_map_of hs') = [''for=x'']"
proof -
  have w: "well_formed ''GET / HTTP/1.1'' spoofed" by code_simp
  have "map header_line spoofed = [''Host: a'', ''Forwarded: for=x'']" by code_simp
  moreover have "set_proxy_loop 0 [''GET / HTTP/1.1'', ''Host: a'', ''Forwarded: for=x'']
      \<lparr>ps_output = [], ps_original_host = None, ps_has_accept_encoding = False\<rparr> =
    Inr \<lparr>ps_output = ''GET / HTTP/1.1'' @ CRLF @ ''Host: a'' @ CRLF @ ''Forwarded: for=x'' @ CRLF,
      ps_original_host = Some ''a'', ps_has_accept_encoding = False\<rparr>" by code_simp
  ultimately obtain out where out: "set_proxy_headers (raw_request ''GET / HTTP/1.1'' spoofed []) None ''http'' = Inr out"
    by (simp add: set_proxy_headers_def raw_head_request [OF w])
  have m: "header_map_of spoofed = [(''host'', ''a''), (''forwarded'', ''for=x'')]" by code_simp
  then have host: "hget ''host'' (header_map_of spoofed) = Some ''a''" by (simp add: hget_def)
  obtain h where "forwarding_headers (\<lambda>_. True) None ''http'' ''a'' (header_map_of spoofed) = Inr h"
    by (simp add: forwarding_headers_def Let_def header_value_def)
  from raw_proxy_headers_agree [OF w out host this] out m show ?thesis
    by (auto simp: hget_all_Cons)
qed

text \<open>Where the tested reader of bearer tokens returns a token, the running authorizer goes on with
  the same one. The converse fails on requests with several authorization headers: the tested
  reader refuses them and the running one takes the first.\<close>

lemma authorization_value_single:
  "authorization_value headers v0 = Inr (Some v) \<Longrightarrow>
   opt_list v0 @ map snd (filter (\<lambda>h. eq_ignore_ascii_case (fst h) ''authorization'') headers) = [v]"
proof (induction headers v0 rule: authorization_value.induct)
  case (1 v)
  then show ?case by simp
next
  case (2 name raw headers v0)
  then show ?case by (auto simp: res_simps split: if_splits)
qed

lemma bearer_token_agrees:
  assumes "bearer_token parse bytes = Inr token" "parse_request parse bytes = Inr (target, headers)"
    "\<And>v. en_header_text env v"
  shows "authorize_headers env (map (\<lambda>h. (to_ascii_lowercase (fst h), snd h)) headers) ja = authorize_token env token ja"
proof -
  obtain v scheme rest where v: "authorization_value headers None = Inr (Some v)"
    and s: "split_once (CHR '' '') (trim v) = Some (scheme, rest)" "eq_ignore_ascii_case scheme ''Bearer''" "\<not> blank rest"
    and t: "token = trim rest"
    using assms(1,2) unfolding bearer_token_def by (auto simp only: res_simps prod.case split: prod.splits) auto
  have a: "to_ascii_lowercase ''authorization'' = ''authorization''" by code_simp
  have "hget_all ''authorization'' (map (\<lambda>h. (to_ascii_lowercase (fst h), snd h)) headers) = [v]"
    using authorization_value_single [OF v]
    by (simp add: hget_all_def filter_map comp_def eq_ignore_ascii_case_def a del: to_ascii_lowercase_simps)
  then have "hget ''authorization'' (map (\<lambda>h. (to_ascii_lowercase (fst h), snd h)) headers) = Some v"
    by (simp add: hget_all_hget)
  then show ?thesis
    unfolding authorize_headers_def using s(2,3) t assms(3) by (simp add: s(1) del: split_once_Some)
qed

lemma several_authorization_headers:
  "bearer_token (\<lambda>_. Inr (Some (None, [(''authorization'', ''Bearer a''), (''authorization'', ''Bearer b'')]))) [] =
     Inl [Msg ''multiple Authorization headers are not accepted'']"
  "fst (authorize_headers example_env [(''authorization'', ''Bearer t''), (''authorization'', ''Bearer b'')] example_jwt) =
     Inr example_claims"
proof -
  have "valid_utf8 ''Bearer a''" by code_simp
  then show "bearer_token (\<lambda>_. Inr (Some (None, [(''authorization'', ''Bearer a''), (''authorization'', ''Bearer b'')]))) [] =
     Inl [Msg ''multiple Authorization headers are not accepted'']"
    by (simp add: bearer_token_def parse_request_def)
  have "authorize_headers example_env [(''authorization'', ''Bearer t''), (''authorization'', ''Bearer b'')] example_jwt =
      authorize_headers example_env [(''authorization'', ''Bearer t'')] example_jwt"
    by (simp add: authorize_headers_def hget_def)
  then show "fst (authorize_headers example_env [(''authorization'', ''Bearer t''), (''authorization'', ''Bearer b'')] example_jwt) =
     Inr example_claims"
    by (simp add: example_bearer)
qed

end
