(* ===== verification/Acme_Runtime.thy ===== *)
theory Acme_Runtime
  imports Acme "HOL-Library.Multiset"
begin

text \<open>
  The running certificate task (\<^verbatim>\<open>AcmeRuntime\<close>, its \<^verbatim>\<open>Drop\<close>, \<^verbatim>\<open>NonTerminatingReceiverStream\<close> and the
  loop of \<^verbatim>\<open>run_acme\<close> in \<^verbatim>\<open>client/src/acme.rs\<close>) as a transition system. Handles of the runtime
  submit streams to a channel of 64 places; the task takes them, \<^verbatim>\<open>rustls-acme\<close> shakes hands on
  any of those it has, and each decrypted stream is bridged on its own. Dropping the last
  handle asks the task to stop and then closes the channel; the task may be polled between
  the two and until it has noticed.
\<close>

section \<open>States and steps\<close>

text \<open>\<^verbatim>\<open>IngressStream\<close>: a tunneled socket and the address of its peer. A decrypted stream of \<^verbatim>\<open>rustls-acme\<close>
  holds the stream it was made from, which \<^verbatim>\<open>get_ref\<close> returns, and the plain text it reads.\<close>

record ingress_stream =
  ig_stream :: socket
  ig_client_ip :: "string option"

record tls_stream =
  ts_inner :: ingress_stream
  ts_plain :: socket

record acme_task =
  at_handles :: nat
  at_channel :: "ingress_stream list"
  at_abort :: bool
  at_closed :: bool
  at_stopped :: bool
  at_handshaking :: "ingress_stream list"
  at_bridged :: "(tls_stream \<times> tunnel_action res) list"
  at_submitted :: "ingress_stream list"
  at_taken :: "ingress_stream list"

record acme_setting =
  ag_connect :: "string \<Rightarrow> unit res"
  ag_domain :: string
  ag_backends :: "backend_runtime list"
  ag_tcp_passthrough :: bool

definition started :: acme_task where
  "started = \<lparr>at_handles = 1, at_channel = [], at_abort = False, at_closed = False, at_stopped = False,
     at_handshaking = [], at_bridged = [], at_submitted = [], at_taken = []\<rparr>"

definition channel_size :: nat where
  "channel_size = 64"

text \<open>\<^verbatim>\<open>Receiver::poll_recv\<close>, and what the adapter makes of it.\<close>

definition poll_recv :: "acme_task \<Rightarrow> ingress_stream option poll" where
  "poll_recv st = (case at_channel st of
      stream # _ \<Rightarrow> Ready (Some stream)
    | [] \<Rightarrow> if at_closed st then Ready None else Pending)"

definition poll_next :: "acme_task \<Rightarrow> ingress_stream option poll" where
  "poll_next st = non_terminating (poll_recv st)"

text \<open>What the loop does with a connection: a decrypted stream is bridged with the address that
  came with it, a failed handshake is logged.\<close>

definition on_connection :: "acme_setting \<Rightarrow> tls_stream res \<Rightarrow> (tls_stream \<times> tunnel_action res) list" where
  "on_connection g connection = (case connection of
      Inr tls \<Rightarrow>
        let client_ip = ig_client_ip (ts_inner tls) in
        [(tls, bridge_tls (ag_connect g) (ag_domain g) client_ip (ag_backends g) (ag_tcp_passthrough g) (ts_plain tls))]
    | Inl _ \<Rightarrow> [])"

text \<open>What the acceptor makes of one of its streams: nothing to hand on (a certificate challenge), an
  error, or the stream decrypted.\<close>

definition accepted :: "ingress_stream \<Rightarrow> socket res option \<Rightarrow> tls_stream res option" where
  "accepted stream outcome =
     map_option (\<lambda>r. and_then r (\<lambda>plain. Inr \<lparr>ts_inner = stream, ts_plain = plain\<rparr>)) outcome"

definition remove_at :: "nat \<Rightarrow> 'a list \<Rightarrow> 'a list" where
  "remove_at i xs = take i xs @ drop (Suc i) xs"

datatype acme_label =
    Clone_handle
  | Submit ingress_stream
  | Drop_handle
  | Close_channel
  | Notice_abort
  | Poll
  | Shake nat "socket res option"

inductive acme_step :: "acme_setting \<Rightarrow> acme_task \<Rightarrow> acme_label \<Rightarrow> acme_task \<Rightarrow> bool" for g where
  clone: "0 < at_handles st \<Longrightarrow> acme_step g st Clone_handle (st\<lparr>at_handles := Suc (at_handles st)\<rparr>)"
| submit: "0 < at_handles st \<Longrightarrow> \<not> at_stopped st \<Longrightarrow> length (at_channel st) < channel_size \<Longrightarrow>
    acme_step g st (Submit stream)
      (st\<lparr>at_channel := at_channel st @ [stream], at_submitted := at_submitted st @ [stream]\<rparr>)"
| drop: "at_handles st = Suc n \<Longrightarrow>
    acme_step g st Drop_handle (st\<lparr>at_handles := n, at_abort := (at_abort st \<or> n = 0)\<rparr>)"
| close: "at_handles st = 0 \<Longrightarrow> acme_step g st Close_channel (st\<lparr>at_closed := True\<rparr>)"
| notice: "at_abort st \<Longrightarrow> acme_step g st Notice_abort
    (st\<lparr>at_stopped := True, at_channel := [], at_handshaking := []\<rparr>)"
| poll: "\<not> at_stopped st \<Longrightarrow> poll_next st = Ready (Some stream) \<Longrightarrow>
    acme_step g st Poll (st\<lparr>at_channel := tl (at_channel st), at_handshaking := at_handshaking st @ [stream],
      at_taken := at_taken st @ [stream]\<rparr>)"
| shake: "\<not> at_stopped st \<Longrightarrow> i < length (at_handshaking st) \<Longrightarrow>
    acme_step g st (Shake i outcome)
      (st\<lparr>at_handshaking := remove_at i (at_handshaking st),
         at_bridged := at_bridged st @ (case accepted (at_handshaking st ! i) outcome of
             None \<Rightarrow> [] | Some connection \<Rightarrow> on_connection g connection)\<rparr>)"

inductive_cases acme_stepE: "acme_step g st l st'"

inductive acme_reachable :: "acme_setting \<Rightarrow> acme_task \<Rightarrow> bool" for g where
  start: "acme_reachable g started"
| step: "acme_reachable g st \<Longrightarrow> acme_step g st l st' \<Longrightarrow> acme_reachable g st'"

section \<open>Invariant\<close>

text \<open>Streams are conserved: what was taken is being decrypted, or was bridged or lost, each once.\<close>

definition acme_inv :: "acme_setting \<Rightarrow> acme_task \<Rightarrow> bool" where
  "acme_inv g st \<longleftrightarrow>
     (at_closed st \<longrightarrow> at_handles st = 0) \<and> (at_abort st \<longleftrightarrow> at_handles st = 0) \<and> (at_stopped st \<longrightarrow> at_abort st) \<and>
     length (at_channel st) \<le> channel_size \<and>
     (\<exists>lost. at_submitted st = at_taken st @ at_channel st @ lost \<and> (\<not> at_stopped st \<longrightarrow> lost = [])) \<and>
     mset (at_handshaking st) + image_mset (ts_inner \<circ> fst) (mset (at_bridged st)) \<subseteq># mset (at_taken st) \<and>
     (\<forall>(tls, action)\<in>set (at_bridged st).
        action = bridge_tls (ag_connect g) (ag_domain g) (ig_client_ip (ts_inner tls)) (ag_backends g)
          (ag_tcp_passthrough g) (ts_plain tls))"

lemma started_inv: "acme_inv g started"
  by (simp add: acme_inv_def started_def)

lemma poll_next_Some: "poll_next st = Ready (Some stream) \<longleftrightarrow> (\<exists>rest. at_channel st = stream # rest)"
  by (auto simp: poll_next_def poll_recv_def non_terminating_def split: list.splits if_splits)

lemma mset_remove_at: "i < length xs \<Longrightarrow> add_mset (xs ! i) (mset (remove_at i xs)) = mset xs"
  by (metis remove_at_def id_take_nth_drop mset_append mset.simps(2) union_mset_add_mset_right)

lemma bridged_taken: "acme_inv g st \<Longrightarrow> image_mset (ts_inner \<circ> fst) (mset (at_bridged st)) \<subseteq># mset (at_taken st)"
  unfolding acme_inv_def by (elim conjE) (rule subset_mset.order_trans [OF mset_subset_eq_add_right])

lemma accepted_bridged:
  "(case accepted stream outcome of None \<Rightarrow> [] | Some connection \<Rightarrow> on_connection g connection) =
   (case outcome of Some (Inr plain) \<Rightarrow>
      [(\<lparr>ts_inner = stream, ts_plain = plain\<rparr>, bridge_tls (ag_connect g) (ag_domain g) (ig_client_ip stream)
          (ag_backends g) (ag_tcp_passthrough g) plain)]
    | _ \<Rightarrow> [])"
  by (auto simp: accepted_def on_connection_def split: option.split sum.split)

lemma acme_step_inv:
  assumes "acme_step g st l st'" "acme_inv g st"
  shows "acme_inv g st'"
  using assms
proof cases
  case (shake i outcome)
  let ?s = "at_handshaking st ! i"
  have "mset (at_handshaking st) = add_mset ?s (mset (remove_at i (at_handshaking st)))"
    using mset_remove_at [OF shake(4)] by simp
  then have inv: "add_mset ?s (mset (remove_at i (at_handshaking st)) + image_mset (ts_inner \<circ> fst) (mset (at_bridged st)))
      \<subseteq># mset (at_taken st)"
    using assms(2) by (simp add: acme_inv_def)
  then have "mset (remove_at i (at_handshaking st)) + image_mset (ts_inner \<circ> fst) (mset (at_bridged st)) \<subseteq># mset (at_taken st)"
    by (rule subset_mset.order_trans [rotated]) simp
  moreover have "mset (remove_at i (at_handshaking st)) +
      image_mset (ts_inner \<circ> fst) (mset (at_bridged st @ [(\<lparr>ts_inner = ?s, ts_plain = plain\<rparr>, a)])) \<subseteq># mset (at_taken st)" for plain a
    using inv by simp
  ultimately show ?thesis
    using assms(2) shake
    by (auto simp: acme_inv_def accepted_bridged ac_simps split: option.splits sum.splits)
next
  case notice
  then show ?thesis using assms(2) bridged_taken [OF assms(2)] by (auto simp: acme_inv_def)
qed (auto simp: acme_inv_def poll_next_Some)

lemma acme_reachable_inv: "acme_reachable g st \<Longrightarrow> acme_inv g st"
  by (induction rule: acme_reachable.induct) (auto intro: started_inv acme_step_inv)

section \<open>Properties\<close>

text \<open>C14: the certificate task never spins and serves what it was given. In every reachable state
  its input stream does not end, although the channel may be closed; the channel is closed only
  after the task was told to stop, and then it can stop. At most 64 streams wait; until the
  task was told to stop, every submitted stream waits or was taken, in order. A stream is
  bridged at most as often as it was submitted, and every decrypted stream is bridged for the
  runtime's own host, with the address that was submitted together with the very stream it was
  decrypted from.\<close>

theorem acme_task_sound:
  assumes "acme_reachable g st"
  shows "poll_next st \<noteq> Ready None \<and>
    (poll_recv st = Ready None \<longrightarrow> at_abort st \<and> (\<exists>st'. acme_step g st Notice_abort st' \<and> at_stopped st')) \<and>
    length (at_channel st) \<le> 64 \<and>
    (\<not> at_abort st \<longrightarrow> at_submitted st = at_taken st @ at_channel st) \<and>
    image_mset ts_inner (mset (map fst (at_bridged st))) \<subseteq># mset (at_submitted st) \<and>
    (\<forall>(tls, action)\<in>set (at_bridged st).
       action = bridge_tls (ag_connect g) (ag_domain g) (ig_client_ip (ts_inner tls)) (ag_backends g)
         (ag_tcp_passthrough g) (ts_plain tls))"
proof -
  note inv = acme_reachable_inv [OF assms]
  have "at_abort st" if "poll_recv st = Ready None"
    using that inv by (auto simp: poll_recv_def acme_inv_def split: list.splits if_splits)
  moreover have "\<exists>st'. acme_step g st Notice_abort st' \<and> at_stopped st'" if "at_abort st"
    using acme_step.notice [OF that, of g] by fastforce
  moreover have "poll_next st \<noteq> Ready None" by (simp add: poll_next_def non_terminating_never_ends)
  moreover have "at_submitted st = at_taken st @ at_channel st" if "\<not> at_abort st"
    using that inv by (auto simp: acme_inv_def)
  moreover have "image_mset ts_inner (mset (map fst (at_bridged st))) \<subseteq># mset (at_submitted st)"
  proof -
    have "image_mset (ts_inner \<circ> fst) (mset (at_bridged st)) \<subseteq># mset (at_taken st)"
      by (rule bridged_taken [OF inv])
    moreover have "mset (at_taken st) \<subseteq># mset (at_submitted st)"
      using inv by (auto simp: acme_inv_def)
    ultimately have "image_mset (ts_inner \<circ> fst) (mset (at_bridged st)) \<subseteq># mset (at_submitted st)"
      by (rule subset_mset.order_trans)
    then show ?thesis by (simp add: multiset.map_comp)
  qed
  ultimately show ?thesis using inv by (auto simp: acme_inv_def channel_size_def)
qed

text \<open>Two streams with different addresses, of which the second is decrypted first.\<close>

definition stream_of :: "string \<Rightarrow> ingress_stream" where
  "stream_of ip = \<lparr>ig_stream = [], ig_client_ip = Some ip\<rparr>"

definition example_setting :: acme_setting where
  "example_setting = \<lparr>ag_connect = (\<lambda>_. Inr ()), ag_domain = ''h.x'',
     ag_backends = [\<lparr>be_rule = path_rule_of None, be_authorization = None\<rparr>], ag_tcp_passthrough = False\<rparr>"

lemma second_stream_bridged:
  "\<exists>st action. acme_reachable g st \<and> at_submitted st = [stream_of ''1'', stream_of ''2''] \<and>
     at_bridged st = [(\<lparr>ts_inner = stream_of ''2'', ts_plain = [Data ''GET /'']\<rparr>, action)]"
proof -
  let ?sent = "started\<lparr>at_channel := [stream_of ''1'', stream_of ''2''], at_submitted := [stream_of ''1'', stream_of ''2'']\<rparr>"
  let ?taken = "?sent\<lparr>at_channel := [], at_handshaking := [stream_of ''1'', stream_of ''2''], at_taken := [stream_of ''1'', stream_of ''2'']\<rparr>"
  have step: "acme_reachable g st \<Longrightarrow> acme_step g st l st' \<Longrightarrow> st' = st'' \<Longrightarrow> acme_reachable g st''" for st l st' st''
    by (auto intro: acme_reachable.step)
  have "acme_reachable g ?sent"
    by (rule step [OF step [OF acme_reachable.start acme_step.submit refl] acme_step.submit])
      (simp_all add: started_def channel_size_def)
  then have "acme_reachable g ?taken"
    by (rule step [OF step [OF _ acme_step.poll refl] acme_step.poll])
      (simp_all add: started_def poll_next_Some)
  then have "acme_reachable g (?taken\<lparr>at_handshaking := remove_at 1 (at_handshaking ?taken),
      at_bridged := at_bridged ?taken @ (case accepted (at_handshaking ?taken ! 1) (Some (Inr [Data ''GET /''])) of
         None \<Rightarrow> [] | Some connection \<Rightarrow> on_connection g connection)\<rparr>)"
    by (rule step [OF _ acme_step.shake refl]) (simp_all add: started_def)
  then show ?thesis by (intro exI conjI, assumption) (simp_all add: accepted_bridged started_def)
qed

theorem acme_task_sound_witness:
  "\<exists>st action. at_submitted st = [stream_of ''1'', stream_of ''2''] \<and>
     at_bridged st = [(\<lparr>ts_inner = stream_of ''2'', ts_plain = [Data ''GET /'']\<rparr>, action)] \<and>
     action = Inr (Serve_http ''h.x'' (Some ''2'') ''https'') \<and> poll_next st \<noteq> Ready None"
proof -
  obtain st action where st: "acme_reachable example_setting st" "at_submitted st = [stream_of ''1'', stream_of ''2'']"
    "at_bridged st = [(\<lparr>ts_inner = stream_of ''2'', ts_plain = [Data ''GET /'']\<rparr>, action)]"
    using second_stream_bridged by blast
  have http: "looks_like_http_prefix ''GET /''" "matches_pattern ''h.x'' (Some ''h.x'')" by code_simp+
  have "bridge_tls (ag_connect example_setting) (ag_domain example_setting) (ig_client_ip (stream_of ''2''))
      (ag_backends example_setting) (ag_tcp_passthrough example_setting) [Data ''GET /''] =
      Inr (Serve_http ''h.x'' (Some ''2'') ''https'')"
    by (simp add: bridge_tls_def example_setting_def fallback_backend_def matches_hostname_def path_rule_of_def stream_of_def
        peek_http_def sock_peek_def protocol_allowed_def http)
  with st acme_task_sound [OF st(1)] show ?thesis by auto
qed

end
