(* ===== verification/Native_Backend.thy ===== *)
theory Native_Backend
  imports Net Http_Host
begin

text \<open>
  The HTTP backend of the throughput tests (\<^verbatim>\<open>tools/native-http-backend.rs\<close>). A connection is what the
  peer will still send, what it has received, and how many bytes it will still accept before
  a write fails (\<open>None\<close>: it never does). Reads have no deadline: a read that waits for a silent
  peer does not return, which is the result \<open>Pending\<close>. Sizes are below \<open>2 ^ 64\<close> by parsing, and
  the loops never count beyond them.
\<close>

section \<open>Standard library\<close>

text \<open>\<^verbatim>\<open>str::parse::<usize>\<close>\<close>

fun decimal_value :: "nat \<Rightarrow> bytes \<Rightarrow> nat option" where
  "decimal_value n [] = Some n"
| "decimal_value n (c # s) =
     (if is_ascii_digit c then decimal_value (10 * n + (byte_val c - 48)) s else None)"

definition parse_usize :: "bytes \<Rightarrow> nat option" where
  "parse_usize s =
     (let digits = unwrap_or s (strip_prefix ''+'' s) in
      if digits = [] then None else opt_filter (\<lambda>n. n < 2 ^ 64) (decimal_value 0 digits))"

text \<open>\<^verbatim>\<open>String::from_utf8_lossy\<close>: every maximal part of an ill-formed character becomes U+FFFD. The
  length of that part is the number of bytes that could still have begun a character.\<close>

definition utf8_second :: "byte \<Rightarrow> byte \<Rightarrow> bool" where
  "utf8_second a b \<longleftrightarrow>
     in_range 0xE0 0xE0 a \<and> in_range 0xA0 0xBF b \<or> in_range 0xE1 0xEC a \<and> utf8_cont b \<or>
     in_range 0xED 0xED a \<and> in_range 0x80 0x9F b \<or> in_range 0xEE 0xEF a \<and> utf8_cont b \<or>
     in_range 0xF0 0xF0 a \<and> in_range 0x90 0xBF b \<or> in_range 0xF1 0xF3 a \<and> utf8_cont b \<or>
     in_range 0xF4 0xF4 a \<and> in_range 0x80 0x8F b"

fun invalid_part :: "bytes \<Rightarrow> nat" where
  "invalid_part (a # b # c # _) =
     (if \<not> utf8_second a b then 1 else if in_range 0xF0 0xF4 a \<and> utf8_cont c then 3 else 2)"
| "invalid_part [a, b] = (if utf8_second a b then 2 else 1)"
| "invalid_part _ = 1"

lemma invalid_part_pos: "0 < invalid_part s"
  by (induction s rule: invalid_part.induct) auto

function from_utf8_lossy :: "bytes \<Rightarrow> string" where
  "from_utf8_lossy s =
     (if s = [] then []
      else (case utf8_head s of
          Some n \<Rightarrow> take n s @ from_utf8_lossy (drop n s)
        | None \<Rightarrow> [CHR 0xEF, CHR 0xBF, CHR 0xBD] @ from_utf8_lossy (drop (invalid_part s) s)))"
  by pat_completeness auto
termination
  by (relation "measure length") (auto dest!: utf8_head_pos simp: invalid_part_pos)

declare from_utf8_lossy.simps [simp del]

text \<open>\<^verbatim>\<open>str::split_whitespace\<close>: the next word and what follows it.\<close>

fun take_word :: "string \<Rightarrow> string \<times> string" where
  "take_word [] = ([], [])"
| "take_word (c # s) =
     (if \<exists>w\<in>set whitespace_chars. starts_with w (c # s) then ([], c # s)
      else case take_word s of (word, rest) \<Rightarrow> (c # word, rest))"

definition next_word :: "string \<Rightarrow> (string \<times> string) option" where
  "next_word s = (case take_word (trim_start s) of (word, rest) \<Rightarrow> if word = [] then None else Some (word, rest))"

section \<open>Connections\<close>

record peer =
  pe_in :: socket
  pe_out :: bytes
  pe_room :: "nat option"

definition write_all :: "bytes \<Rightarrow> peer \<Rightarrow> (io_kind + unit) \<times> peer" where
  "write_all d p = (case pe_room p of
      None \<Rightarrow> (Inr (), p\<lparr>pe_out := pe_out p @ d\<rparr>)
    | Some room \<Rightarrow>
        (if room < length d then Inl BrokenPipe else Inr (),
         p\<lparr>pe_out := pe_out p @ take room d, pe_room := Some (room - length d)\<rparr>))"

definition MARKER :: bytes where
  "MARKER = ''lfp-pipe-native-smoke'' @ [CHR 0x0A]"

definition MAX_TRANSFER_BYTES :: nat where
  "MAX_TRANSFER_BYTES = 512 * 1024 * 1024"

text \<open>The response head the three answers write.\<close>

definition response_head :: "string \<Rightarrow> nat \<Rightarrow> bytes" where
  "response_head content_type n =
     ''HTTP/1.1 200 OK'' @ CRLF @ ''Content-Type: '' @ content_type @ CRLF @ ''Content-Length: '' @ show_nat n @ CRLF @
     ''Connection: close'' @ CRLF @ CRLF"

definition transfer_size :: "string \<Rightarrow> string \<Rightarrow> nat option" where
  "transfer_size path p =
     opt_filter (\<lambda>n. n \<le> MAX_TRANSFER_BYTES) (Option.bind (strip_prefix p path) parse_usize)"

function send_chunks :: "nat \<Rightarrow> peer \<Rightarrow> (io_kind + unit) \<times> peer" where
  "send_chunks remaining p =
     (if remaining = 0 then (Inr (), p)
      else
        let size = min remaining (64 * 1024) in
        (case write_all (replicate size (CHR 0x00)) p of
           (Inl e, p) \<Rightarrow> (Inl e, p)
         | (Inr _, p) \<Rightarrow> send_chunks (remaining - size) p))"
  by pat_completeness auto
termination by (relation "measure fst") auto

declare send_chunks.simps [simp del]

definition send_download :: "nat \<Rightarrow> peer \<Rightarrow> (io_kind + unit) \<times> peer" where
  "send_download n p = (case write_all (response_head ''application/octet-stream'' n) p of
      (Inl e, p) \<Rightarrow> (Inl e, p)
    | (Inr _, p) \<Rightarrow> send_chunks n p)"

definition content_length_of :: "bytes \<Rightarrow> nat" where
  "content_length_of head =
     min (unwrap_or 0 (find_map (\<lambda>line. case split_once (CHR '':'') line of
         None \<Rightarrow> None
       | Some (name, v) \<Rightarrow>
           if eq_ignore_ascii_case name ''content-length'' then parse_usize (trim v) else None)
       (str_lines (from_utf8_lossy head)))) MAX_TRANSFER_BYTES"

function receive_body :: "nat \<Rightarrow> nat \<Rightarrow> peer \<Rightarrow> (io_kind + nat) poll \<times> peer" where
  "receive_body content_length received p =
     (if received < content_length then
        let chunk_size = min (content_length - received) (64 * 1024) in
        (case sock_read chunk_size (pe_in p) of
           Blocked \<Rightarrow> (Pending, p)
         | Failed k \<Rightarrow> (Ready (Inl k), p)
         | Got d es \<Rightarrow>
             let p = p\<lparr>pe_in := es\<rparr> in
             if d = [] then (Ready (Inr received), p)
             else receive_body content_length (received + length d) p)
      else (Ready (Inr received), p))"
  by pat_completeness auto
termination
  by (relation "measure (\<lambda>(n, r, _). n - r)") (auto intro!: diff_less_mono2)

declare receive_body.simps [simp del]

definition receive_upload :: "bytes \<Rightarrow> peer \<Rightarrow> (io_kind + unit) poll \<times> peer" where
  "receive_upload initial p =
     (let header_end = unwrap_or (length initial) (map_option (\<lambda>i. i + 4) (find_window CRLF2 initial));
          content_length = content_length_of (take header_end initial);
          received = min (length initial - header_end) content_length in
      case receive_body content_length received p of
        (Pending, p) \<Rightarrow> (Pending, p)
      | (Ready (Inl k), p) \<Rightarrow> (Ready (Inl k), p)
      | (Ready (Inr received), p) \<Rightarrow>
          let body = show_nat received @ [CHR 0x0A] in
          (case write_all (response_head ''text/plain'' (length body) @ body) p of (r, p) \<Rightarrow> (Ready r, p)))"

definition backend_serve :: "peer \<Rightarrow> (io_kind + unit) poll \<times> peer" where
  "backend_serve p = (case sock_read 8192 (pe_in p) of
      Blocked \<Rightarrow> (Pending, p)
    | Failed k \<Rightarrow> (Ready (Inl k), p)
    | Got headers es \<Rightarrow>
        let p = p\<lparr>pe_in := es\<rparr>;
            request_line = from_utf8_lossy (hd (split_on (CHR 0x0A) headers));
            (meth, rest) = unwrap_or ([], []) (next_word request_line);
            path = unwrap_or ''/'' (map_option fst (next_word rest)) in
        (case (if meth = ''GET'' then transfer_size path ''/download/'' else None) of
           Some n \<Rightarrow> (case send_download n p of (r, p) \<Rightarrow> (Ready r, p))
         | None \<Rightarrow>
             if meth = ''POST'' \<and> path = ''/upload'' then receive_upload headers p
             else (case write_all (response_head ''text/plain'' (length MARKER)) p of
                 (Inl e, p) \<Rightarrow> (Ready (Inl e), p)
               | (Inr _, p) \<Rightarrow> (case write_all MARKER p of (r, p) \<Rightarrow> (Ready r, p)))))"

text \<open>Every accepted connection is served by a thread of its own; failing to accept one is only
  logged.\<close>

definition serve_incoming :: "(io_kind + peer) list \<Rightarrow> ((io_kind + unit) poll \<times> peer) list" where
  "serve_incoming incoming =
     filter_map (\<lambda>stream. case stream of Inr p \<Rightarrow> Some (backend_serve p) | Inl _ \<Rightarrow> None) incoming"

definition backend_main ::
    "(string \<Rightarrow> io_kind + unit) \<Rightarrow> string list \<Rightarrow> (io_kind + peer) list \<Rightarrow>
     io_kind + ((io_kind + unit) poll \<times> peer) list" where
  "backend_main bind_to args incoming =
     (let listen = (case drop 1 args of a # _ \<Rightarrow> a | [] \<Rightarrow> ''127.0.0.1:0'') in
      and_then (bind_to listen) (\<lambda>_. Inr (serve_incoming incoming)))"

section \<open>Lemmas\<close>

text \<open>Writing in pieces is writing at once, also when the peer stops accepting on the way.\<close>

lemma write_all_append:
  "write_all (a @ b) p = (case write_all a p of (Inl e, p) \<Rightarrow> (Inl e, p) | (Inr _, p) \<Rightarrow> write_all b p)"
  by (cases "pe_room p") (auto simp: write_all_def)

lemma write_all_Nil: "write_all [] p = (Inr (), p)"
  by (cases "pe_room p") (simp_all add: write_all_def)

lemma send_chunks_write: "send_chunks n p = write_all (replicate n (CHR 0x00)) p"
proof (induction n p rule: send_chunks.induct)
  case (1 remaining p)
  show ?case
  proof (cases "remaining = 0")
    case True
    then show ?thesis by (simp add: send_chunks.simps write_all_Nil)
  next
    case False
    let ?size = "min remaining (64 * 1024)"
    have "replicate remaining (CHR 0x00) = replicate ?size (CHR 0x00) @ replicate (remaining - ?size) (CHR 0x00)"
      by (simp flip: replicate_add)
    with 1 [OF False refl] False show ?thesis
      by (simp add: send_chunks.simps [of remaining] write_all_append Let_def split: prod.splits sum.splits)
  qed
qed

lemma send_download_write:
  "send_download n p = write_all (response_head ''application/octet-stream'' n @ replicate n (CHR 0x00)) p"
  unfolding send_download_def write_all_append send_chunks_write ..

lemma sock_read_available:
  "0 < n \<Longrightarrow> stream_bytes es \<noteq> [] \<Longrightarrow> \<exists>d es'. sock_read n es = Got d es' \<and> d \<noteq> []"
  by (induction n es rule: sock_read.induct) auto

lemma receive_body_counts:
  assumes "received \<le> content_length"
    "closes (pe_in p) \<or> content_length - received \<le> length (stream_bytes (pe_in p))"
  shows "\<exists>es. receive_body content_length received p =
    (Ready (Inr (min content_length (received + length (stream_bytes (pe_in p))))), p\<lparr>pe_in := es\<rparr>)"
  using assms
proof (induction content_length received p rule: receive_body.induct)
  case (1 content_length received p)
  show ?case
  proof (cases "received < content_length")
    case False
    then show ?thesis using 1 by (intro exI [of _ "pe_in p"]) (simp add: receive_body.simps)
  next
    case True
    let ?n = "min (content_length - received) (64 * 1024)"
    have n: "0 < ?n" using True by simp
    obtain d es where r: "sock_read ?n (pe_in p) = Got d es" "d = [] \<longleftrightarrow> stream_bytes (pe_in p) = []"
      using 1(3) sock_read_closed [OF _ n] sock_read_available [OF n] True
      by (cases "stream_bytes (pe_in p) = []") fastforce+
    note s = sock_read_Got [OF r(1)]
    show ?thesis
    proof (cases "d = []")
      case True
      then show ?thesis using r \<open>received < content_length\<close> by (simp add: receive_body.simps [of content_length]) blast
    next
      case False
      have "\<exists>es'. receive_body content_length (received + length d) (p\<lparr>pe_in := es\<rparr>) =
        (Ready (Inr (min content_length (received + length d + length (stream_bytes es)))), p\<lparr>pe_in := es'\<rparr>)"
        using 1(1) [OF True refl r(1) refl False] 1(3) s True by auto
      then show ?thesis
        using r True False s by (simp add: receive_body.simps [of content_length received p] add.assoc)
    qed
  qed
qed

lemma from_utf8_lossy_ascii: "is_ascii s \<Longrightarrow> from_utf8_lossy s = s"
proof (induction s)
  case Nil
  show ?case by (simp add: from_utf8_lossy.simps)
next
  case (Cons c s)
  then have "utf8_head (c # s) = Some 1" by (auto simp: utf8_head_def in_range_def)
  with Cons show ?case by (simp add: from_utf8_lossy.simps [of "c # s"])
qed

lemma first_line_ascii:
  "is_ascii l \<Longrightarrow> CHR 0x0A \<notin> set l \<Longrightarrow> from_utf8_lossy (hd (split_on (CHR 0x0A) (l @ CHR 0x0A # rest))) = l"
  by (simp add: split_on_append_sep from_utf8_lossy_ascii)

lemma decimal_value_append:
  "decimal_value n (s @ t) = Option.bind (decimal_value n s) (\<lambda>m. decimal_value m t)"
  by (induction s arbitrary: n) simp_all

lemma digit_char_value: "d < 10 \<Longrightarrow> is_ascii_digit (digit_char d) \<and> byte_val (digit_char d) = 48 + d"
  by (simp add: digit_char_def is_ascii_digit_def byte_val_char_of)

lemma decimal_value_show: "decimal_value 0 (show_nat n) = Some n"
proof (induction n rule: show_nat.induct)
  case (1 n)
  then show ?case
    by (cases "n < 10") (simp_all add: show_nat.simps [of n] decimal_value_append digit_char_value)
qed

lemma show_nat_bytes: "c \<in> set (show_nat n) \<Longrightarrow> 48 \<le> byte_val c \<and> byte_val c \<le> 57"
proof (induction n rule: show_nat.induct)
  case (1 n)
  then show ?case
    using digit_char_value [of n] digit_char_value [of "n mod 10"]
    by (cases "n < 10") (auto simp: show_nat.simps [of n])
qed

lemma parse_usize_show: "n < 2 ^ 64 \<Longrightarrow> parse_usize (show_nat n) = Some n"
proof -
  assume n: "n < 2 ^ 64"
  have "strip_prefix ''+'' (show_nat n) = None"
    using show_nat_bytes [of "CHR ''+''" n] by (cases "show_nat n") (auto simp: byte_val_def)
  moreover have "show_nat n \<noteq> []" by (simp add: show_nat.simps [of n])
  ultimately show ?thesis using n by (simp add: parse_usize_def decimal_value_show)
qed

text \<open>A word of printable ASCII characters ends at the first blank behind it.\<close>

lemma take_word_printable:
  "(\<And>c. c \<in> set word \<Longrightarrow> in_range 0x21 0x7E c) \<Longrightarrow> take_word (word @ CHR '' '' # rest) = (word, CHR '' '' # rest)"
proof (induction word)
  case Nil
  have "[CHR '' ''] \<in> set whitespace_chars" by (simp add: whitespace_chars_def)
  moreover have "starts_with [CHR '' ''] (CHR '' '' # rest)" by simp
  ultimately have "\<exists>w\<in>set whitespace_chars. starts_with w (CHR '' '' # rest)" by blast
  then show ?case by simp
next
  case (Cons c word)
  have "\<not> starts_with w (c # word @ CHR '' '' # rest)" if "w \<in> set whitespace_chars" for w
    using whitespace_head [OF that] whitespace_nonempty [OF that] Cons.prems [of c]
    by (cases w) (auto simp: starts_with_iff)
  with Cons show ?case by auto
qed

lemma next_word_printable:
  assumes "word \<noteq> []" "\<And>c. c \<in> set word \<Longrightarrow> in_range 0x21 0x7E c"
  shows "next_word (word @ '' '' @ rest) = Some (word, '' '' @ rest)"
    "next_word ('' '' @ word @ '' '' @ rest) = Some (word, '' '' @ rest)"
proof -
  obtain c w where w: "word = c # w" using assms(1) by (cases word) auto
  have id: "trim_start (word @ CHR '' '' # rest) = word @ CHR '' '' # rest"
    using trim_start_id assms(2) by (simp add: w)
  then show one: "next_word (word @ '' '' @ rest) = Some (word, '' '' @ rest)"
    using take_word_printable assms by (simp add: next_word_def)
  have "trim_start (CHR '' '' # word @ CHR '' '' # rest) = trim_start (word @ CHR '' '' # rest)"
    by (simp add: trim_start.simps [of "CHR '' '' # _"] whitespace_chars_def)
  with one show "next_word ('' '' @ word @ '' '' @ rest) = Some (word, '' '' @ rest)"
    by (simp add: next_word_def)
qed

section \<open>Properties\<close>

text \<open>A download is what was asked for. A request for \<open>n\<close> bytes, up to the limit, is answered with a
  response that announces \<open>n\<close> bytes and \<open>n\<close> zero bytes after it, however many chunks that takes;
  when the peer stops accepting on the way, it has received a prefix of that response and the
  request fails.\<close>

theorem download_exact:
  assumes "n \<le> MAX_TRANSFER_BYTES" "request = ''GET /download/'' @ show_nat n @ '' HTTP/1.1'' @ CRLF @ rest"
    "length request \<le> 8192" "pe_in p = Data request # es"
  shows "\<exists>p'. backend_serve p = (Ready (if \<exists>room. pe_room p = Some room \<and>
        room < length (response_head ''application/octet-stream'' n) + n then Inl BrokenPipe else Inr ()), p') \<and>
    pe_out p' = pe_out p @ (let response = response_head ''application/octet-stream'' n @ replicate n (CHR 0x00) in
      case pe_room p of None \<Rightarrow> response | Some room \<Rightarrow> take room response)"
proof -
  let ?path = "''/download/'' @ show_nat n"
  let ?line = "''GET'' @ '' '' @ ?path @ '' '' @ ''HTTP/1.1'' @ [CHR 0x0D]"
  have read: "sock_read 8192 (pe_in p) = Got request es" using assms(2-4) by simp
  have word: "in_range 0x21 0x7E c" if "c \<in> set ?path \<union> set ''GET''" for c
    using that show_nat_bytes [of c n]
    by (cases "c \<in> set (show_nat n)") (simp_all add: in_range_def, auto simp: byte_val_def)
  have "is_ascii ''GET''" "is_ascii '' ''" "is_ascii ''/download/''" "is_ascii ''HTTP/1.1''" "is_ascii [CHR 0x0D]"
    by code_simp+
  moreover have "is_ascii (show_nat n)" using show_nat_bytes [of _ n] by fastforce
  ultimately have "is_ascii ?line" by (simp only: set_append ball_Un)
  moreover have "CHR 0x0A \<notin> set ?line" using show_nat_bytes [of "CHR 0x0A" n] by (auto simp: byte_val_def)
  moreover have "request = ?line @ CHR 0x0A # rest" by (simp add: assms(2))
  ultimately have line: "from_utf8_lossy (hd (split_on (CHR 0x0A) request)) = ?line"
    by (metis first_line_ascii)
  have words: "next_word ?line = Some (''GET'', '' '' @ ?path @ '' '' @ ''HTTP/1.1'' @ [CHR 0x0D])"
    "next_word ('' '' @ ?path @ '' '' @ ''HTTP/1.1'' @ [CHR 0x0D]) = Some (?path, '' '' @ ''HTTP/1.1'' @ [CHR 0x0D])"
    by (rule next_word_printable(1), simp, rule word, erule UnI2)
      (rule next_word_printable(2), simp, rule word, erule UnI1)
  have "transfer_size ?path ''/download/'' = Some n"
    using assms(1) by (simp only: transfer_size_def strip_prefix_append) (simp add: parse_usize_show MAX_TRANSFER_BYTES_def)
  then have "backend_serve p = (case send_download n (p\<lparr>pe_in := es\<rparr>) of (r, p) \<Rightarrow> (Ready r, p))"
    by (simp only: backend_serve_def read line words Let_def read_result.case unwrap_or_simps prod.case if_True option.case
        option.map fst_conv refl)
  then show ?thesis
    by (cases "pe_room p") (auto simp: send_download_write write_all_def Let_def)
qed

text \<open>An upload is counted. Whatever pieces the body arrives in, the answer names the number of
  bytes received: all that were announced, or all that came when the peer closed before
  that; the loop ends, and nothing is read beyond the announced length.\<close>

theorem upload_counted:
  assumes "find_window CRLF2 initial = Some i" "pe_room p = None"
    and "content_length = content_length_of (take (i + 4) initial)"
    and "available = length (drop (i + 4) initial) + length (stream_bytes (pe_in p))"
    and "closes (pe_in p) \<or> content_length \<le> available"
  shows "\<exists>p'. receive_upload initial p = (Ready (Inr ()), p') \<and>
    (let body = show_nat (min content_length available) @ [CHR 0x0A] in
     pe_out p' = pe_out p @ response_head ''text/plain'' (length body) @ body)"
proof -
  let ?received = "min (length initial - (i + 4)) content_length"
  have "closes (pe_in p) \<or> content_length - ?received \<le> length (stream_bytes (pe_in p))"
    using assms(4,5) by (auto simp: min_def)
  then obtain es where "receive_body content_length ?received p =
    (Ready (Inr (min content_length (?received + length (stream_bytes (pe_in p))))), p\<lparr>pe_in := es\<rparr>)"
    using receive_body_counts [of ?received content_length p] by auto
  moreover have "min content_length (?received + length (stream_bytes (pe_in p))) = min content_length available"
    using assms(4) by auto
  ultimately show ?thesis
    using assms by (simp add: receive_upload_def Let_def write_all_def)
qed

definition example_peer :: "net_event list \<Rightarrow> peer" where
  "example_peer es = \<lparr>pe_in = es, pe_out = [], pe_room = None\<rparr>"

theorem download_exact_witness:
  "\<exists>p'. backend_serve (example_peer [Data (''GET /download/'' @ show_nat 3 @ '' HTTP/1.1'' @ CRLF @ [])]) = (Ready (Inr ()), p') \<and>
     pe_out p' = response_head ''application/octet-stream'' 3 @ replicate 3 (CHR 0x00)"
proof -
  have "show_nat 3 = ''3''" by code_simp
  then show ?thesis
    using download_exact [of 3 _ "[]" "example_peer [Data (''GET /download/'' @ show_nat 3 @ '' HTTP/1.1'' @ CRLF @ [])]" "[]", OF _ refl]
    by (simp add: MAX_TRANSFER_BYTES_def example_peer_def Let_def)
qed

theorem upload_counted_witness:
  "\<exists>p'. receive_upload ((''POST /upload'' @ CRLF @ ''Content-Length: 5'' @ CRLF2) @ ''ab'')
       (example_peer [Data ''c'', Data ''de'', Data ''fg'']) = (Ready (Inr ()), p') \<and>
     pe_out p' = response_head ''text/plain'' 2 @ ''5'' @ [CHR 0x0A]"
proof -
  let ?head = "''POST /upload'' @ CRLF @ ''Content-Length: 5'' @ CRLF2"
  have i: "find_window CRLF2 (?head @ ''ab'') = Some 31" by code_simp
  have s: "show_nat 5 = ''5''" by code_simp
  have "is_ascii (take (31 + 4) (?head @ ''ab''))" by code_simp
  then have u: "from_utf8_lossy (take (31 + 4) (?head @ ''ab'')) = take (31 + 4) (?head @ ''ab'')"
    by (rule from_utf8_lossy_ascii)
  have l: "str_lines (take (31 + 4) (?head @ ''ab'')) = [''POST /upload'', ''Content-Length: 5'', []]" by code_simp
  have o: "split_once (CHR '':'') ''POST /upload'' = None"
    "split_once (CHR '':'') ''Content-Length: 5'' = Some (''Content-Length'', '' 5'')"
    "eq_ignore_ascii_case ''Content-Length'' ''content-length''" "trim '' 5'' = ''5''"
    by code_simp+
  have "parse_usize ''5'' = Some 5" using parse_usize_show [of 5] s by simp
  then have c: "content_length_of (take (31 + 4) (?head @ ''ab'')) = 5"
    unfolding content_length_of_def u l by (simp add: o MAX_TRANSFER_BYTES_def del: split_once_Some split_once_None)
  have a: "length (drop (31 + 4) (?head @ ''ab'')) + length (stream_bytes (pe_in (example_peer [Data ''c'', Data ''de'', Data ''fg'']))) = 7"
    by code_simp
  show ?thesis
    using upload_counted [OF i, of "example_peer [Data ''c'', Data ''de'', Data ''fg'']", OF _ c [symmetric] a [symmetric]] s
    by (simp add: example_peer_def numeral_2_eq_2 del: append_Cons append_assoc)
qed

end
