(* ===== verification/Processes.thy ===== *)
theory Processes
  imports Desktop Ingress_Pairing Nats
begin

text \<open>
  The processes the components are put together in: the ingress (\<^verbatim>\<open>run\<close> and \<^verbatim>\<open>watch_nats\<close> of
  \<^verbatim>\<open>ingress/src/lib.rs\<close>, \<^verbatim>\<open>ingress/src/main.rs\<close>), the desktop client (\<^verbatim>\<open>run\<close> and the vector path of
  the icon in \<^verbatim>\<open>client/src/desktop.rs\<close>), the client's \<^verbatim>\<open>main\<close> with its desktop branch, and the poll
  timer of \<^verbatim>\<open>client/src/config_source.rs\<close>. Sockets, threads and the toolkit are parameters: the
  outcome of each call.
\<close>

section \<open>Ingress\<close>

record ingress_net =
  in_read :: "string \<Rightarrow> bytes res"
  in_parse_url :: "string \<Rightarrow> parsed_url option"
  in_connect :: "connect_options \<Rightarrow> string \<Rightarrow> unit res"
  in_bind :: "string \<Rightarrow> unit res"

text \<open>\<^verbatim>\<open>run\<close> up to the tasks it starts.\<close>

definition ingress_start :: "ingress_net \<Rightarrow> ingress_config \<Rightarrow> ingress_state res" where
  "ingress_start net config =
     and_then (ingress_checks config) (\<lambda>_.
     and_then (add_context ''failed to connect to NATS''
       (connect_nats (in_read net) (in_parse_url net) (in_connect net) (ic_nats_url config) (ic_nats_token_file config) None)) (\<lambda>_.
     and_then (add_context (''failed to bind public listener '' @ ic_public_listen config) (in_bind net (ic_public_listen config))) (\<lambda>_.
     and_then (add_context (''failed to bind data listener '' @ ic_data_listen config) (in_bind net (ic_data_listen config))) (\<lambda>_.
       app_state config))))"

text \<open>The checks of the watchdog, one interval after the other; \<open>None\<close> while it runs.\<close>

fun watch_nats :: "nats_env list \<Rightarrow> unit res option" where
  "watch_nats [] = None"
| "watch_nats (nats # later) =
     (case add_context ''NATS watchdog could not restore the connection'' (ensure_nats_ready nats) of
        Inl e \<Rightarrow> Some (Inl e)
      | Inr _ \<Rightarrow> watch_nats later)"

datatype ingress_task = Public_task | Data_task | Nats_task

text \<open>The \<^verbatim>\<open>select!\<close> of \<^verbatim>\<open>run\<close> on the task that ends first: the tasks it aborts and its result. The outer
  result of a task is that of joining it.\<close>

definition ingress_select :: "ingress_task \<Rightarrow> unit res res \<Rightarrow> ingress_task set \<times> unit res" where
  "ingress_select finished result =
     (case finished of
        Public_task \<Rightarrow> {Data_task, Nats_task}
      | Data_task \<Rightarrow> {Public_task, Nats_task}
      | Nats_task \<Rightarrow> {Public_task, Data_task},
      and_then result (\<lambda>r. r))"

definition ingress_main ::
    "runtime_config res \<Rightarrow> (string \<Rightarrow> unit res) \<Rightarrow> (ingress_config \<Rightarrow> unit res) \<Rightarrow> unit res" where
  "ingress_main parsed init run =
     and_then parsed (\<lambda>runtime.
     and_then (init (rn_log_filter runtime)) (\<lambda>_. run (rn_config runtime)))"

section \<open>Client\<close>

text \<open>\<^verbatim>\<open>poll_updates\<close> over the outcomes of its sends: the updates that were sent, and whether it has
  returned because nobody listens any more.\<close>

fun poll_updates :: "bool list \<Rightarrow> nat \<times> bool" where
  "poll_updates [] = (0, False)"
| "poll_updates (sent # later) =
     (if sent then (case poll_updates later of (n, returned) \<Rightarrow> (Suc n, returned)) else (0, True))"

text \<open>\<^verbatim>\<open>push_updates\<close>, one connection of the event stream after the other: the updates it sends in all,
  and its sleeps.\<close>

fun push_updates ::
    "(bytes \<Rightarrow> string res list) \<Rightarrow> central_client_bootstrap \<Rightarrow> string \<Rightarrow> central_env list \<Rightarrow> nat \<times> nat list" where
  "push_updates eventsource bootstrap applied_revision [] = (0, [])"
| "push_updates eventsource bootstrap applied_revision (env # later) =
     (case push_round env eventsource bootstrap applied_revision of (sent, _) \<Rightarrow>
      case push_updates eventsource bootstrap applied_revision later of (n, sleeps) \<Rightarrow>
        (sent + n, seconds 3 # sleeps))"

record run_env =
  ru_event_loop :: "unit res"
  ru_spawn_thread :: "unit res"
  ru_watcher :: "unit res"
  ru_watch :: "string \<Rightarrow> unit res"
  ru_canonicalize :: "string \<Rightarrow> string res"
  ru_current_dir :: "string res"
  ru_events :: "(tray_env \<times> user_event) list"
  ru_run_app :: "unit res"

text \<open>What \<^verbatim>\<open>run\<close> has done when it returns: whether the worker was started, the directory it watches,
  and the tray after the events of the loop.\<close>

record desktop_trace =
  dt_worker :: bool
  dt_watching :: "string option"
  dt_tray :: "tray_application option"

definition watched_directory :: "run_env \<Rightarrow> string \<Rightarrow> string" where
  "watched_directory ru config_path =
     unwrap_or ''.'' (path_parent (absolute_path (ru_canonicalize ru) (ru_current_dir ru) config_path))"

definition start_watcher :: "run_env \<Rightarrow> bool \<Rightarrow> string \<Rightarrow> string option res" where
  "start_watcher ru managed config_path =
     (if managed then Inr None
      else
        and_then (add_context ''initialize config watcher'' (ru_watcher ru)) (\<lambda>_.
        and_then (add_context ''watch client config'' (ru_watch ru (watched_directory ru config_path))) (\<lambda>_.
          Inr (Some (watched_directory ru config_path)))))"

definition desktop_run ::
    "run_env \<Rightarrow> tray_env \<Rightarrow> client_config list \<Rightarrow> string \<Rightarrow> central_client_bootstrap option \<Rightarrow> user_files \<Rightarrow>
     unit res \<times> desktop_trace \<times> user_files" where
  "desktop_run ru te configs config_path central files =
     (let idle = \<lparr>dt_worker = False, dt_watching = None, dt_tray = None\<rparr> in
      case add_context ''initialize desktop event loop'' (ru_event_loop ru) of
        Inl e \<Rightarrow> (Inl e, idle, files)
      | Inr _ \<Rightarrow> (case load_or_create (te_desktop te) files of
          (Inl e, files) \<Rightarrow> (Inl e, idle, files)
        | (Inr settings, files) \<Rightarrow>
            let managed = managed_central settings configs central in
            (case add_context ''start tunnel runtime thread'' (ru_spawn_thread ru) of
               Inl e \<Rightarrow> (Inl e, idle, files)
             | Inr _ \<Rightarrow>
                 let trace = idle\<lparr>dt_worker := True\<rparr> in
                 (case start_watcher ru managed config_path of
                    Inl e \<Rightarrow> (Inl e, trace, files)
                  | Inr watching \<Rightarrow>
                      let trace = trace\<lparr>dt_watching := watching\<rparr> in
                      (case new_tray te files config_path (of_nat (length configs)) managed of
                         Inl e \<Rightarrow> (Inl e, trace, files)
                       | Inr app \<Rightarrow>
                           let app = fold (\<lambda>(env, event). user_event env event) (ru_events ru) app in
                           (add_context ''run desktop event loop'' (ru_run_app ru),
                            trace\<lparr>dt_tray := Some app\<rparr>, ta_files app))))))"

text \<open>\<^verbatim>\<open>main\<close> of the client with its desktop branch: what it starts.\<close>

datatype client_process = Tray_process "client_config list" string "central_client_bootstrap option"
  | Headless client_start

definition client_process_main ::
    "target_os \<Rightarrow> environment \<Rightarrow> bool \<Rightarrow> client_runtime_config res \<Rightarrow> unit res \<Rightarrow> client_process res" where
  "client_process_main os env desktop_feature parsed logging =
     and_then parsed (\<lambda>runtime.
     and_then logging (\<lambda>_.
     if desktop_feature \<and> should_run os env (rc_desktop_mode runtime) then
       Inr (Tray_process (rc_config runtime) (rc_config_path runtime) (rc_central runtime))
     else and_then (client_main (Inr runtime) (Inr ())) (\<lambda>start. Inr (Headless start))))"

section \<open>The path of the icon\<close>

datatype path_command = Move_to nat nat | Line_to nat nat | Cubic_to nat nat nat nat nat nat | Close_path

definition switchback_path :: "path_command list" where
  "switchback_path =
     [Move_to 18 20, Line_to 74 20, Cubic_to 98 20 110 32 110 54, Cubic_to 110 76 98 88 74 88,
      Line_to 55 88, Cubic_to 47 88 43 92 43 100, Line_to 43 110, Line_to 21 110, Line_to 21 98,
      Cubic_to 21 77 33 66 55 66, Line_to 74 66, Cubic_to 83 66 88 62 88 54, Cubic_to 88 50 83 42 74 42,
      Line_to 18 42, Close_path,
      Move_to 12 15, Line_to 24 15, Line_to 24 47, Line_to 12 47, Close_path,
      Move_to 16 100, Line_to 48 100, Line_to 48 112, Line_to 16 112, Close_path]"

fun command_points :: "path_command \<Rightarrow> (nat \<times> nat) list" where
  "command_points (Move_to x y) = [(x, y)]"
| "command_points (Line_to x y) = [(x, y)]"
| "command_points (Cubic_to a b c d x y) = [(a, b), (c, d), (x, y)]"
| "command_points Close_path = []"

text \<open>\<^verbatim>\<open>Path::bounds\<close>: the smallest rectangle around the points.\<close>

definition path_bounds :: "path_command list \<Rightarrow> (nat \<times> nat) \<times> (nat \<times> nat)" where
  "path_bounds path =
     (let xs = map fst (concat (map command_points path)); ys = map snd (concat (map command_points path)) in
      ((fold min xs (hd xs), fold min ys (hd ys)), (fold max xs 0, fold max ys 0)))"

section \<open>Lemmas\<close>

text \<open>The icon fits the view box of 128 by 128 units that is scaled to 32 pixels.\<close>

lemma switchback_bounds: "path_bounds switchback_path = ((12, 15), (110, 112))"
  by code_simp

lemma ingress_start_init: "ingress_start net config = Inr s \<Longrightarrow> ingress_init config = Inr s"
  by (auto simp: ingress_start_def ingress_init_def res_simps)

text \<open>The watchdog returns exactly at the first check that cannot restore the connection.\<close>

lemma watch_nats_returns:
  "watch_nats checks = (case dropWhile (\<lambda>n. \<not> isl (ensure_nats_ready n)) checks of
      [] \<Rightarrow> None
    | n # _ \<Rightarrow> Some (Inl (Msg ''NATS watchdog could not restore the connection'' # projl (ensure_nats_ready n))))"
proof (induction checks)
  case Nil
  show ?case by simp
next
  case (Cons n checks)
  then show ?case by (cases "ensure_nats_ready n") simp_all
qed

lemma poll_updates_counts:
  "poll_updates sends = (length (takeWhile (\<lambda>s. s) sends), False \<in> set sends)"
  by (induction sends) auto

text \<open>A lost event stream is opened again after three seconds, however it ended.\<close>

lemma push_updates_reconnects:
  "snd (push_updates eventsource bootstrap applied_revision envs) = replicate (length envs) (seconds 3)"
  by (induction envs) (auto split: prod.split)

section \<open>Properties\<close>

text \<open>The life of the ingress process. It starts only with positive timeouts, a NATS connection and both
  listeners; its watchdog ends exactly at the first check at which the connection cannot be
  restored, and then the process stops accepting and ends with that error.\<close>

theorem ingress_lifetime:
  assumes "ingress_start net config = Inr s" "watch_nats checks = Some r"
  shows "0 < ic_ingress_handshake_timeout_ms config \<and> 0 < ic_callback_handshake_timeout_ms config \<and>
    in_bind net (ic_public_listen config) = Inr () \<and> in_bind net (ic_data_listen config) = Inr () \<and>
    (\<exists>before n later e. checks = before @ n # later \<and> list_all (\<lambda>m. ensure_nats_ready m = Inr ()) before \<and>
       ensure_nats_ready n = Inl e \<and> r = Inl (Msg ''NATS watchdog could not restore the connection'' # e)) \<and>
    ingress_select Nats_task (Inr r) = ({Public_task, Data_task}, r)"
proof -
  obtain n later where n: "dropWhile (\<lambda>n. \<not> isl (ensure_nats_ready n)) checks = n # later"
    and r: "r = Inl (Msg ''NATS watchdog could not restore the connection'' # projl (ensure_nats_ready n))"
    using assms(2) by (auto simp: watch_nats_returns split: list.splits)
  then obtain e where "ensure_nats_ready n = Inl e"
    using hd_dropWhile [of "\<lambda>n. \<not> isl (ensure_nats_ready n)" checks] by (auto simp: isl_def)
  moreover have "checks = takeWhile (\<lambda>n. \<not> isl (ensure_nats_ready n)) checks @ n # later"
    using n by (metis takeWhile_dropWhile_id)
  moreover have "list_all (\<lambda>m. ensure_nats_ready m = Inr ()) (takeWhile (\<lambda>n. \<not> isl (ensure_nats_ready n)) checks)"
    by (auto simp: list_all_iff dest!: set_takeWhileD) (metis isl_def sum.exhaust old.unit.exhaust)
  ultimately show ?thesis
    using assms(1) r by (auto simp: ingress_start_def ingress_checks_def ingress_select_def res_simps)
qed

theorem ingress_lifetime_witness:
  "\<exists>net config s nats r. ingress_start net config = Inr s \<and> watch_nats [nats] = Some r \<and>
     ingress_select Nats_task (Inr r) = ({Public_task, Data_task}, r)"
proof -
  let ?net = "\<lparr>in_read = (\<lambda>_. Inr []), in_parse_url = (\<lambda>_. Some \<lparr>pu_scheme = ''nats'', pu_host = Some ''h'', pu_port = Some 4222,
    pu_username = [], pu_password = None, pu_public = Inl []\<rparr>), in_connect = (\<lambda>_ _. Inr ()), in_bind = (\<lambda>_. Inr ())\<rparr>"
  let ?lost = "example_nats\<lparr>ne_flush := Inl [], ne_reconnect := Inl []\<rparr>"
  obtain s where s: "ingress_start ?net example_ingress = Inr s"
    by (simp add: ingress_start_def ingress_checks_def app_state_def capacity_new_def connect_nats_def connect_nats_with_token_def connect_url_def
        example_ingress_def default_ingress_handshake_timeout_ms_def default_callback_handshake_timeout_ms_def)
  obtain r where w: "watch_nats [?lost] = Some r" by (simp add: ensure_nats_ready_def)
  from ingress_lifetime [OF s w] s w show ?thesis by blast
qed

text \<open>The desktop process. It returns without an error only after its worker was started and its
  tray shown; it watches the directory of the configuration file exactly when the routes are not
  managed centrally, so that a managed device neither watches that file nor restarts on a
  report of a change; and whatever happened, the status it shows is one bounded line.\<close>

theorem desktop_run_sound:
  assumes "desktop_run ru te configs config_path central files = (r, trace, files')"
  shows "(r = Inr () \<longrightarrow> dt_worker trace \<and> dt_tray trace \<noteq> None) \<and>
    (\<forall>app. dt_tray trace = Some app \<longrightarrow> tray_ok app \<and> (dt_watching trace = None \<longleftrightarrow> ta_managed_central app) \<and>
       (central \<noteq> None \<longrightarrow> ta_managed_central app) \<and>
       (ta_managed_central app \<longrightarrow> user_event env Config_changed app = app)) \<and>
    (\<forall>dir. dt_watching trace = Some dir \<longrightarrow> central = None \<and> dir = watched_directory ru config_path \<and> ru_watch ru dir = Inr ())"
proof -
  let ?idle = "\<lparr>dt_worker = False, dt_watching = None, dt_tray = None\<rparr>"
  have watch: "case watching of None \<Rightarrow> m | Some dir \<Rightarrow> \<not> m \<and> dir = watched_directory ru config_path \<and> ru_watch ru dir = Inr ()"
    if "start_watcher ru m config_path = Inr watching" for m watching
    using that by (auto simp: start_watcher_def res_simps split: if_splits)
  obtain l files1 where l: "load_or_create (te_desktop te) files = (l, files1)" by force
  let ?tray = "\<lambda>settings. new_tray te files1 config_path (of_nat (length configs)) (managed_central settings configs central)"
  consider (early) e where "r = Inl e" "dt_watching trace = None" "dt_tray trace = None"
    | (no_tray) e settings watching where "r = Inl e" "trace = ?idle\<lparr>dt_worker := True, dt_watching := watching\<rparr>"
        "start_watcher ru (managed_central settings configs central) config_path = Inr watching"
    | (shown) settings watching app where "trace = ?idle\<lparr>dt_worker := True, dt_watching := watching,
          dt_tray := Some (fold (\<lambda>(env, event). user_event env event) (ru_events ru) app)\<rparr>"
        "start_watcher ru (managed_central settings configs central) config_path = Inr watching" "?tray settings = Inr app"
    using assms unfolding desktop_run_def l Let_def
    by (auto split: sum.splits dest: sym [of "Inl _"])
  then show ?thesis
  proof cases
    case early
    then show ?thesis by simp
  next
    case no_tray
    with watch [OF no_tray(3)] show ?thesis by (auto simp: managed_central_def split: option.splits)
  next
    case shown
    let ?app = "fold (\<lambda>(env, event). user_event env event) (ru_events ru) app"
    have "ta_managed_central app = managed_central settings configs central"
      using shown(3) by (auto simp: new_tray_def res_simps)
    then have m: "ta_managed_central ?app = managed_central settings configs central"
      by (rule managed.fold_user_event)
    have "tray_ok ?app" using status.fold_user_event [OF new_tray_ok [OF shown(3)]] .
    moreover have "user_event env Config_changed ?app = ?app" if "ta_managed_central ?app"
      using that by (simp add: user_event_def config_changed_def)
    moreover have "managed_central settings configs central \<or> central = None" by (auto simp: managed_central_def)
    ultimately show ?thesis
      using watch [OF shown(2)] m by (cases central; cases watching) (auto simp: shown(1))
  qed
qed

theorem desktop_run_sound_witness:
  "\<exists>ru te r trace files'. desktop_run ru te [] ''/c'' (Some example_bootstrap) Map.empty = (r, trace, files') \<and>
     dt_tray trace \<noteq> None \<and> dt_watching trace = None"
proof -
  let ?ru = "\<lparr>ru_event_loop = Inr (), ru_spawn_thread = Inr (), ru_watcher = Inl [], ru_watch = (\<lambda>_. Inl []),
    ru_canonicalize = Inr, ru_current_dir = Inl [], ru_events = [], ru_run_app = Inr ()\<rparr>"
  obtain s f where "load_or_create example_desktop_env Map.empty = (Inr s, f)"
    using example_first_start by (fastforce simp: choose_runtime_def split: prod.splits sum.splits)
  then obtain r trace files' where
    run: "desktop_run ?ru example_tray_env [] ''/c'' (Some example_bootstrap) Map.empty = (r, trace, files')"
    and app: "dt_tray trace \<noteq> None"
    by (simp add: desktop_run_def start_watcher_def managed_central_def new_tray_def example_tray_env_def Let_def)
  from desktop_run_sound [OF run] run app show ?thesis by blast
qed

end
