(* ===== verification/Spec2Isabelle.thy ===== *)
theory Spec2Isabelle
  imports Config_Load Ingress_Pairing Client_Tunnel Desktop Nats Browser_Login Key_Refresh Raw_Http Acme_Runtime Native_Backend Processes
begin

text \<open>
  A verification library for \<^verbatim>\<open>lfp-pipe\<close>, a reverse tunnel in Rust: a public ingress accepts connections
  for many host names, and private clients that listen on NATS claim them, call back, and
  bridge them to their backends. The sources are under \<^verbatim>\<open>src/\<close>.

  \<^bold>\<open>The program.\<close> A connection reaches \<^verbatim>\<open>ingress/src/lib.rs\<close>, which reads its first bytes to find the
  host name (\<^verbatim>\<open>shared/src/tls.rs\<close>, \<^verbatim>\<open>http.rs\<close>), broadcasts a request on the subject of the host
  (\<^verbatim>\<open>routing.rs\<close>, \<^verbatim>\<open>protocol.rs\<close>), selects one of the claims, and keeps the connection pending. The
  winner (\<^verbatim>\<open>client/src/lib.rs\<close>) calls back with a prefix line (\<^verbatim>\<open>prefix.rs\<close>), and the two streams are
  relayed (\<^verbatim>\<open>io.rs\<close>). The client terminates TLS (\<^verbatim>\<open>acme.rs\<close>), serves HTTP through a proxy
  (\<^verbatim>\<open>http_proxy.rs\<close>) that authorizes requests (\<^verbatim>\<open>authorization.rs\<close>), or relays raw bytes. Its routes
  come from files (\<^verbatim>\<open>shared/src/config.rs\<close>, \<^verbatim>\<open>cli.rs\<close>) or from a control plane
  (\<^verbatim>\<open>config_source.rs\<close>, \<^verbatim>\<open>oauth.rs\<close>), headless or behind a tray (\<^verbatim>\<open>desktop.rs\<close>,
  \<^verbatim>\<open>desktop_settings.rs\<close>).

  \<^bold>\<open>The theories.\<close>
  \<^item> \<open>Prelude\<close>, \<open>Rust_Str\<close>, \<open>Serde\<close>, \<open>Net\<close>, \<open>Http_Types\<close>: results with the causes of an
    \<^verbatim>\<open>anyhow\<close> error, Rust strings as UTF-8 bytes, the data model and field rules of derived
    \<^verbatim>\<open>serde\<close> implementations, sockets as lists of arrivals, header maps and URIs. The locale of
    header operations is interpreted on header maps there.
  \<^item> \<open>Prefix_Line\<close>, \<open>Protocol\<close>: the callback prefix and the NATS messages, with round trips.
  \<^item> \<open>Http_Host\<close>: sniffing of HTTP and of TLS records.
  \<^item> \<open>Config_Types\<close>, \<open>Config_Expand\<close>, \<open>Config_Load\<close>: every configuration type with its defaults and
    decoder; overrides and the layering of multi-route documents; loading and validation,
    proved equivalent to a declarative predicate.
  \<^item> \<open>Cli\<close>: file-backed variables, the layering of options over files, and what \<^verbatim>\<open>main\<close> starts.
  \<^item> \<open>Routing\<close>: host subjects and backend selection against a specification of the most specific
    rule; the selection is a locale with an interpretation for rules and, in \<open>Http_Proxy\<close>,
    one for running backends.
  \<^item> \<open>Ingress_Detect\<close>, \<open>Ingress_Claims\<close>, \<open>Ingress_Pairing\<close>: the handshakes as loops over sockets, the
    selection of a winner, and the permits and pending connections as a step relation whose
    invariants hold for every interleaving; the handlers refine its steps.
  \<^item> \<open>Relay\<close>: which implementation moves bytes, when falling back is allowed, and the probe behind it.
  \<^item> \<open>Authorization\<close>: bearer tokens, keys and their age, browser sessions, roles and responses;
    \<open>Oidc_Sessions\<close>: what a login must have shown before it gets a session, and the session key and
    the key cache on disk; \<open>Browser_Login\<close>: the three requests of a login put together;
    \<open>Key_Refresh\<close>: how often tokens make the layer ask the identity provider.
  \<^item> \<open>Http_Proxy\<close>: selection, authorization, header and path rewriting, forwarding and keep-alive.
  \<^item> \<open>Raw_Http\<close>: the rewriting of raw request heads that the unit tests exercise, compared with what
    \<open>Http_Proxy\<close> does to header maps.
  \<^item> \<open>Acme\<close>: settings and cache of the certificate runtime, and the fate of a decrypted stream;
    \<open>Acme_Runtime\<close>: the running task, its channel and its shutdown as a transition system.
  \<^item> \<open>Oauth\<close>, \<open>Client_Tunnel\<close>: tickets and renewal; starting a route, claiming, bridging, sessions.
  \<^item> \<open>Central\<close>: snapshots of the control plane, and the loop that keeps their routes running, as a
    step function with a reachability predicate and invariants.
  \<^item> \<open>Nats\<close>: address and options of a connection.
  \<^item> \<open>Desktop_Settings\<close>, \<open>Desktop\<close>: preferences and enrollment over the user's files; the tray and its
    event handlers. The doubling delay is one locale, interpreted for the central loop and
    for the local loop of the tray; what every event of the tray keeps is another, interpreted
    for the form of its status and for its mode.
  \<^item> \<open>Processes\<close>: the ingress, the desktop client and the headless client put together, the NATS
    watchdog and the timers.
  \<^item> \<open>Native_Backend\<close>: the backend of the throughput tests.
  \<^item> This theory: the properties that span components.

  \<^bold>\<open>Conventions.\<close> A fallible operation returns \<open>anyhow + 'a\<close>; a future that may not become ready
  returns \<open>'a poll\<close>; state is passed and returned. Third-party code (the JSON and TOML text layers,
  TLS, JWT, HTTP and NATS clients, the file system, clocks, dialogs) is an argument or a
  field of an \<open>_env\<close> record; what is assumed of it, such as that a JSON layer reads back what it
  wrote, is a hypothesis of the theorem that needs it, and a witness instantiates it.

  \<^bold>\<open>What is shown.\<close> Safety from end to end: the HTTP proxy hands a request to a backend only if the
  authorizer of the policy in force allowed it, with identity headers that the client cannot
  forge (with TCP passthrough, the default, a connection that does not open with HTTP is relayed
  without it, which \<open>passthrough_skips_authorization\<close> records); a
  tunnel is joined only with the connection its client claimed; permits are never lost; a login
  ends in a session only for the browser that began it.
  Equivalence and refinement: host detection is a function of the bytes, whatever their
  segmentation; validation is its specification; handlers refine the steps of the state
  machine; the unit-tested rewriting of raw headers agrees with the proxy, but for one header.
  State on disk: keys survive a restart, and a stored secret is private. Termination and
  liveness: detection, enrollment, uploads and every loop below return; the
  central loop recovers when its control plane does; a login that the provider accepts leads back to
  the page it began at. Bounds: tokens cannot make the layer ask for keys more often than its
  interval allows, and tickets are renewed in time. Several lemmas record where the code
  departs from its documentation: \<open>passthrough_skips_authorization\<close>,
  \<open>session_shared_between_policies\<close>, \<open>wrong_client_destroys_pending\<close>, \<open>wildcard_case_sensitive\<close>,
  \<open>return_to_backslash\<close>, \<open>domain_cache_dir_parent\<close>, \<open>limits_not_file_backed\<close>,
  \<open>client_id_without_routes\<close>, \<open>restart_keeps_file_override\<close>, \<open>tray_failure_not_fatal\<close>,
  \<open>raw_proxy_headers_agree\<close>, \<open>several_authorization_headers\<close>.

  \<^bold>\<open>Bounds.\<close> No fuel is chosen: loops recurse on the socket events that are left, on lists, or on
  the polls that are left, and the bounds are those of the code: 16 KiB of preface, 4097 bytes of
  prefix line, 24 or 8192 bytes of a peek for two seconds, 64 waiting streams, 120 enrollment
  polls, delays between one and thirty seconds. Unbounded service loops run over a list of events or
  worlds, of any length, and are still running at its end.

  \<^bold>\<open>Not modelled.\<close> Byte pumps and sockets below reads and writes (\<^verbatim>\<open>tokio\<close>, \<^verbatim>\<open>tokio-splice2\<close>);
  certificate issuance and TLS (\<^verbatim>\<open>rustls-acme\<close>), of which outcomes are labels of steps; the
  cryptography of tokens and cookies; the parser of command lines; log output; drawing, the GUI
  event loop and the registration for start at boot; the delegating \<^verbatim>\<open>AsyncRead\<close> and
  \<^verbatim>\<open>AsyncWrite\<close> of a wrapped socket; the test modules; the control plane in Go and its console in
  TypeScript; build and deployment files.
\<close>

section \<open>From the configuration to the backend\<close>

lemma policies_config:
  "map authorizer_policy st = map authorizer_policy st' \<Longrightarrow> k < length st' \<Longrightarrow> au_config (st ! k) = au_config (st' ! k)"
proof -
  assume m: "map authorizer_policy st = map authorizer_policy st'" and k: "k < length st'"
  have "length st = length st'" using m by (rule map_eq_imp_length_eq)
  with m k have "authorizer_policy (st ! k) = authorizer_policy (st' ! k)" by (metis nth_map)
  then show ?thesis by (simp add: authorizer_policy_def)
qed

text \<open>C1: a configured policy stands between the public and every backend it covers. On a route started
  from a configuration, with authorizers in any state that serving requests can bring them
  to, a request that the proxy hands to a backend address was selected by the routing
  specification for exactly one of the configured rules, and if a policy is in force for
  that rule, the authorizer loaded for that very policy has allowed the request as it was
  received.\<close>

theorem protected_route_end_to_end:
  assumes "start_session env config = Inr state"
    "map authorizer_policy store = map authorizer_policy (cs_authorizers state)"
    "handle_http_request px hostname client_ip scheme (cs_backends state) request store = (result, store')"
    "fw_sent result = Some (addr, sent)"
  shows "\<exists>rule. select_backend_for_path (cl_backend_rules config) (Some hostname) (uri_path (rq_uri request)) = Some rule \<and>
    addr = resolved_http_backend_addr rule \<and>
    (\<forall>policy. effective_policy config rule = Some policy \<longrightarrow>
       (\<exists>au identity au'. au \<in> set store \<and> au_config au = policy \<and>
          authorize (px_auth px) (rq_method request) (rq_uri request) (rq_headers request) au = (Allow identity, au'))) \<and>
    map authorizer_policy store' = map authorizer_policy store"
proof -
  from assms(3,4) obtain backend where
    f: "handle_request_inner px hostname client_ip scheme (cs_backends state) request store =
      (Inr (Forward backend sent), store')"
    and addr: "addr = resolved_http_backend_addr (be_rule backend)"
    by (rule handle_http_request_sent)
  from f obtain identity request' where
    sel: "select_runtime_for_path (cs_backends state) (Some hostname) (uri_path (rq_uri request)) = Some backend"
    and auth: "case be_authorization backend of
       None \<Rightarrow> identity = None \<and> request' = request \<and> store' = store
     | Some k \<Rightarrow> authorize_request px request k store = (Allow identity, store') \<and>
         request' = (if \<not> forward_authorization (store ! k)
           then request\<lparr>rq_headers := hremove ''authorization'' (rq_headers request)\<rparr> else request)"
    by (rule forward_authorized)
  from assms(1) obtain as where as: "loaded_ok as" "cs_authorizers state = map snd as"
    and rules: "map be_rule (cs_backends state) = cl_backend_rules config"
    and ok: "list_all (backend_ok config as) (cs_backends state)"
    by (rule start_session_Inr)
  have "backend \<in> set (cs_backends state)" using runtimes.select_in [OF sel] by blast
  with ok have b: "backend_ok config as backend" by (simp add: list_all_iff)
  have "\<exists>au identity au'. au \<in> set store \<and> au_config au = policy \<and>
      authorize (px_auth px) (rq_method request) (rq_uri request) (rq_headers request) au = (Allow identity, au')"
    if policy: "effective_policy config (be_rule backend) = Some policy" for policy
  proof -
    obtain k where k: "be_authorization backend = Some k" "k < length as" "policy = fst (as ! k)"
      using b policy by (auto simp: backend_ok_def split: option.splits)
    have "au_config (snd (as ! k)) = fst (as ! k)"
      using as(1) nth_mem [OF k(2)] by (auto simp: loaded_ok_def split: prod.splits)
    moreover have "length store = length as" using assms(2) as(2) by (metis length_map)
    ultimately have "store ! k \<in> set store" "au_config (store ! k) = policy"
      using policies_config [OF assms(2), of k] k as(2) by simp_all
    with auth k show ?thesis by (auto simp: authorize_request_def split: prod.splits)
  qed
  moreover have "select_backend_for_path (cl_backend_rules config) (Some hostname) (uri_path (rq_uri request)) =
      Some (be_rule backend)"
    using select_runtime_rule [of "cs_backends state" "Some hostname" "uri_path (rq_uri request)"] sel rules by simp
  ultimately show ?thesis
    using addr handle_http_request_policies [OF assms(3)] by blast
qed

text \<open>A request with the session cookie of the example route.\<close>

definition example_browser_request :: http_request where
  "example_browser_request =
     \<lparr>rq_method = ''GET'', rq_uri = example_uri,
      rq_headers = [(''host'', ''h''), (''cookie'', ''__Host-lfp_session_n=1'')]\<rparr>"

lemma load_authorizer_cookie:
  assumes "load_authorizer env policy hostname = Inr au" "au_oidc au = Some oz"
  shows "oz_session_cookie oz = ''__Host-lfp_session_'' @
    le_namespace env (az_issuer policy, az_oidc_client_id policy, hostname)"
  using assms by (auto simp: load_authorizer_def authorizer_load_def oidc_load_def Let_def res_simps split: if_splits)

lemma example_loaded:
  assumes "load_authorizer example_loader example_policy ''h'' = Inr au"
  shows "authorize example_env (rq_method example_browser_request) (rq_uri example_browser_request)
      (rq_headers example_browser_request) au = (Allow (Some example_identity), au)"
    "\<not> handles_endpoint au (uri_path (rq_uri example_browser_request))" "forward_authorization au"
proof -
  have c: "au_config au = example_policy" and "oidc_enabled example_policy"
    using load_authorizer_Inr [OF assms] by (simp_all add: oidc_enabled_def example_policy_def)
  then obtain oz where oz1: "au_oidc au = Some oz"
    using load_authorizer_Inr(2) [OF assms] by blast
  have "oz_session_cookie oz = ''__Host-lfp_session_'' @ le_namespace example_loader
      (az_issuer example_policy, az_oidc_client_id example_policy, ''h'')"
    by (rule load_authorizer_cookie [OF assms oz1])
  with oz1 have oz: "au_oidc au = Some oz" "oz_session_cookie oz = ''__Host-lfp_session_n''"
    by (simp_all add: example_loader_def)
  have t: "trim ''__Host-lfp_session_n=1'' = ''__Host-lfp_session_n=1''"
    by (rule trim_id) (simp_all add: in_range_def byte_val_def)
  have "request_cookie (\<lambda>_. True) (rq_headers example_browser_request) ''__Host-lfp_session_n'' = Some ''1''"
    by (simp add: request_cookie_def hget_all_def t example_browser_request_def)
  then have "oidc_session example_env oz (rq_headers example_browser_request) = Inr (Some example_identity)"
    by (simp add: oidc_session_def decrypt_cookie_def oz(2) example_env_def
        flip: example_identity_def) (simp add: example_identity_def)
  then show "authorize example_env (rq_method example_browser_request) (rq_uri example_browser_request)
      (rq_headers example_browser_request) au = (Allow (Some example_identity), au)"
    by (simp add: authorize_def oz(1) c example_browser_request_def example_uri_def example_policy_def hcontains_def
        default_oidc_callback_path_def default_oidc_logout_path_def)
  show "\<not> handles_endpoint au (uri_path (rq_uri example_browser_request))" "forward_authorization au"
    by (simp_all add: handles_endpoint_def forward_authorization_def c example_browser_request_def example_uri_def
        example_policy_def default_oidc_callback_path_def default_oidc_logout_path_def)
qed

theorem protected_route_end_to_end_witness:
  "\<exists>au identity au'. au_config au = example_policy \<and>
     authorize example_env ''GET'' example_uri (rq_headers example_browser_request) au = (Allow identity, au') \<and>
     select_backend_for_path [example_rule] (Some ''h'') ''/x'' = Some example_rule"
proof -
  obtain au acme where load: "load_authorizer example_loader example_policy ''h'' = Inr au"
    and start: "start_session example_loader example_client = Inr \<lparr>cs_config = example_client, cs_acme = acme,
       cs_backends = [example_runtime], cs_authorizers = [au]\<rparr>"
    using example_start by blast
  note l = example_loaded [OF load]
  have "hget ''host'' (rq_headers example_browser_request) = Some ''h''"
    by (simp add: example_browser_request_def hget_def)
  from example_handled [OF l this] obtain result sent where
    h: "handle_http_request example_proxy ''h'' (Some ''1.2.3.4'') ''https'' [example_runtime] example_browser_request [au] =
      (result, [au])" "fw_sent result = Some (resolved_http_backend_addr example_rule, sent)"
    by blast
  have p: "effective_policy example_client example_rule = Some example_policy"
    by (simp add: effective_policy_def example_client_simps)
  have rq: "rq_method example_browser_request = ''GET''" "rq_uri example_browser_request = example_uri"
    "uri_path example_uri = ''/x''" "px_auth example_proxy = example_env"
    by (simp_all add: example_browser_request_def example_uri_def example_proxy_def)
  have same: "map authorizer_policy [au] = map authorizer_policy (cs_authorizers \<lparr>cs_config = example_client,
      cs_acme = acme, cs_backends = [example_runtime], cs_authorizers = [au]\<rparr>)" by simp
  from protected_route_end_to_end [OF start same, of example_proxy "''h''" "Some ''1.2.3.4''" "''https''"
      example_browser_request result "[au]" "resolved_http_backend_addr example_rule" sent] h
  obtain rule where r: "select_backend_for_path [example_rule] (Some ''h'') ''/x'' = Some rule"
    and a: "\<forall>policy. effective_policy example_client rule = Some policy \<longrightarrow>
       (\<exists>au' identity au''. au' \<in> set [au] \<and> au_config au' = policy \<and>
          authorize example_env ''GET'' example_uri (rq_headers example_browser_request) au' = (Allow identity, au''))"
    by (auto simp: example_client_simps rq)
  have "rule = example_rule" using rules.select_in [OF r] by simp
  with r a p show ?thesis by blast
qed

lemma validated_fallback:
  assumes "validate_client_config config = Inr ()" "cl_backend_rules config \<noteq> []"
  shows "\<exists>rule\<in>set (cl_backend_rules config). br_path_prefix rule = None"
proof (cases "\<exists>rule\<in>set (cl_backend_rules config). br_path_prefix rule \<noteq> None")
  case True
  then have "path_prefixes (cl_backend_rules config) \<noteq> []" by (simp add: path_prefixes_Nil)
  with assms(1) have "\<exists>!i. i < length (cl_backend_rules config) \<and> br_path_prefix (cl_backend_rules config ! i) = None"
    unfolding validate_client_config_correct client_config_ok_def by blast
  then show ?thesis using nth_mem by blast
next
  case False
  with assms(2) show ?thesis by (cases "cl_backend_rules config") auto
qed

lemma lower_punctuation:
  "byte_val p < 65 \<Longrightarrow> to_lower_byte a = to_lower_byte p \<longleftrightarrow> a = p"
  unfolding byte_val_inject [symmetric] to_lower_byte_val by auto

lemma no_wildcard:
  assumes "eq_ignore_ascii_case p d" "\<not> starts_with ''*.'' d"
  shows "strip_prefix ''*.'' p = None"
proof (rule ccontr)
  assume "strip_prefix ''*.'' p \<noteq> None"
  then obtain r where p: "p = ''*.'' @ r" by auto
  with assms(1) have "to_ascii_lowercase d = to_ascii_lowercase (''*.'' @ r)"
    by (simp add: eq_ignore_ascii_case_def)
  then obtain a b t where d: "d = a # b # t" "to_lower_byte a = to_lower_byte (CHR ''*'')"
    "to_lower_byte b = to_lower_byte (CHR ''.'')"
    by (auto simp: to_ascii_lowercase_def map_eq_Cons_conv)
  have "a = CHR ''*''" "b = CHR ''.''"
    using d(2,3) by (simp_all add: lower_punctuation byte_val_def)
  with d(1) assms(2) show False by (simp add: starts_with_iff)
qed

text \<open>On a validated route every request finds a backend. A configuration that passes validation
  and starts with a certificate runtime for a plain (non-wildcard) domain has a fallback for
  that domain, and path selection returns a backend for every path, so no request to the
  domain is lost to a routing gap and no terminated connection fails for want of a fallback.\<close>

theorem validated_route_total:
  assumes "validate_client_config config = Inr ()" "start_session env config = Inr state"
    "cl_acme config = Some acme" "ac_domain acme \<noteq> []" "\<not> starts_with ''*.'' (ac_domain acme)"
  shows "(\<exists>b. select_runtime_for_path (cs_backends state) (Some (ac_domain acme)) path = Some b) \<and>
    (\<exists>b. fallback_backend (cs_backends state) (Some (ac_domain acme)) = Inr b)"
proof -
  from assms(2) obtain as where rules: "map be_rule (cs_backends state) = cl_backend_rules config"
    and nonempty: "cs_backends state \<noteq> []"
    and pats: "list_all (\<lambda>b. eq_ignore_ascii_case (br_pattern (be_rule b)) (ac_domain acme)) (cs_backends state)"
    by (rule start_session_Inr) (use assms(3) in blast)
  have serves: "matches_hostname b (Some (ac_domain acme))" if "b \<in> set (cs_backends state)" for b
  proof -
    have e: "eq_ignore_ascii_case (br_pattern (be_rule b)) (ac_domain acme)"
      using pats that by (simp add: list_all_iff)
    have "br_pattern (be_rule b) \<noteq> []" using e assms(4) by (auto simp: eq_ignore_ascii_case_def to_ascii_lowercase_def)
    moreover have "strip_prefix ''*.'' (br_pattern (be_rule b)) = None"
      using e assms(5) by (rule no_wildcard)
    ultimately show ?thesis using e by (simp add: matches_hostname_def matches_pattern_def)
  qed
  obtain b where b: "b \<in> set (cs_backends state)" "br_path_prefix (be_rule b) = None"
  proof -
    have "cl_backend_rules config \<noteq> []" using nonempty rules by (cases "cs_backends state") auto
    from validated_fallback [OF assms(1) this] obtain rule where
      r: "rule \<in> set (cl_backend_rules config)" "br_path_prefix rule = None" by blast
    from r(1) obtain b where "b \<in> set (cs_backends state)" "be_rule b = rule"
      unfolding rules [symmetric] by auto
    with r(2) show thesis by (intro that [of b]) simp_all
  qed
  have "find (\<lambda>b. matches_hostname b (Some (ac_domain acme)) \<and> br_path_prefix (be_rule b) = None) (cs_backends state) \<noteq> None"
    using b serves [OF b(1)] by (auto simp: find_None_iff)
  then have "\<exists>b. fallback_backend (cs_backends state) (Some (ac_domain acme)) = Inr b"
    by (auto simp: fallback_backend_def)
  with runtimes.select_total [OF b(1) serves [OF b(1)] b(2)] show ?thesis by blast
qed

theorem validated_route_total_witness:
  "\<exists>state b. start_session example_loader example_client = Inr state \<and>
     select_runtime_for_path (cs_backends state) (Some ''h'') ''/any'' = Some b"
proof -
  obtain au acme where start: "start_session example_loader example_client = Inr \<lparr>cs_config = example_client,
      cs_acme = acme, cs_backends = [example_runtime], cs_authorizers = [au]\<rparr>"
    using example_start by blast
  have "authorization_ok example_policy"
    unfolding authorization_ok_def by (simp add: example_policy_def bearer_enabled_def oidc_enabled_def
        default_jwt_algorithms_def default_browser_oidc_scopes_def default_oidc_session_ttl_seconds_def
        default_auth_header_timeout_ms_def default_auth_max_header_bytes_def reserved_path_def
        default_oidc_callback_path_def default_oidc_logout_path_def has_query_or_fragment_def
        default_jwks_cache_file_def default_oidc_session_key_file_def) code_simp
  then have "validate_authorization example_policy = Inr ()" by (simp only: validate_authorization_iff)
  then have "validate_client_config example_client = Inr ()"
    by (simp add: validate_client_config_def example_client_simps) (simp add: example_client_def)
  moreover obtain a where a: "cl_acme example_client = Some a" "ac_domain a = ''h''"
    by (simp add: example_client_def)
  ultimately show ?thesis
    using validated_route_total [of example_client example_loader _ a "''/any''"] start by (auto simp: starts_with_def)
qed

section \<open>From the claim to the relay\<close>

text \<open>C7: the two halves of a tunnel meet. Given the laws of the JSON and base64 codecs, when a client
  decides to bridge a connection request, the one claim it published is accepted by the
  ingress as its own claim for that connection, and the line it writes on its callback makes
  the ingress bind exactly the pending connection with that id, provided the client won it:
  under any segmentation, the ingress ends up with that connection and with every byte the
  client sends after the line.\<close>

theorem tunnel_end_to_end:
  assumes codec: "\<And>v. from_text (to_text v) = Some v" "\<And>v. to_text v \<noteq> []"
      "\<And>x. b64_decode (b64_encode x) = Some x" "\<And>x c. c \<in> set (b64_encode x) \<Longrightarrow> b64_char c"
      "\<And>x. x \<noteq> [] \<Longrightarrow> b64_encode x \<noteq> []"
    and client: "handle_tunnel_request to_text from_text b64_encode nats net stream (reply, encode_json to_text
        ser_connection_request request) client = (Inr (Bridged action), published, line)"
    and size: "length line \<le> 4097"
    and pending: "is_pending ingress (cr_connection_id request) = Some entry"
      "pc_client_id entry = cl_client_id (cs_config client)"
    and callback: "stream_bytes callback = line @ payload"
  shows "(\<exists>subject claim. published = [(subject, ce_inbox nats, claim)] \<and>
      decode_claim from_text (cr_connection_id request) (claim, Some (ce_inbox nats)) =
        Inr (\<lparr>cc_client_id = cl_client_id (cs_config client), cc_connection_id = cr_connection_id request\<rparr>,
          Some (ce_inbox nats))) \<and>
    (\<exists>rest ingress'. handle_client_data from_text b64_decode callback ingress = (Inr (entry, rest), ingress') \<and>
       stream_bytes rest = payload \<and> is_pending ingress' (cr_connection_id request) = None \<and>
       is_relaying ingress' = is_relaying ingress + 1)"
  using client
proof (cases rule: handle_tunnel_request_cases)
  case (bridged request' ack act)
  have "request' = request"
    using bridged(1) codec(1) by (simp add: decode_encode_json)
  note b = bridged [unfolded this]
  have line: "line = encode_line to_text b64_encode
      (prefix_new (cl_client_id (cs_config client)) (cr_connection_id request))"
    using bridge_connection_line(2) [OF b(5)] b(6) by (cases act) simp_all
  obtain rest where rest: "read_prefix from_text b64_decode callback =
      Ready (Inr (prefix_new (cl_client_id (cs_config client)) (cr_connection_id request)), rest)"
    "stream_bytes rest = payload"
    using read_prefix_line [of from_text to_text b64_decode b64_encode callback] codec size callback
    unfolding line by blast
  have pfx: "pe_connection_id (prefix_new c i) = i" "pe_client_id (prefix_new c i) = c" for c i
    by (simp_all add: prefix_new_def)
  have "read_prefix_before from_text b64_decode callback =
      (Inr (prefix_new (cl_client_id (cs_config client)) (cr_connection_id request)), rest)"
    using rest(1) by (simp add: read_prefix_before_def timeout_context_def)
  then have "\<exists>ingress'. handle_client_data from_text b64_decode callback ingress = (Inr (entry, rest), ingress') \<and>
      is_pending ingress' (cr_connection_id request) = None \<and> is_relaying ingress' = is_relaying ingress + 1"
    using pending by (simp add: handle_client_data_def bind_callback_def pfx Let_def drop_handshake_def)
  moreover have "\<exists>subject. published = [(subject, ce_inbox nats, encode_json to_text ser_connection_claim
      \<lparr>cc_client_id = cl_client_id (cs_config client), cc_connection_id = cr_connection_id request\<rparr>)]"
    using submit_claim_published [OF b(3)] by auto
  ultimately show ?thesis
    using rest(2) codec(1) by (auto simp: decode_claim_def decode_encode_json)
qed auto

lemma example_line: "encode_line one_text hex_encode (prefix_new ''a'' ''b'') = ''21'' @ [CHR 0x0A]"
proof -
  have "hex_encode ''!'' = ''21''" by code_simp
  then show ?thesis by (simp only: encode_line_def one_text_def if_True simp_thms)
qed

theorem tunnel_end_to_end_witness:
  "\<exists>rest ingress'. handle_client_data one_parse hex_decode [Data ''2'', Data (''1'' @ [CHR 0x0A]), Data ''hello'']
      (example_state\<lparr>is_pending := [''b'' \<mapsto> example_pending]\<rparr>) = (Inr (example_pending, rest), ingress') \<and>
     stream_bytes rest = ''hello''"
proof -
  note h = example_bridged [of one_parse one_text, OF one_parse_text, unfolded example_line]
  have id: "cr_connection_id example_tunnel_request = ''b''"
    "pc_client_id example_pending = cl_client_id (cs_config example_client_state)"
    by (simp_all add: example_tunnel_request_def example_pending_def example_client_state_def example_client_def)
  let ?s = "example_state\<lparr>is_pending := [''b'' \<mapsto> example_pending]\<rparr>"
  let ?c = "[Data ''2'', Data (''1'' @ [CHR 0x0A]), Data ''hello'']"
  have "\<exists>rest ingress'. handle_client_data one_parse hex_decode ?c ?s = (Inr (example_pending, rest), ingress') \<and>
       stream_bytes rest = ''hello'' \<and> is_pending ingress' (cr_connection_id example_tunnel_request) = None \<and>
       is_relaying ingress' = is_relaying ?s + 1"
    by (rule conjunct2, rule tunnel_end_to_end [where to_text = one_text and b64_encode = hex_encode],
        rule one_parse_text, rule one_text_nonempty, rule hex_decode_encode, erule hex_encode_alphabet,
        erule hex_encode_nonempty, rule h) (simp_all add: id)
  then
  show ?thesis by blast
qed

end
